(* ===== verification/Go_Base.thy ===== *)
theory Go_Base
  imports Main "HOL-Library.State_Monad"
begin

text \<open>
  The Go vocabulary shared by every component: error values and the chain walk of
  \<open>errors.Is\<close>, machine integer conversions, durations and instants, decimal formatting and
  parsing as in package \<open>strconv\<close>, and the named collections the component proofs draw on.
  An error result \<open>error\<close> of the code is \<open>go_error option\<close> (\<open>None\<close> is Go's \<open>nil\<close>), a pair
  \<open>(T, error)\<close> is \<open>go_error + 'a\<close>.
\<close>

named_theorems op_defs \<open>definitions of the table operations, for unfolding\<close>
named_theorems evolve_intros \<open>an operation respects an evolution relation\<close>

section \<open>Errors\<close>

text \<open>
  One constructor per sentinel (\<open>errors.New\<close> variable) the code compares against with
  \<open>errors.Is\<close>. Sentinels of different packages that share a Go name carry the package as prefix.
\<close>

datatype sentinel =
    ErrJobNotFound | ErrRetryScheduled | ErrDLQScheduled | ErrStatusConflict
  | ErrPMNotFound | ErrLeaseLost
  | ErrRejected | ErrUnsupportedQuestion
  | ContextCanceled | ContextDeadlineExceeded | GormErrRecordNotFound | RedisNil
  | ErrPortNotAllowed | ErrAddressBlocked | ErrNoAddressResolved | ErrInvalidHost
  | ErrResultNotFound | ErrResultCorrupted | ErrResultStoreUnavailable
  | ErrDecryptFailed | ErrInvalidToken
  | DsErrNotFound | DsErrDuplicateLabel | DsErrHasActiveJobs
  | UserErrNotFound | UserErrDuplicateEmail

text \<open>
  \<open>Wrap pre e post\<close> is \<open>fmt.Errorf("pre%wpost", e)\<close>; \<open>GuardError\<close> unwraps to
  \<open>ErrRejected\<close> as its \<open>Unwrap\<close> method says; the service errors of the packages queryjob,
  datasource (with its HTTP status) and user have no \<open>Unwrap\<close>.
\<close>

datatype go_error =
    Sentinel sentinel
  | NewError string
  | Wrap string go_error string
  | GuardError string
  | ServiceError string string
  | DsServiceError string string nat
  | UserServiceError string string

fun errors_is :: "go_error \<Rightarrow> sentinel \<Rightarrow> bool" where
  "errors_is (Sentinel s) t = (s = t)"
| "errors_is (NewError _) t = False"
| "errors_is (Wrap _ e _) t = errors_is e t"
| "errors_is (GuardError _) t = (t = ErrRejected)"
| "errors_is (ServiceError _ _) t = False"
| "errors_is (DsServiceError _ _ _) t = False"
| "errors_is (UserServiceError _ _) t = False"

text \<open>\<open>errors.Is(nil, target)\<close> is false for the non-nil targets used here.\<close>

fun errors_is_opt :: "go_error option \<Rightarrow> sentinel \<Rightarrow> bool" where
  "errors_is_opt None t = False"
| "errors_is_opt (Some e) t = errors_is e t"

text \<open>\<open>errors.As\<close> for the service errors of the packages queryjob, datasource and user.\<close>

fun as_service_error :: "go_error \<Rightarrow> (string \<times> string) option" where
  "as_service_error (ServiceError c m) = Some (c, m)"
| "as_service_error (Wrap _ e _) = as_service_error e"
| "as_service_error _ = None"

fun as_ds_error :: "go_error \<Rightarrow> (string \<times> string \<times> nat) option" where
  "as_ds_error (DsServiceError c m s) = Some (c, m, s)"
| "as_ds_error (Wrap _ e _) = as_ds_error e"
| "as_ds_error _ = None"

fun as_user_error :: "go_error \<Rightarrow> (string \<times> string) option" where
  "as_user_error (UserServiceError c m) = Some (c, m)"
| "as_user_error (Wrap _ e _) = as_user_error e"
| "as_user_error _ = None"

text \<open>A chain has one end: an error that is a sentinel carries no service error.\<close>

lemma sentinel_no_service_error:
  "errors_is e t \<Longrightarrow> as_service_error e = None \<and> as_ds_error e = None \<and> as_user_error e = None"
  by (induction e) auto

section \<open>Integers, instants, durations\<close>

text \<open>
  Instants and durations are nanosecond counts (\<open>time.Time\<close>, \<open>time.Duration\<close>).
  \<open>uint8_of\<close>, \<open>int32_of\<close>, \<open>int64_of\<close> and \<open>uint64_of\<close> are Go's wrapping conversions \<open>uint8(x)\<close> and so on.
\<close>

type_synonym instant = int
type_synonym duration = int

definition millisecond :: duration where "millisecond = 1000000"
definition second :: duration where "second = 1000 * millisecond"

definition uint8_of :: "int \<Rightarrow> nat" where
  "uint8_of x = nat (x mod 256)"

definition int32_of :: "int \<Rightarrow> int" where
  "int32_of x = (x + 2147483648) mod 4294967296 - 2147483648"

definition int64_of :: "int \<Rightarrow> int" where
  "int64_of x = (x + 9223372036854775808) mod 18446744073709551616 - 9223372036854775808"

definition uint64_of :: "int \<Rightarrow> nat" where
  "uint64_of x = nat (x mod 18446744073709551616)"

lemma uint64_of_int64_of [simp]: "uint64_of (int64_of (int n)) = n mod 18446744073709551616"
proof -
  have "int64_of (int n) mod 18446744073709551616 = int n mod 18446744073709551616"
    unfolding int64_of_def by (simp add: mod_simps)
  then show ?thesis by (simp add: uint64_of_def nat_mod_distrib)
qed

lemma uint8_of_id [simp]: "0 \<le> x \<Longrightarrow> x < 256 \<Longrightarrow> uint8_of x = nat x"
  by (simp add: uint8_of_def)

lemma uint8_of_bound: "uint8_of x < 256"
  by (simp add: uint8_of_def nat_less_iff)

lemma int32_of_id [simp]: "-2147483648 \<le> x \<Longrightarrow> x < 2147483648 \<Longrightarrow> int32_of x = x"
  by (simp add: int32_of_def)

section \<open>Decimal numbers (package strconv)\<close>

definition digit_char :: "nat \<Rightarrow> char" where
  "digit_char d = char_of (48 + d)"

definition is_digit :: "char \<Rightarrow> bool" where
  "is_digit c = (48 \<le> (of_char c :: nat) \<and> (of_char c :: nat) \<le> 57)"

definition digit_val :: "char \<Rightarrow> nat" where
  "digit_val c = of_char c - 48"

fun format_uint :: "nat \<Rightarrow> string" where
  "format_uint n =
     (if n < 10 then [digit_char n] else format_uint (n div 10) @ [digit_char (n mod 10)])"

declare format_uint.simps [simp del]

definition digits_value :: "string \<Rightarrow> nat" where
  "digits_value s = foldl (\<lambda>v c. 10 * v + digit_val c) 0 s"

text \<open>\<open>strconv.ParseUint(s, 10, bits)\<close>; \<open>None\<close> is a syntax or range error.\<close>

definition parse_uint :: "nat \<Rightarrow> string \<Rightarrow> nat option" where
  "parse_uint bits s =
     (if s = [] \<or> \<not> list_all is_digit s then None
      else if digits_value s < 2 ^ bits then Some (digits_value s) else None)"

lemma digit_char_props [simp]:
  assumes "d < 10"
  shows "is_digit (digit_char d)" and "digit_val (digit_char d) = d"
  using assms by (auto simp: is_digit_def digit_val_def digit_char_def)

lemma format_uint_nonempty [simp]: "format_uint n \<noteq> []"
  by (subst format_uint.simps) simp

lemma format_uint_digits: "list_all is_digit (format_uint n)"
proof (induction n rule: format_uint.induct)
  case (1 n)
  then show ?case by (subst format_uint.simps) simp
qed

lemma digits_value_snoc [simp]: "digits_value (s @ [c]) = 10 * digits_value s + digit_val c"
  by (simp add: digits_value_def)

lemma digits_value_format [simp]: "digits_value (format_uint n) = n"
proof (induction n rule: format_uint.induct)
  case (1 n)
  show ?case
  proof (cases "n < 10")
    case True
    then show ?thesis by (subst format_uint.simps) (simp add: digits_value_def)
  next
    case False
    with "1" show ?thesis by (subst format_uint.simps) simp
  qed
qed

lemma parse_format_uint: "n < 2 ^ bits \<Longrightarrow> parse_uint bits (format_uint n) = Some n"
  by (simp add: parse_uint_def format_uint_digits)

lemma parse_uint_bound: "parse_uint bits s = Some n \<Longrightarrow> n < 2 ^ bits"
  by (auto simp: parse_uint_def split: if_splits)

lemma format_uint_inject [simp]: "format_uint m = format_uint n \<longleftrightarrow> m = n"
  by (metis digits_value_format)

end
