(* ===== verification/Sql_Table.thy ===== *)
theory Sql_Table
  imports Go_Base
begin

text \<open>
  Tables as lists of rows in insertion order and the SQL statements the repositories issue on
  them: \<open>SELECT ... LIMIT 1\<close>, \<open>SELECT COUNT\<close>, \<open>UPDATE ... SET f WHERE P\<close> with its
  affected-row count, \<open>DELETE ... WHERE P LIMIT n\<close> and \<open>INSERT\<close>. The affected-row count is the
  driver's default one: rows whose contents changed (the DSNs do not set \<open>clientFoundRows\<close>).
\<close>

definition sql_first :: "('r \<Rightarrow> bool) \<Rightarrow> 'r list \<Rightarrow> 'r option" where
  "sql_first P rows = find P rows"

definition sql_count :: "('r \<Rightarrow> bool) \<Rightarrow> 'r list \<Rightarrow> nat" where
  "sql_count P rows = length (filter P rows)"

definition sql_update :: "('r \<Rightarrow> bool) \<Rightarrow> ('r \<Rightarrow> 'r) \<Rightarrow> 'r list \<Rightarrow> 'r list" where
  "sql_update P f rows = map (\<lambda>r. if P r then f r else r) rows"

definition sql_affected :: "('r \<Rightarrow> bool) \<Rightarrow> ('r \<Rightarrow> 'r) \<Rightarrow> 'r list \<Rightarrow> nat" where
  "sql_affected P f rows = length (filter (\<lambda>r. P r \<and> f r \<noteq> r) rows)"

fun sql_delete_limit :: "nat \<Rightarrow> ('r \<Rightarrow> bool) \<Rightarrow> 'r list \<Rightarrow> 'r list \<times> nat" where
  "sql_delete_limit n P [] = ([], 0)"
| "sql_delete_limit n P (r # rows) =
     (if n = 0 then (r # rows, 0)
      else if P r then (case sql_delete_limit (n - 1) P rows of (rest, k) \<Rightarrow> (rest, Suc k))
      else (case sql_delete_limit n P rows of (rest, k) \<Rightarrow> (r # rest, k)))"

text \<open>The row with a given primary key.\<close>

definition lookup :: "('r \<Rightarrow> 'k) \<Rightarrow> 'k \<Rightarrow> 'r list \<Rightarrow> 'r option" where
  "lookup key k rows = find (\<lambda>r. key r = k) rows"

section \<open>Lookup after each statement\<close>

lemma lookup_Nil [simp]: "lookup key k [] = None"
  by (simp add: lookup_def)

lemma lookup_Cons [simp]:
  "lookup key k (r # rows) = (if key r = k then Some r else lookup key k rows)"
  by (simp add: lookup_def)

lemma lookup_key: "lookup key k rows = Some r \<Longrightarrow> key r = k \<and> r \<in> set rows"
  by (induction rows) (auto split: if_splits)

lemma lookup_None_iff: "lookup key k rows = None \<longleftrightarrow> k \<notin> key ` set rows"
  by (induction rows) auto

lemma lookup_append [simp]:
  "lookup key k (xs @ ys) = (case lookup key k xs of None \<Rightarrow> lookup key k ys | Some r \<Rightarrow> Some r)"
  by (induction xs) auto

lemma lookup_update:
  assumes "\<And>r. key (f r) = key r"
  shows "lookup key k (sql_update P f rows) =
           map_option (\<lambda>r. if P r then f r else r) (lookup key k rows)"
  by (induction rows) (auto simp: sql_update_def assms)

lemma keys_update:
  assumes "\<And>r. key (f r) = key r"
  shows "map key (sql_update P f rows) = map key rows"
  by (induction rows) (auto simp: sql_update_def assms)

lemma lookup_distinct:
  "distinct (map key rows) \<Longrightarrow> r \<in> set rows \<Longrightarrow> lookup key (key r) rows = Some r"
  by (induction rows) (auto simp: rev_image_eqI)

lemma in_sql_update:
  "r' \<in> set (sql_update P f rows) \<longleftrightarrow> (\<exists>r \<in> set rows. r' = (if P r then f r else r))"
  by (auto simp: sql_update_def)

section \<open>Affected rows of a conditional update by primary key\<close>

text \<open>
  A compare-and-set statement \<open>UPDATE ... WHERE key = k AND guard\<close>: with distinct keys it touches
  the row \<open>k\<close> at most, and reports zero rows exactly when the row is missing, fails the guard,
  or would not change.
\<close>

lemma affected_zero_iff:
  assumes "distinct (map key rows)"
  shows "sql_affected (\<lambda>r. key r = k \<and> G r) f rows = 0 \<longleftrightarrow>
           (case lookup key k rows of None \<Rightarrow> True | Some r \<Rightarrow> G r \<longrightarrow> f r = r)"
  using assms
  by (induction rows) (auto simp: sql_affected_def filter_empty_conv image_iff split: option.splits
      dest: lookup_key)

lemma update_not_affected:
  "sql_affected P f rows = 0 \<Longrightarrow> sql_update P f rows = rows"
  by (induction rows) (auto simp: sql_affected_def sql_update_def split: if_splits)

lemma affected_zero_lookup:
  assumes "sql_affected (\<lambda>r. key r = k \<and> G r) f rows \<noteq> 0"
  shows "\<exists>r \<in> set rows. key r = k \<and> G r \<and> f r \<noteq> r"
  using assms by (auto simp: sql_affected_def filter_empty_conv)

section \<open>Compare-and-set statements\<close>

text \<open>
  The contract of the statements \<open>UPDATE ... SET f WHERE key = k AND G\<close> every repository is built
  from: they touch the row \<open>k\<close> only, only when its guard holds, and report it.
\<close>

locale guarded_update =
  fixes key :: "'r \<Rightarrow> 'k" and k :: 'k and G :: "'r \<Rightarrow> bool" and f :: "'r \<Rightarrow> 'r"
  assumes key_kept: "key (f r) = key r"
begin

lemma lookup_self:
  "lookup key k (sql_update (\<lambda>r. key r = k \<and> G r) f rows) =
     map_option (\<lambda>r. if G r then f r else r) (lookup key k rows)"
  using lookup_update [of key f k "\<lambda>r. key r = k \<and> G r" rows] key_kept
  by (cases "lookup key k rows") (auto dest: lookup_key)

lemma lookup_other:
  "j \<noteq> k \<Longrightarrow> lookup key j (sql_update (\<lambda>r. key r = k \<and> G r) f rows) = lookup key j rows"
  using lookup_update [of key f j "\<lambda>r. key r = k \<and> G r" rows] key_kept
  by (cases "lookup key j rows") (auto dest: lookup_key)

lemma keys_kept: "map key (sql_update (\<lambda>r. key r = k \<and> G r) f rows) = map key rows"
  by (rule keys_update) (rule key_kept)

lemma hit:
  assumes "distinct (map key rows)" and "sql_affected (\<lambda>r. key r = k \<and> G r) f rows \<noteq> 0"
  shows "\<exists>r. lookup key k rows = Some r \<and> G r \<and> f r \<noteq> r \<and>
    lookup key k (sql_update (\<lambda>r. key r = k \<and> G r) f rows) = Some (f r)"
proof -
  obtain r where r: "r \<in> set rows" "key r = k" "G r" "f r \<noteq> r"
    using affected_zero_lookup [OF assms(2)] by blast
  then have "lookup key k rows = Some r"
    using lookup_distinct [OF assms(1)] by fastforce
  with r show ?thesis by (simp add: lookup_self)
qed

lemma miss:
  assumes "distinct (map key rows)"
    and "\<And>r. lookup key k rows = Some r \<Longrightarrow> \<not> G r"
  shows "sql_affected (\<lambda>r. key r = k \<and> G r) f rows = 0"
  using assms by (simp add: affected_zero_iff split: option.splits)

end

text \<open>When the new contents fail the guard, the statement can succeed once only.\<close>

locale one_shot_update = guarded_update +
  assumes consumes: "\<not> G (f r)"
begin

lemma hit_iff:
  assumes "distinct (map key rows)"
  shows "sql_affected (\<lambda>r. key r = k \<and> G r) f rows \<noteq> 0 \<longleftrightarrow>
    (\<exists>r. lookup key k rows = Some r \<and> G r)"
  using assms consumes by (auto simp: affected_zero_iff split: option.splits) metis

lemma no_second_hit:
  assumes "distinct (map key rows)"
    and "sql_affected (\<lambda>r. key r = k \<and> G r) f rows \<noteq> 0"
  shows "sql_affected (\<lambda>r. key r = k \<and> G r) f' (sql_update (\<lambda>r. key r = k \<and> G r) f rows) = 0"
proof -
  obtain r where "lookup key k (sql_update (\<lambda>r. key r = k \<and> G r) f rows) = Some (f r)"
    using hit [OF assms] by blast
  with assms(1) consumes show ?thesis by (simp add: affected_zero_iff keys_kept)
qed

end

section \<open>Leased rows\<close>

text \<open>
  Rows a worker holds by a lease token: the statements that finish, renew or release the work are
  guarded by the token (\<open>WHERE key = ? AND lease_token = ? ...\<close>). Whoever lost the lease cannot
  touch the row, and no two tokens are ever both good for it.
\<close>

locale leased_rows =
  fixes key :: "'r \<Rightarrow> 'k" and holder :: "'r \<Rightarrow> string option"
    and guard :: "string \<Rightarrow> 'r \<Rightarrow> bool" and stamp :: "'r \<Rightarrow> 'r"
  assumes stamp_key: "key (stamp r) = key r"
    and guard_holder: "guard t r \<Longrightarrow> holder r = Some t"

sublocale leased_rows \<subseteq> upd: guarded_update key row_key "guard tok" stamp for row_key tok
  by unfold_locales (rule stamp_key)

context leased_rows
begin

lemma stale_token_no_effect:
  assumes "distinct (map key rows)"
    and "\<And>r. lookup key k rows = Some r \<Longrightarrow> holder r \<noteq> Some t"
  shows "sql_affected (\<lambda>r. key r = k \<and> guard t r) stamp rows = 0"
    and "sql_update (\<lambda>r. key r = k \<and> guard t r) stamp rows = rows"
proof -
  show "sql_affected (\<lambda>r. key r = k \<and> guard t r) stamp rows = 0"
    by (rule upd.miss [OF assms(1)]) (use assms(2) guard_holder in blast)
  then show "sql_update (\<lambda>r. key r = k \<and> guard t r) stamp rows = rows"
    by (rule update_not_affected)
qed

lemma hit_needs_token:
  assumes "distinct (map key rows)"
    and "sql_affected (\<lambda>r. key r = k \<and> guard t r) stamp rows \<noteq> 0"
  shows "\<exists>r. lookup key k rows = Some r \<and> holder r = Some t"
  using upd.hit [OF assms] guard_holder by blast

lemma one_token:
  assumes "distinct (map key rows)"
    and "sql_affected (\<lambda>r. key r = k \<and> guard t r) stamp rows \<noteq> 0"
    and "sql_affected (\<lambda>r. key r = k \<and> guard t' r) stamp rows \<noteq> 0"
  shows "t = t'"
  using hit_needs_token [OF assms(1,2)] hit_needs_token [OF assms(1,3)] by auto

end

section \<open>Bounded deletion\<close>

lemma delete_limit_subset: "set (fst (sql_delete_limit n P rows)) \<subseteq> set rows"
  by (induction n P rows rule: sql_delete_limit.induct) (auto split: prod.splits if_splits)

lemma delete_limit_keeps: "r \<in> set rows \<Longrightarrow> \<not> P r \<Longrightarrow> r \<in> set (fst (sql_delete_limit n P rows))"
  by (induction n P rows rule: sql_delete_limit.induct) (auto split: prod.splits if_splits)

lemma delete_limit_count:
  "snd (sql_delete_limit n P rows) \<le> n \<and>
   length (fst (sql_delete_limit n P rows)) + snd (sql_delete_limit n P rows) = length rows"
  by (induction n P rows rule: sql_delete_limit.induct) (auto split: prod.splits if_splits)

lemma delete_limit_keys_distinct:
  "distinct (map key rows) \<Longrightarrow> distinct (map key (fst (sql_delete_limit n P rows)))"
proof (induction n P rows rule: sql_delete_limit.induct)
  case (2 n P r rows)
  have "key ` set (fst (sql_delete_limit n P rows)) \<subseteq> key ` set rows"
    using delete_limit_subset by (rule image_mono)
  with "2.prems" have "key r \<notin> key ` set (fst (sql_delete_limit n P rows))" by auto
  with 2 show ?case by (cases "n = 0"; cases "P r") (simp_all add: case_prod_beta)
qed simp

lemma delete_limit_lookup:
  assumes "distinct (map key rows)" and "lookup key k rows = Some r" and "\<not> P r"
  shows "lookup key k (fst (sql_delete_limit n P rows)) = Some r"
proof -
  have r: "key r = k" "r \<in> set rows" using lookup_key[OF assms(2)] by auto
  then have "r \<in> set (fst (sql_delete_limit n P rows))"
    using assms(3) by (simp add: delete_limit_keeps)
  moreover have "distinct (map key (fst (sql_delete_limit n P rows)))"
    using assms(1) by (rule delete_limit_keys_distinct)
  ultimately show ?thesis using r by (metis lookup_distinct)
qed

end
