(* ===== verification/Job_Status.thy ===== *)
theory Job_Status
  imports Sql_Table
begin

text \<open>
  The lifecycle state machine of a query job (internal/queryjob/status.go). The status column is
  a string; \<open>StatusOther\<close> stands for any content that is none of the eight constants.
\<close>

datatype status =
    StatusPending | StatusQueued | StatusGenerating | StatusValidating
  | StatusExecuting | StatusRetrying | StatusSucceeded | StatusFailed
  | StatusOther string

fun status_text :: "status \<Rightarrow> string" where
  "status_text StatusPending = ''pending''"
| "status_text StatusQueued = ''queued''"
| "status_text StatusGenerating = ''generating''"
| "status_text StatusValidating = ''validating''"
| "status_text StatusExecuting = ''executing''"
| "status_text StatusRetrying = ''retrying''"
| "status_text StatusSucceeded = ''succeeded''"
| "status_text StatusFailed = ''failed''"
| "status_text (StatusOther s) = s"

text \<open>The transition table; a key that is missing from the Go map has no successors.\<close>

fun valid_transitions :: "status \<Rightarrow> status list" where
  "valid_transitions StatusPending = [StatusQueued, StatusFailed]"
| "valid_transitions StatusQueued = [StatusGenerating, StatusFailed]"
| "valid_transitions StatusGenerating = [StatusValidating, StatusRetrying, StatusFailed]"
| "valid_transitions StatusValidating = [StatusExecuting, StatusRetrying, StatusFailed]"
| "valid_transitions StatusExecuting = [StatusSucceeded, StatusRetrying, StatusFailed]"
| "valid_transitions StatusRetrying = [StatusGenerating, StatusFailed]"
| "valid_transitions StatusSucceeded = []"
| "valid_transitions StatusFailed = []"
| "valid_transitions (StatusOther _) = []"

definition is_terminal :: "status \<Rightarrow> bool" where
  "is_terminal s = (s = StatusSucceeded \<or> s = StatusFailed)"

definition can_transition :: "status \<Rightarrow> status \<Rightarrow> bool" where
  "can_transition s next = list_ex (\<lambda>allowed. allowed = next) (valid_transitions s)"

lemma can_transition_simps [simp]:
  "can_transition StatusPending t \<longleftrightarrow> t = StatusQueued \<or> t = StatusFailed"
  "can_transition StatusQueued t \<longleftrightarrow> t = StatusGenerating \<or> t = StatusFailed"
  "can_transition StatusGenerating t \<longleftrightarrow> t \<in> {StatusValidating, StatusRetrying, StatusFailed}"
  "can_transition StatusValidating t \<longleftrightarrow> t \<in> {StatusExecuting, StatusRetrying, StatusFailed}"
  "can_transition StatusExecuting t \<longleftrightarrow> t \<in> {StatusSucceeded, StatusRetrying, StatusFailed}"
  "can_transition StatusRetrying t \<longleftrightarrow> t = StatusGenerating \<or> t = StatusFailed"
  "can_transition StatusSucceeded t \<longleftrightarrow> False"
  "can_transition StatusFailed t \<longleftrightarrow> False"
  "can_transition (StatusOther x) t \<longleftrightarrow> False"
  by (auto simp: can_transition_def)

lemma is_terminal_simps [simp]:
  "is_terminal StatusSucceeded" "is_terminal StatusFailed"
  "\<not> is_terminal StatusPending" "\<not> is_terminal StatusQueued"
  "\<not> is_terminal StatusGenerating" "\<not> is_terminal StatusValidating"
  "\<not> is_terminal StatusExecuting" "\<not> is_terminal StatusRetrying"
  "\<not> is_terminal (StatusOther x)"
  by (auto simp: is_terminal_def)

section \<open>Runs of the state machine\<close>

text \<open>The statuses a job can pass through, as a chain of legal transitions.\<close>

definition status_reaches :: "status \<Rightarrow> status \<Rightarrow> bool" where
  "status_reaches s t = can_transition\<^sup>*\<^sup>* s t"

lemma status_reaches_refl [simp, intro]: "status_reaches s s"
  by (simp add: status_reaches_def)

lemma status_reaches_trans [trans]:
  "status_reaches s t \<Longrightarrow> status_reaches t u \<Longrightarrow> status_reaches s u"
  by (simp add: status_reaches_def)

lemma status_reaches_step: "can_transition s t \<Longrightarrow> status_reaches s t"
  by (simp add: status_reaches_def)

lemma terminal_no_successor: "is_terminal s \<Longrightarrow> \<not> can_transition s t"
  by (cases s) auto

lemma terminal_absorbing: "status_reaches s t \<Longrightarrow> is_terminal s \<Longrightarrow> t = s"
  unfolding status_reaches_def
  by (induction rule: converse_rtranclp_induct) (auto simp: terminal_no_successor)

text \<open>
  The position of a status in the pipeline. Every legal transition moves forward except the
  scheduling of a retry, so a job can only loop by passing through \<open>retrying\<close>.
\<close>

fun stage :: "status \<Rightarrow> nat" where
  "stage StatusPending = 0"
| "stage StatusQueued = 1"
| "stage StatusRetrying = 1"
| "stage StatusGenerating = 2"
| "stage StatusValidating = 3"
| "stage StatusExecuting = 4"
| "stage StatusSucceeded = 5"
| "stage StatusFailed = 5"
| "stage (StatusOther _) = 6"

lemma transition_stage: "can_transition s t \<Longrightarrow> t \<noteq> StatusRetrying \<Longrightarrow> stage s < stage t"
  by (cases s) auto

lemma never_back_to_queue:
  "status_reaches s t \<Longrightarrow> t = StatusPending \<or> t = StatusQueued \<Longrightarrow> stage s \<le> 1 \<and> s \<noteq> StatusRetrying"
  unfolding status_reaches_def
proof (induction rule: converse_rtranclp_induct)
  case base
  then show ?case by auto
next
  case (step y z)
  then show ?case by (cases y) auto
qed

end
