(* ===== verification/App_State.thy ===== *)
theory App_State
  imports Job_Status
begin

text \<open>
  The persistent state the two processes share (the tables of askdb_app, the RabbitMQ queues,
  the Redis cache) and the way code reaches it. A call to a service outside the process is
  \<open>ext\<close>: before it takes effect, other processes may have acted; it may fail without effect, or
  take effect and still report an error (a lost reply). Which of these happens at each call is
  the script of the run, so a statement about all scripts covers every fault and interleaving
  at the granularity of one database statement or transaction, one publish, one cache access.
\<close>

section \<open>Rows\<close>

text \<open>The \<open>sql.Null*\<close> columns are options.\<close>

record query_job =
  jb_id :: nat
  jb_question :: string
  jb_generated_sql :: "string option"
  jb_status :: status
  jb_error_code :: "string option"
  jb_error_message :: "string option"
  jb_row_count :: "int option"
  jb_execution_duration_ms :: "int option"
  jb_created_at :: instant
  jb_updated_at :: instant
  jb_finished_at :: "instant option"
  jb_result_expires_at :: "instant option"
  jb_user_id :: "int option"
  jb_data_source_id :: "int option"
  jb_attempt_count :: nat
  jb_next_retry_at :: "instant option"

datatype outbox_status = OutboxPending | OutboxPublishing | OutboxPublished

record outbox_event =
  ob_id :: nat
  ob_message_id :: string
  ob_event_type :: string
  ob_version :: int
  ob_job_id :: nat
  ob_payload :: string
  ob_status :: outbox_status
  ob_attempt_count :: int
  ob_next_retry_at :: instant
  ob_lease_token :: "string option"
  ob_lease_expires_at :: "instant option"
  ob_last_error :: "string option"
  ob_created_at :: instant
  ob_published_at :: "instant option"
  ob_occurred_at :: instant

datatype pm_status = PmProcessing | PmRetryScheduled | PmCompleted

record processed_message =
  pm_message_id :: string
  pm_message_type :: string
  pm_job_id :: nat
  pm_attempt :: nat
  pm_status :: pm_status
  pm_lease_token :: string
  pm_lease_expires_at :: instant
  pm_completed_at :: "instant option"

record data_source =
  ds_id :: nat
  ds_user_id :: nat
  ds_label :: string
  ds_host :: string
  ds_port :: nat
  ds_database_name :: string
  ds_username :: string
  ds_password_ciphertext :: string
  ds_tls_mode :: string
  ds_connect_timeout_sec :: nat
  ds_created_at :: instant
  ds_updated_at :: instant
  ds_deleted_at :: "instant option"

record user_row =
  us_id :: nat
  us_email :: string
  us_password_hash :: string
  us_created_at :: instant
  us_updated_at :: instant

section \<open>Messages\<close>

text \<open>
  The JSON envelope (message.go). A body on the wire is either the encoding of an envelope or
  bytes that \<open>json.Unmarshal\<close> rejects; header values keep their AMQP type.
\<close>

record query_job_message =
  mg_message_id :: string
  mg_type :: string
  mg_version :: int
  mg_occurred_at :: instant
  mg_job_id :: nat

datatype body = JsonBody query_job_message | MalformedBody string

datatype amqp_value = AmqpInt32 int | AmqpInt64 int | AmqpString string | AmqpBool bool

type_synonym amqp_table = "(string \<times> amqp_value) list"

record publishing =
  pb_content_type :: string
  pb_persistent :: bool
  pb_message_id :: string
  pb_type :: string
  pb_timestamp :: instant
  pb_headers :: "amqp_table option"
  pb_body :: body

definition MessageTypeQueryExecutionRequested :: string where
  "MessageTypeQueryExecutionRequested = ''query.execution.requested''"

definition messageVersion :: int where "messageVersion = 1"

definition HeaderAttempt :: string where "HeaderAttempt = ''x-attempt''"

section \<open>The shared state\<close>

text \<open>
  \<open>w_queues\<close> holds for every queue the messages the broker routed to it, in order. Consuming does
  not shorten it: how far a consumer got is a matter of deliveries, which are arguments of the
  consumer's handler.
\<close>

record world =
  w_clock :: instant
  w_jobs :: "query_job list"
  w_next_job_id :: nat
  w_outbox :: "outbox_event list"
  w_next_outbox_id :: nat
  w_pm :: "processed_message list"
  w_sources :: "data_source list"
  w_next_source_id :: nat
  w_users :: "user_row list"
  w_next_user_id :: nat
  w_redis :: "(string \<times> string \<times> instant) list"
  w_queues :: "(string \<times> publishing list) list"
  w_bindings :: "(string \<times> string \<times> string) list"
  w_exchanges :: "string list"
  w_queue_args :: "(string \<times> amqp_table) list"

abbreviation job_at :: "world \<Rightarrow> nat \<Rightarrow> query_job option" where
  "job_at w k \<equiv> lookup jb_id k (w_jobs w)"

abbreviation event_at :: "world \<Rightarrow> nat \<Rightarrow> outbox_event option" where
  "event_at w k \<equiv> lookup ob_id k (w_outbox w)"

abbreviation pm_at :: "world \<Rightarrow> string \<Rightarrow> processed_message option" where
  "pm_at w k \<equiv> lookup pm_message_id k (w_pm w)"

abbreviation queue_at :: "world \<Rightarrow> string \<Rightarrow> publishing list" where
  "queue_at w q \<equiv> (case map_of (w_queues w) q of None \<Rightarrow> [] | Some ms \<Rightarrow> ms)"

section \<open>Calls to the outside\<close>

datatype outcome = CallOk | CallFails go_error | CallLost go_error

record ext_call =
  xc_interference :: "world \<Rightarrow> world"
  xc_delay :: nat
  xc_outcome :: outcome

record machine =
  m_world :: world
  m_script :: "ext_call list"

type_synonym 'a prog = "(machine, 'a) state"

definition tick :: "nat \<Rightarrow> world \<Rightarrow> world" where
  "tick d w = w\<lparr>w_clock := w_clock w + int d\<rparr>"

text \<open>
  One external call with effect \<open>f\<close>. When the script is used up the remaining calls run at once,
  undisturbed.
\<close>

definition ext :: "(world \<Rightarrow> (go_error + 'a) \<times> world) \<Rightarrow> (go_error + 'a) prog" where
  "ext f = State (\<lambda>m. case m_script m of
      [] \<Rightarrow> (case f (m_world m) of (r, w) \<Rightarrow> (r, m\<lparr>m_world := w\<rparr>))
    | c # cs \<Rightarrow>
        (let w = tick (xc_delay c) (xc_interference c (m_world m)) in
         case xc_outcome c of
           CallOk \<Rightarrow> (case f w of (r, w') \<Rightarrow> (r, m\<lparr>m_world := w', m_script := cs\<rparr>))
         | CallFails e \<Rightarrow> (Inl e, m\<lparr>m_world := w, m_script := cs\<rparr>)
         | CallLost e \<Rightarrow> (Inl e, m\<lparr>m_world := snd (f w), m_script := cs\<rparr>)))"

text \<open>\<open>time.Now()\<close>.\<close>

definition now :: "instant prog" where
  "now = State (\<lambda>m. (w_clock (m_world m), m))"

definition quiet :: "world \<Rightarrow> machine" where
  "quiet w = \<lparr>m_world = w, m_script = []\<rparr>"

lemma run_now [simp]: "run_state now m = (w_clock (m_world m), m)"
  by (simp add: now_def)

lemma run_ext_quiet [simp]:
  "m_script m = [] \<Longrightarrow>
     run_state (ext f) m = (fst (f (m_world m)), m\<lparr>m_world := snd (f (m_world m))\<rparr>)"
  by (simp add: ext_def case_prod_beta)

lemma quiet_simps [simp]: "m_world (quiet w) = w" "m_script (quiet w) = []" "(quiet w)\<lparr>m_world := w'\<rparr> = quiet w'"
  by (simp_all add: quiet_def)

lemma quiet_inject: "quiet w = quiet w' \<longleftrightarrow> w = w'"
  by (metis quiet_simps(1))

section \<open>Rely and guarantee\<close>

text \<open>
  The errors drivers report (network, SQL, AMQP, Redis, encoding) do not carry the sentinels the
  code uses to talk to itself, nor its service errors; they may carry the end of a context.
\<close>

definition driver_error :: "go_error \<Rightarrow> bool" where
  "driver_error e = ((\<forall>t. errors_is e t \<longrightarrow> t = ContextCanceled \<or> t = ContextDeadlineExceeded) \<and>
     as_service_error e = None \<and> as_ds_error e = None \<and> as_user_error e = None)"

lemma driver_error_simps [simp]:
  "driver_error (NewError msg)" "driver_error (Wrap p e q) = driver_error e"
  "driver_error (Sentinel t) = (t = ContextCanceled \<or> t = ContextDeadlineExceeded)"
  by (auto simp: driver_error_def)

lemma errors_is_unique: "errors_is e t \<Longrightarrow> errors_is e t' \<Longrightarrow> t = t'"
  by (induction e) auto

fun fault_ok :: "outcome \<Rightarrow> bool" where
  "fault_ok CallOk = True"
| "fault_ok (CallFails e) = driver_error e"
| "fault_ok (CallLost e) = driver_error e"

text \<open>
  \<open>rely R m\<close>: whatever the other processes do during the run stays within \<open>R\<close>, and the faults are
  errors of drivers.
  \<open>triple R P p Q\<close>: started in a world satisfying \<open>P\<close>, with interference within \<open>R\<close> and any
  faults, \<open>p\<close> ends with a result and a world satisfying \<open>Q\<close>.
\<close>

definition rely :: "(world \<Rightarrow> world \<Rightarrow> bool) \<Rightarrow> machine \<Rightarrow> bool" where
  "rely R m = (\<forall>c \<in> set (m_script m). fault_ok (xc_outcome c) \<and> (\<forall>w. R w (xc_interference c w)))"

definition stable :: "(world \<Rightarrow> world \<Rightarrow> bool) \<Rightarrow> (world \<Rightarrow> bool) \<Rightarrow> bool" where
  "stable R P = (\<forall>w w'. P w \<longrightarrow> R w w' \<longrightarrow> P w')"

definition triple ::
  "(world \<Rightarrow> world \<Rightarrow> bool) \<Rightarrow> (world \<Rightarrow> bool) \<Rightarrow> 'a prog \<Rightarrow> ('a \<Rightarrow> world \<Rightarrow> bool) \<Rightarrow> bool" where
  "triple R P p Q =
     (\<forall>m. rely R m \<longrightarrow> P (m_world m) \<longrightarrow>
        (case run_state p m of (r, m') \<Rightarrow> Q r (m_world m') \<and> set (m_script m') \<subseteq> set (m_script m)))"

lemma tripleI:
  assumes "\<And>m. rely R m \<Longrightarrow> P (m_world m) \<Longrightarrow>
    Q (fst (run_state p m)) (m_world (snd (run_state p m))) \<and>
    set (m_script (snd (run_state p m))) \<subseteq> set (m_script m)"
  shows "triple R P p Q"
  unfolding triple_def case_prod_beta by (intro allI impI) (rule assms)

lemma triple_run:
  assumes "triple R P p Q" and "rely R m" and "P (m_world m)"
  shows "Q (fst (run_state p m)) (m_world (snd (run_state p m))) \<and>
    set (m_script (snd (run_state p m))) \<subseteq> set (m_script m)"
  using assms(1) [unfolded triple_def case_prod_beta, rule_format, OF assms(2,3)] .

lemma tripleD:
  assumes "triple R P p Q" and "rely R m" and "P (m_world m)" and "run_state p m = (r, m')"
  shows "Q r (m_world m')"
  using triple_run [OF assms(1-3)] assms(4) by simp

lemma rely_rest: "rely R m \<Longrightarrow> set (m_script m') \<subseteq> set (m_script m) \<Longrightarrow> rely R m'"
  by (auto simp: rely_def)

text \<open>A stronger assumption about the environment keeps the contract.\<close>

lemma rely_mono: "(\<And>w w'. R' w w' \<Longrightarrow> R w w') \<Longrightarrow> rely R' m \<Longrightarrow> rely R m"
  by (auto simp: rely_def)

lemma triple_rely:
  assumes "triple R P p Q" and "\<And>w w'. R' w w' \<Longrightarrow> R w w'"
  shows "triple R' P p Q"
  using triple_run [OF assms(1) rely_mono [OF assms(2)]] by (intro tripleI) blast

lemma rely_quiet [simp]: "rely R (quiet w)"
  by (simp add: rely_def quiet_def)

lemma stable_const [simp]: "stable R (\<lambda>_. c)"
  by (simp add: stable_def)

lemma stable_conj: "stable R P \<Longrightarrow> stable R P' \<Longrightarrow> stable R (\<lambda>w. P w \<and> P' w)"
  by (auto simp: stable_def)

lemma triple_conseq:
  assumes "triple R P p Q" and "\<And>w. P' w \<Longrightarrow> P w" and "\<And>r w. Q r w \<Longrightarrow> Q' r w"
  shows "triple R P' p Q'"
  using triple_run [OF assms(1) _ assms(2)] assms(3) by (intro tripleI) blast

lemma triple_conj:
  assumes "triple R P p Q" and "triple R P p Q'"
  shows "triple R P p (\<lambda>r w. Q r w \<and> Q' r w)"
  using triple_run [OF assms(1)] triple_run [OF assms(2)] by (intro tripleI) blast

lemma triple_return:
  assumes "\<And>w. P w \<Longrightarrow> Q x w"
  shows "triple R P (State_Monad.return x) Q"
  by (rule tripleI) (simp add: assms)

lemma triple_bind:
  assumes "triple R P p M" and "\<And>x. triple R (M x) (g x) Q"
  shows "triple R P (State_Monad.bind p g) Q"
proof (rule tripleI)
  fix m assume m: "rely R m" "P (m_world m)"
  note mid = triple_run [OF assms(1) m]
  note rest = triple_run [OF assms(2) rely_rest [OF m(1) mid [THEN conjunct2]] mid [THEN conjunct1]]
  show "Q (fst (run_state (State_Monad.bind p g) m))
          (m_world (snd (run_state (State_Monad.bind p g) m))) \<and>
        set (m_script (snd (run_state (State_Monad.bind p g) m))) \<subseteq> set (m_script m)"
    using rest subset_trans [OF rest [THEN conjunct2] mid [THEN conjunct2]]
    by (simp add: case_prod_beta)
qed

lemma triple_now:
  assumes "\<And>w. P w \<Longrightarrow> Q (w_clock w) w"
  shows "triple R P now Q"
  by (rule tripleI) (simp add: assms)

lemma triple_fact: "(C \<Longrightarrow> triple R P p Q) \<Longrightarrow> triple R (\<lambda>w. P w \<and> C) p Q"
  by (auto simp: triple_def)

text \<open>
  The interface between a component and its environment: an evolution relation, the way the shared
  state may change over time. Clock ticks and compositions of changes are changes. A client that
  only performs changes within the relation keeps it however it is interleaved.
\<close>

locale evolution =
  fixes R :: "world \<Rightarrow> world \<Rightarrow> bool"
  assumes R_refl: "R w w"
    and R_trans: "R a b \<Longrightarrow> R b c \<Longrightarrow> R a c"
    and R_tick: "R w (tick d w)"
begin

lemma stable_history [simp]: "stable R (R w0)"
  unfolding stable_def using R_trans by blast

lemma triple_ext:
  assumes P: "stable R P"
    and ok: "\<And>w. P w \<Longrightarrow> Q (fst (f w)) (snd (f w))"
    and fails: "\<And>w e. P w \<Longrightarrow> driver_error e \<Longrightarrow> Q (Inl e) w"
    and lost: "\<And>w e. P w \<Longrightarrow> driver_error e \<Longrightarrow> Q (Inl e) (snd (f w))"
  shows "triple R P (ext f) Q"
proof (rule tripleI)
  fix m assume rel: "rely R m" and pre: "P (m_world m)"
  show "Q (fst (run_state (ext f) m)) (m_world (snd (run_state (ext f) m))) \<and>
        set (m_script (snd (run_state (ext f) m))) \<subseteq> set (m_script m)"
  proof (cases "m_script m")
    case Nil
    with ok[OF pre] show ?thesis by simp
  next
    case (Cons c cs)
    let ?w = "tick (xc_delay c) (xc_interference c (m_world m))"
    have "R (m_world m) (xc_interference c (m_world m))"
      using rel Cons by (simp add: rely_def)
    then have "R (m_world m) ?w" using R_tick R_trans by blast
    with P pre have w: "P ?w" unfolding stable_def by blast
    have "fault_ok (xc_outcome c)" using rel Cons by (simp add: rely_def)
    then show ?thesis
      using Cons ok[OF w] fails[OF w] lost[OF w]
      by (auto simp: ext_def Let_def case_prod_beta split: outcome.splits)
  qed
qed

text \<open>A call whose effect stays within the relation keeps what the relation cannot invalidate.\<close>

lemma triple_keep:
  assumes "stable R P" and "\<And>w. P w \<Longrightarrow> R w (snd (f w))"
  shows "triple R P (ext f) (\<lambda>_. P)"
  by (rule triple_ext [OF assms(1)]) (use assms in \<open>auto simp: stable_def\<close>)

lemma keeps_ext:
  assumes "\<And>w. R w (snd (f w))"
  shows "triple R (R w0) (ext f) (\<lambda>_. R w0)"
  by (rule triple_keep) (auto intro: assms)

end

end
