(* ===== verification/Job_Repo.thy ===== *)
theory Job_Repo
  imports App_State
begin

text \<open>
  The query_jobs repository (internal/queryjob/repository.go). Every status change is a
  compare-and-set \<open>UPDATE ... WHERE id = ? AND status = ?\<close>; a statement that affects no row is
  \<open>ErrStatusConflict\<close>. The lemmas show what a successful call did to the row, that a call with a
  legal pair of statuses stays within the evolution relation of the job table, and that nothing
  ever changes a job in a terminal state.
\<close>

section \<open>Operations\<close>

definition insert_job :: "query_job \<Rightarrow> world \<Rightarrow> query_job \<times> world" where
  "insert_job j w =
     (let j' = j\<lparr>jb_id := w_next_job_id w\<rparr> in
      (j', w\<lparr>w_jobs := w_jobs w @ [j'], w_next_job_id := Suc (w_next_job_id w)\<rparr>))"

definition job_create :: "query_job \<Rightarrow> (go_error + query_job) prog" where
  "job_create job = do {
     r \<leftarrow> ext (\<lambda>w. case insert_job job w of (j, w') \<Rightarrow> (Inr j, w'));
     State_Monad.return (case r of Inl e \<Rightarrow> Inl (Wrap ''queryjob: create: '' e '''') | Inr j \<Rightarrow> Inr j)
   }"

definition job_find_by_id :: "nat \<Rightarrow> (go_error + query_job) prog" where
  "job_find_by_id k = do {
     r \<leftarrow> ext (\<lambda>w. (case job_at w k of
             None \<Rightarrow> Inl (Sentinel GormErrRecordNotFound) | Some j \<Rightarrow> Inr j, w));
     State_Monad.return (case r of
         Inl e \<Rightarrow> (if errors_is e GormErrRecordNotFound then Inl (Sentinel ErrJobNotFound)
                  else Inl (Wrap ''queryjob: find: '' e ''''))
       | Inr j \<Rightarrow> Inr j)
   }"

text \<open>The statement behind all status changes, and the common reading of its result.\<close>

definition cas_job :: "nat \<Rightarrow> status \<Rightarrow> (query_job \<Rightarrow> query_job) \<Rightarrow> world \<Rightarrow> (go_error + nat) \<times> world" where
  "cas_job k from f w =
     (Inr (sql_affected (\<lambda>j. jb_id j = k \<and> jb_status j = from) f (w_jobs w)),
      w\<lparr>w_jobs := sql_update (\<lambda>j. jb_id j = k \<and> jb_status j = from) f (w_jobs w)\<rparr>)"

definition cas_result :: "string \<Rightarrow> string \<Rightarrow> go_error + nat \<Rightarrow> go_error option" where
  "cas_result err_prefix conflict_prefix r = (case r of
       Inl e \<Rightarrow> Some (Wrap err_prefix e '''')
     | Inr n \<Rightarrow> (if n = 0 then Some (Wrap conflict_prefix (Sentinel ErrStatusConflict) '''') else None))"

definition arrow :: string where
  "arrow = [CHR 0xE2, CHR 0x86, CHR 0x92]"

definition transition_status :: "nat \<Rightarrow> status \<Rightarrow> status \<Rightarrow> go_error option prog" where
  "transition_status k from to = do {
     t \<leftarrow> now;
     r \<leftarrow> ext (cas_job k from (\<lambda>j. j\<lparr>jb_status := to, jb_updated_at := t\<rparr>));
     let p = ''queryjob: transition '' @ status_text from @ arrow @ status_text to;
     State_Monad.return (cas_result (p @ '': '') (p @ '' id='' @ format_uint k @ '': '') r)
   }"

definition set_retrying :: "nat \<Rightarrow> status \<Rightarrow> nat \<Rightarrow> instant \<Rightarrow> go_error option prog" where
  "set_retrying k from attempt_count next_retry_at = do {
     t \<leftarrow> now;
     r \<leftarrow> ext (cas_job k from (\<lambda>j. j\<lparr>
            jb_status := StatusRetrying,
            jb_attempt_count := attempt_count,
            jb_next_retry_at := Some next_retry_at,
            jb_updated_at := t\<rparr>));
     let p = ''queryjob: set retrying id='' @ format_uint k @ '': '';
     State_Monad.return (cas_result p p r)
   }"

definition set_succeeded ::
  "nat \<Rightarrow> status \<Rightarrow> string \<Rightarrow> int \<Rightarrow> int \<Rightarrow> instant \<Rightarrow> instant option \<Rightarrow> go_error option prog" where
  "set_succeeded k from generated_sql row_count duration_ms finished_at result_expires_at = do {
     r \<leftarrow> ext (cas_job k from (\<lambda>j. j\<lparr>
            jb_status := StatusSucceeded,
            jb_generated_sql := Some generated_sql,
            jb_row_count := Some row_count,
            jb_execution_duration_ms := Some duration_ms,
            jb_finished_at := Some finished_at,
            jb_updated_at := finished_at,
            jb_result_expires_at := (case result_expires_at of
                None \<Rightarrow> jb_result_expires_at j | Some e \<Rightarrow> Some e)\<rparr>));
     let p = ''queryjob: set succeeded id='' @ format_uint k @ '': '';
     State_Monad.return (cas_result p p r)
   }"

definition set_failed :: "nat \<Rightarrow> status \<Rightarrow> string \<Rightarrow> string \<Rightarrow> instant \<Rightarrow> go_error option prog" where
  "set_failed k from error_code error_message finished_at = do {
     r \<leftarrow> ext (cas_job k from (\<lambda>j. j\<lparr>
            jb_status := StatusFailed,
            jb_error_code := Some error_code,
            jb_error_message := Some error_message,
            jb_finished_at := Some finished_at,
            jb_updated_at := finished_at\<rparr>));
     let p = ''queryjob: set failed id='' @ format_uint k @ '': '';
     State_Monad.return (cas_result p p r)
   }"

text \<open>
  \<open>CreateAndEnqueue\<close>: one transaction of three statements. Any error rolls all of them back, so
  the failing branches return the world they were given.
\<close>

definition marshalOutboxPayload :: "nat \<Rightarrow> string" where
  "marshalOutboxPayload job_id = ''{'' @ [CHR 0x22] @ ''job_id'' @ [CHR 0x22] @ '':'' @ format_uint job_id @ ''}''"

definition create_and_enqueue_tx ::
  "instant \<Rightarrow> query_job \<Rightarrow> outbox_event \<Rightarrow> world \<Rightarrow> (go_error + query_job) \<times> world" where
  "create_and_enqueue_tx t job event w =
     (let (j, w1) = insert_job job w;
          to_queued = (\<lambda>r. r\<lparr>jb_status := StatusQueued, jb_updated_at := t\<rparr>);
          (n, w2) = cas_job (jb_id j) StatusPending to_queued w1
      in if n = Inr 0
         then (Inl (Wrap (''queryjob: transition pending'' @ arrow @ ''queued id='' @ format_uint (jb_id j) @ '': '')
                 (Sentinel ErrStatusConflict) ''''), w)
         else let event' = event\<lparr>ob_id := w_next_outbox_id w, ob_job_id := jb_id j,
                    ob_payload := marshalOutboxPayload (jb_id j)\<rparr>
              in if list_ex (\<lambda>e. ob_message_id e = ob_message_id event'
                      \<or> (ob_event_type e = ob_event_type event' \<and> ob_job_id e = ob_job_id event'))
                    (w_outbox w2)
                 then (Inl (Wrap ''queryjob: create outbox event: '' (NewError ''Error 1062'') ''''), w)
                 else (Inr (j\<lparr>jb_status := StatusQueued\<rparr>),
                       w2\<lparr>w_outbox := w_outbox w2 @ [event'],
                          w_next_outbox_id := Suc (w_next_outbox_id w)\<rparr>))"

definition create_and_enqueue :: "query_job \<Rightarrow> outbox_event \<Rightarrow> (go_error + query_job) prog" where
  "create_and_enqueue job event = do {
     t \<leftarrow> now;
     ext (create_and_enqueue_tx t job event)
   }"

section \<open>Evolution of the job table\<close>

text \<open>
  Rows keep their identity and submission data, move along legal transitions only, and are frozen
  once terminal; ids stay unique and below the auto-increment counter; time does not go back.
\<close>

definition jobs_wf :: "world \<Rightarrow> bool" where
  "jobs_wf w = (distinct (map jb_id (w_jobs w)) \<and> (\<forall>j \<in> set (w_jobs w). jb_id j < w_next_job_id w))"

definition job_row_evolves :: "query_job \<Rightarrow> query_job \<Rightarrow> bool" where
  "job_row_evolves j j' =
     (jb_id j' = jb_id j \<and> jb_question j' = jb_question j \<and> jb_user_id j' = jb_user_id j \<and>
      jb_data_source_id j' = jb_data_source_id j \<and> jb_created_at j' = jb_created_at j \<and>
      status_reaches (jb_status j) (jb_status j') \<and>
      (is_terminal (jb_status j) \<longrightarrow> j' = j))"

definition job_evolves :: "world \<Rightarrow> world \<Rightarrow> bool" where
  "job_evolves w w' =
     ((\<forall>k j. job_at w k = Some j \<longrightarrow> (\<exists>j'. job_at w' k = Some j' \<and> job_row_evolves j j')) \<and>
      (jobs_wf w \<longrightarrow> jobs_wf w') \<and> w_clock w \<le> w_clock w')"

lemma job_row_evolves_refl [simp]: "job_row_evolves j j"
  by (simp add: job_row_evolves_def)

lemma job_row_evolves_trans:
  "job_row_evolves a b \<Longrightarrow> job_row_evolves b c \<Longrightarrow> job_row_evolves a c"
  by (auto simp: job_row_evolves_def intro: status_reaches_trans)

lemma job_evolves_same_jobs:
  "w_jobs w' = w_jobs w \<Longrightarrow> w_next_job_id w' = w_next_job_id w \<Longrightarrow> w_clock w \<le> w_clock w' \<Longrightarrow>
     job_evolves w w'"
  by (auto simp: job_evolves_def jobs_wf_def)

interpretation job_evol: evolution job_evolves
proof
  show "job_evolves w w" for w by (simp add: job_evolves_same_jobs)
  show "job_evolves a c" if "job_evolves a b" and "job_evolves b c" for a b c
    using that unfolding job_evolves_def by (meson job_row_evolves_trans order_trans)
  show "job_evolves w (tick d w)" for w d
    by (rule job_evolves_same_jobs) (simp_all add: tick_def)
qed

lemma job_evolvesD:
  assumes "job_evolves w w'" and "job_at w k = Some j"
  obtains j' where "job_at w' k = Some j'" and "job_row_evolves j j'"
  using assms by (auto simp: job_evolves_def)

lemma job_evolves_wf: "job_evolves w w' \<Longrightarrow> jobs_wf w \<Longrightarrow> jobs_wf w'"
  by (simp add: job_evolves_def)

lemma job_row_evolves_terminal:
  "job_row_evolves j j' \<Longrightarrow> is_terminal (jb_status j) \<Longrightarrow> j' = j"
  by (simp add: job_row_evolves_def)

section \<open>Each operation evolves the table\<close>

text \<open>A row function is legal from a status when it makes a legal step of the row.\<close>

definition legal_row_step :: "status \<Rightarrow> (query_job \<Rightarrow> query_job) \<Rightarrow> bool" where
  "legal_row_step from f =
     (\<forall>j. jb_id (f j) = jb_id j \<and> (jb_status j = from \<longrightarrow> job_row_evolves j (f j)))"

lemma legal_row_stepI:
  assumes "can_transition from to"
    and "\<And>j. jb_id (f j) = jb_id j" and "\<And>j. jb_question (f j) = jb_question j"
    and "\<And>j. jb_user_id (f j) = jb_user_id j" and "\<And>j. jb_data_source_id (f j) = jb_data_source_id j"
    and "\<And>j. jb_created_at (f j) = jb_created_at j" and "\<And>j. jb_status (f j) = to"
  shows "legal_row_step from f"
  using assms terminal_no_successor [of "from" "to"]
  by (auto simp: legal_row_step_def job_row_evolves_def intro: status_reaches_step)

text \<open>The four status writes are guarded updates of one row.\<close>

interpretation transition_cas: guarded_update jb_id k "\<lambda>j. jb_status j = s"
    "\<lambda>j. j\<lparr>jb_status := s', jb_updated_at := t\<rparr>" for k s s' t
  by unfold_locales simp

interpretation retrying_cas: guarded_update jb_id k "\<lambda>j. jb_status j = s"
    "\<lambda>j. j\<lparr>jb_status := StatusRetrying, jb_attempt_count := a, jb_next_retry_at := Some n,
        jb_updated_at := t\<rparr>" for k s a n t
  by unfold_locales simp

lemma guarded_row_step: "legal_row_step from f \<Longrightarrow> guarded_update jb_id f"
  by unfold_locales (simp add: legal_row_step_def)

lemma jobs_wf_update:
  assumes "\<And>j. jb_id (f j) = jb_id j"
  shows "jobs_wf (w\<lparr>w_jobs := sql_update P f (w_jobs w)\<rparr>) = jobs_wf w"
proof -
  have "map jb_id (sql_update P f (w_jobs w)) = map jb_id (w_jobs w)"
    by (rule keys_update) (rule assms)
  moreover from this have "jb_id ` set (sql_update P f (w_jobs w)) = jb_id ` set (w_jobs w)"
    by (metis set_map)
  then have "(\<forall>i \<in> jb_id ` set (sql_update P f (w_jobs w)). i < w_next_job_id w) =
      (\<forall>i \<in> jb_id ` set (w_jobs w). i < w_next_job_id w)"
    by (simp only:)
  then have "(\<forall>j \<in> set (sql_update P f (w_jobs w)). jb_id j < w_next_job_id w) =
      (\<forall>j \<in> set (w_jobs w). jb_id j < w_next_job_id w)"
    by (simp only: ball_simps)
  ultimately show ?thesis by (simp add: jobs_wf_def)
qed

lemma cas_job_evolves:
  assumes "legal_row_step from f"
  shows "job_evolves w (snd (cas_job k from f w))"
proof -
  have id: "\<And>j. jb_id (f j) = jb_id j"
    and row: "\<And>j. jb_status j = from \<Longrightarrow> job_row_evolves j (f j)"
    using assms by (auto simp: legal_row_step_def)
  show ?thesis
    unfolding job_evolves_def cas_job_def
    by (auto simp: lookup_update [where key = jb_id and f = f, OF id] jobs_wf_update [where f = f, OF id] row)
qed

text \<open>
  A successful compare-and-set found the row in the expected status and left it as \<open>f\<close> of what
  it was; a conflict changed nothing.
\<close>

lemma cas_job_hit:
  assumes wf: "jobs_wf w" and f: "legal_row_step from f" and n: "fst (cas_job k from f w) = Inr n" "n \<noteq> 0"
  shows "\<exists>j. job_at w k = Some j \<and> jb_status j = from \<and> job_at (snd (cas_job k from f w)) k = Some (f j)"
  using guarded_update.hit [OF guarded_row_step [OF f], of "w_jobs w" k "\<lambda>j. jb_status j = from"] wf n
  by (auto simp: cas_job_def jobs_wf_def)

lemma cas_job_conflict: "fst (cas_job k from f w) = Inr 0 \<Longrightarrow> snd (cas_job k from f w) = w"
  using update_not_affected [of "\<lambda>j. jb_id j = k \<and> jb_status j = from" f "w_jobs w"]
  by (simp add: cas_job_def)

lemma cas_job_miss:
  assumes "jobs_wf w" and "legal_row_step from f"
    and "\<And>j. job_at w k = Some j \<Longrightarrow> jb_status j \<noteq> from"
  shows "cas_job k from f w = (Inr 0, w)"
proof -
  have "fst (cas_job k from f w) = Inr 0"
    using guarded_update.miss [OF guarded_row_step [OF assms(2)], of "w_jobs w" k] assms(1,3)
    by (simp add: cas_job_def jobs_wf_def)
  then show ?thesis using cas_job_conflict by (metis prod.collapse)
qed

section \<open>Contracts of the operations\<close>

definition row_became :: "nat \<Rightarrow> status \<Rightarrow> (query_job \<Rightarrow> query_job) \<Rightarrow> world \<Rightarrow> bool" where
  "row_became k from f w = (\<exists>j. jb_status j = from \<and> job_at w k = Some (f j))"

definition job_satisfies :: "(query_job \<Rightarrow> bool) \<Rightarrow> world \<Rightarrow> nat \<Rightarrow> bool" where
  "job_satisfies Q w k = (\<exists>j. job_at w k = Some j \<and> Q j)"

lemma job_satisfiesI [intro]: "job_at w k = Some j \<Longrightarrow> Q j \<Longrightarrow> job_satisfies Q w k"
  by (auto simp: job_satisfies_def)

lemma job_satisfies_mono: "job_satisfies P w k \<Longrightarrow> (\<And>j. P j \<Longrightarrow> Q j) \<Longrightarrow> job_satisfies Q w k"
  by (auto simp: job_satisfies_def)

lemma row_became_satisfies: "row_became k from f w \<Longrightarrow> (\<And>j. Q (f j)) \<Longrightarrow> job_satisfies Q w k"
  by (auto simp: row_became_def job_satisfies_def)

lemma cas_result_None: "cas_result p q r = None \<Longrightarrow> \<exists>n. r = Inr n \<and> n \<noteq> 0"
  by (auto simp: cas_result_def split: sum.splits if_splits)

text \<open>An error of a repository call is a driver's or a status conflict.\<close>

definition repo_error :: "go_error option \<Rightarrow> bool" where
  "repo_error r = (\<forall>e. r = Some e \<longrightarrow> driver_error e \<or> errors_is e ErrStatusConflict)"

lemma cas_result_error: "\<forall>e. r = Inl e \<longrightarrow> driver_error e \<Longrightarrow> repo_error (cas_result p q r)"
  by (auto simp: cas_result_def repo_error_def split: sum.splits)

text \<open>
  The interface of the repository to its clients: whatever evolution relation \<open>R\<close> the client keeps,
  as long as it implies the one of the job table and admits the legal status writes, the contracts
  below hold under interference within \<open>R\<close> and any faults. \<open>P\<close> is what the client knows: a predicate
  that \<open>R\<close> cannot invalidate and that gives a well-formed job table. A \<open>nil\<close> result means the row was
  in the expected status and now is \<open>f\<close> of it.
\<close>

locale job_client = evolution +
  assumes R_jobs: "R w w' \<Longrightarrow> job_evolves w w'"
    and R_cas: "legal_row_step s f \<Longrightarrow> R w (snd (cas_job k s f w))"
begin

definition knows :: "(world \<Rightarrow> bool) \<Rightarrow> bool" where
  "knows P = (stable R P \<and> (\<forall>w. P w \<longrightarrow> jobs_wf w))"

lemma knows_step: "knows P \<Longrightarrow> P w \<Longrightarrow> R w w' \<Longrightarrow> P w'"
  unfolding knows_def stable_def by blast

lemma knows_wf: "knows P \<Longrightarrow> P w \<Longrightarrow> jobs_wf w"
  unfolding knows_def by blast

lemma knows_stable: "knows P \<Longrightarrow> stable R P"
  unfolding knows_def by blast

lemma knows_conj: "knows P \<Longrightarrow> stable R S \<Longrightarrow> knows (\<lambda>w. P w \<and> S w)"
  unfolding knows_def using stable_conj by blast

lemma knows_history: "knows (\<lambda>w. R w0 w \<and> jobs_wf w0)"
  unfolding knows_def stable_def using R_trans R_jobs job_evolves_wf by blast

lemma triple_cas:
  assumes P: "knows P" and f: "legal_row_step s f"
  shows "triple R P (ext (cas_job k s f))
           (\<lambda>r w. P w \<and> (\<forall>n. r = Inr n \<longrightarrow> n \<noteq> 0 \<longrightarrow> row_became k s f w) \<and> (\<forall>e. r = Inl e \<longrightarrow> driver_error e))"
proof (rule triple_ext)
  show "stable R P" using P by (rule knows_stable)
next
  fix w assume w: "P w"
  note step = knows_step [OF P w R_cas [OF f]]
  show "P (snd (cas_job k s f w)) \<and>
      (\<forall>n. fst (cas_job k s f w) = Inr n \<longrightarrow> n \<noteq> 0 \<longrightarrow> row_became k s f (snd (cas_job k s f w))) \<and>
      (\<forall>e. fst (cas_job k s f w) = Inl e \<longrightarrow> driver_error e)"
    using cas_job_hit [OF knows_wf [OF P w] f] step unfolding row_became_def
    by (auto simp: cas_job_def)
  fix e assume e: "driver_error e"
  show "P w \<and> (\<forall>n. Inl e = Inr n \<longrightarrow> n \<noteq> 0 \<longrightarrow> row_became k s f w) \<and>
      (\<forall>e'. Inl e = Inl e' \<longrightarrow> driver_error e')"
    using w e by simp
  show "P (snd (cas_job k s f w)) \<and>
      (\<forall>n. Inl e = Inr n \<longrightarrow> n \<noteq> 0 \<longrightarrow> row_became k s f (snd (cas_job k s f w))) \<and>
      (\<forall>e'. Inl e = Inl e' \<longrightarrow> driver_error e')"
    using step e by simp
qed

lemma triple_cas_op:
  assumes "knows P" and "legal_row_step s f"
  shows "triple R P
           (State_Monad.bind (ext (cas_job k s f)) (\<lambda>r. State_Monad.return (cas_result p q r)))
           (\<lambda>r w. P w \<and> (r = None \<longrightarrow> row_became k s f w) \<and> repo_error r)"
  by (rule triple_bind [OF triple_cas [OF assms]], rule triple_return)
     (auto dest: cas_result_None intro: cas_result_error)

text \<open>The four status writes: what a \<open>nil\<close> result guarantees about the row.\<close>

lemma triple_transition:
  assumes "knows P" and "can_transition s s'"
  shows "triple R P (transition_status k s s')
    (\<lambda>r w. P w \<and> (r = None \<longrightarrow> job_satisfies (\<lambda>j. jb_status j = s') w k) \<and> repo_error r)"
  unfolding transition_status_def Let_def
  by (rule triple_bind [OF triple_now [where Q = "\<lambda>_. P"]], assumption,
      rule triple_conseq [OF triple_cas_op [OF assms(1) legal_row_stepI [OF assms(2)]]])
     (auto elim: row_became_satisfies)

lemma triple_set_retrying:
  assumes "knows P" and "can_transition s StatusRetrying"
  shows "triple R P (set_retrying k s a n)
    (\<lambda>r w. P w \<and> (r = None \<longrightarrow> job_satisfies
       (\<lambda>j. jb_status j = StatusRetrying \<and> jb_attempt_count j = a \<and> jb_next_retry_at j = Some n) w k) \<and> repo_error r)"
  unfolding set_retrying_def Let_def
  by (rule triple_bind [OF triple_now [where Q = "\<lambda>_. P"]], assumption,
      rule triple_conseq [OF triple_cas_op [OF assms(1) legal_row_stepI [OF assms(2)]]])
     (auto elim: row_became_satisfies)

lemma triple_set_succeeded:
  assumes "knows P"
  shows "triple R P (set_succeeded k StatusExecuting q n d t e)
    (\<lambda>r w. P w \<and> (r = None \<longrightarrow> job_satisfies
       (\<lambda>j. jb_status j = StatusSucceeded \<and> jb_generated_sql j = Some q \<and> jb_row_count j = Some n) w k) \<and> repo_error r)"
  unfolding set_succeeded_def Let_def
  by (rule triple_conseq [OF triple_cas_op [OF assms legal_row_stepI [where to = StatusSucceeded]]])
     (auto elim: row_became_satisfies)

lemma triple_set_failed:
  assumes "knows P" and "can_transition s StatusFailed"
  shows "triple R P (set_failed k s c msg t)
    (\<lambda>r w. P w \<and> (r = None \<longrightarrow> job_satisfies
       (\<lambda>j. jb_status j = StatusFailed \<and> jb_error_code j = Some c) w k) \<and> repo_error r)"
  unfolding set_failed_def Let_def
  by (rule triple_conseq [OF triple_cas_op [OF assms(1) legal_row_stepI [OF assms(2)]]])
     (auto elim: row_became_satisfies)

lemma triple_find:
  assumes "knows P"
  shows "triple R P (job_find_by_id k) (\<lambda>r w. P w \<and> (\<forall>j. r = Inr j \<longrightarrow> job_at w k = Some j) \<and>
    (\<forall>e. r = Inl e \<longrightarrow> driver_error e \<or> e = Sentinel ErrJobNotFound \<and> job_at w k = None))"
  unfolding job_find_by_id_def
  by (rule triple_bind [OF triple_ext
          [where Q = "\<lambda>r w. P w \<and> (\<forall>j. r = Inr j \<longrightarrow> job_at w k = Some j) \<and>
            (\<forall>e. r = Inl e \<longrightarrow> driver_error e \<or> e = Sentinel GormErrRecordNotFound \<and> job_at w k = None)"]])
     (use assms in \<open>auto intro!: triple_return simp: knows_def driver_error_def
        split: option.splits sum.splits if_splits\<close>)

end

interpretation job_evol: job_client job_evolves
  by unfold_locales (auto intro: cas_job_evolves)

section \<open>Submission\<close>

lemma create_and_enqueue_error_rolls_back:
  "fst (create_and_enqueue_tx t job event w) = Inl e \<Longrightarrow> snd (create_and_enqueue_tx t job event w) = w"
  by (auto simp: create_and_enqueue_tx_def Let_def split: prod.splits if_splits)

lemma jobs_wf_fresh: "jobs_wf w \<Longrightarrow> job_at w (w_next_job_id w) = None"
  by (auto simp: jobs_wf_def lookup_None_iff)

lemma insert_job_evolves: "job_evolves w (snd (insert_job job w))"
  by (auto simp: job_evolves_def insert_job_def Let_def jobs_wf_def less_Suc_eq split: option.splits)

text \<open>
  On a well-formed table a pending job is always found again by the transaction's own update, so
  the transaction only fails on a duplicate outbox event.
\<close>

lemma pending_to_queued_hit:
  assumes "jobs_wf w" and "jb_status job = StatusPending" and "insert_job job w = (j, w1)"
  shows "jb_id j = w_next_job_id w" and "jb_status j = StatusPending"
    and "fst (cas_job (jb_id j) StatusPending (\<lambda>r. r\<lparr>jb_status := StatusQueued, jb_updated_at := t\<rparr>) w1) \<noteq> Inr 0"
proof -
  show "jb_id j = w_next_job_id w" and "jb_status j = StatusPending"
    using assms(2,3) by (auto simp: insert_job_def Let_def)
  then show "fst (cas_job (jb_id j) StatusPending (\<lambda>r. r\<lparr>jb_status := StatusQueued, jb_updated_at := t\<rparr>) w1) \<noteq> Inr 0"
    using assms(3) by (auto simp: insert_job_def Let_def cas_job_def sql_affected_def filter_empty_conv
        dest!: arg_cong [of _ _ jb_status])
qed

end
