(* ===== verification/Outbox.thy ===== *)
theory Outbox
  imports Job_Repo
begin

text \<open>
  The transactional outbox (internal/queryjob/outbox.go): constructing events, claiming a batch
  under a lease, marking events published, releasing them for a retry, deleting old ones. The
  lemmas show the coupling of status, lease and publication time, that an event's identity never
  changes, that a stale lease token changes nothing, and that no event is deleted unpublished.
\<close>

section \<open>Operations\<close>

definition newOutboxEvent :: "nat \<Rightarrow> string \<Rightarrow> instant \<Rightarrow> outbox_event" where
  "newOutboxEvent job_id message_id t = \<lparr>
     ob_id = 0,
     ob_message_id = message_id,
     ob_event_type = MessageTypeQueryExecutionRequested,
     ob_version = messageVersion,
     ob_job_id = job_id,
     ob_payload = marshalOutboxPayload job_id,
     ob_status = OutboxPending,
     ob_attempt_count = 0,
     ob_next_retry_at = t,
     ob_lease_token = None,
     ob_lease_expires_at = None,
     ob_last_error = None,
     ob_created_at = t,
     ob_published_at = None,
     ob_occurred_at = t\<rparr>"

text \<open>SQL comparison with a NULL column is not true.\<close>

fun null_le :: "instant option \<Rightarrow> instant \<Rightarrow> bool" where
  "null_le None t = False"
| "null_le (Some u) t = (u \<le> t)"

fun null_less :: "instant option \<Rightarrow> instant \<Rightarrow> bool" where
  "null_less None t = False"
| "null_less (Some u) t = (u < t)"

definition claimable :: "instant \<Rightarrow> outbox_event \<Rightarrow> bool" where
  "claimable t e =
     ((ob_status e = OutboxPending \<and> ob_next_retry_at e \<le> t) \<or>
      (ob_status e = OutboxPublishing \<and> null_le (ob_lease_expires_at e) t))"

definition lease_event :: "string \<Rightarrow> instant \<Rightarrow> outbox_event \<Rightarrow> outbox_event" where
  "lease_event token expires e =
     e\<lparr>ob_status := OutboxPublishing, ob_lease_token := Some token, ob_lease_expires_at := Some expires\<rparr>"

text \<open>
  \<open>ClaimBatch\<close>. The SELECT has no ORDER BY and skips rows other transactions have locked:
  \<open>pick\<close> lists the ids of the rows it sees, in the order it sees them.
\<close>

definition claim_select :: "nat list \<Rightarrow> nat \<Rightarrow> instant \<Rightarrow> world \<Rightarrow> outbox_event list" where
  "claim_select pick batch_size t w =
     take batch_size (filter (claimable t) (List.map_filter (event_at w) (remdups pick)))"

definition claim_batch_tx ::
  "nat list \<Rightarrow> string \<Rightarrow> nat \<Rightarrow> duration \<Rightarrow> instant \<Rightarrow> world \<Rightarrow>
     (go_error + outbox_event list) \<times> world" where
  "claim_batch_tx pick token batch_size lease_ttl t w =
     (let events = claim_select pick batch_size t w in
      if events = [] then (Inr [], w)
      else let ids = map ob_id events; expires = t + lease_ttl in
        (Inr (map (lease_event token expires) events),
         w\<lparr>w_outbox := sql_update
             (\<lambda>e. ob_id e \<in> set ids \<and>
                (ob_status e = OutboxPending \<or>
                 (ob_status e = OutboxPublishing \<and> null_le (ob_lease_expires_at e) t)))
             (lease_event token expires) (w_outbox w)\<rparr>))"

definition claim_batch ::
  "nat list \<Rightarrow> string \<Rightarrow> nat \<Rightarrow> duration \<Rightarrow> instant \<Rightarrow> (go_error + outbox_event list) prog" where
  "claim_batch pick token batch_size lease_ttl t = do {
     r \<leftarrow> ext (claim_batch_tx pick token batch_size lease_ttl t);
     State_Monad.return (case r of
         Inl e \<Rightarrow> Inl (Wrap ''queryjob: outbox claim batch: '' e '''') | Inr es \<Rightarrow> Inr es)
   }"

definition holds_lease :: "string \<Rightarrow> outbox_event \<Rightarrow> bool" where
  "holds_lease token e = (ob_lease_token e = Some token)"

definition publish_event :: "instant \<Rightarrow> outbox_event \<Rightarrow> outbox_event" where
  "publish_event t e = e\<lparr>ob_status := OutboxPublished, ob_published_at := Some t,
      ob_lease_token := None, ob_lease_expires_at := None\<rparr>"

definition mark_published_stmt :: "nat \<Rightarrow> string \<Rightarrow> instant \<Rightarrow> world \<Rightarrow> (go_error + nat) \<times> world" where
  "mark_published_stmt k token t w =
     (let P = (\<lambda>e. ob_id e = k \<and> (holds_lease token e \<and> ob_status e = OutboxPublishing)) in
      (Inr (sql_affected P (publish_event t) (w_outbox w)),
       w\<lparr>w_outbox := sql_update P (publish_event t) (w_outbox w)\<rparr>))"

definition mark_published :: "nat \<Rightarrow> string \<Rightarrow> instant \<Rightarrow> go_error option prog" where
  "mark_published k token t = do {
     r \<leftarrow> ext (mark_published_stmt k token t);
     let p = ''outbox: mark published id='' @ format_uint k @ '': '';
     State_Monad.return (case r of
         Inl e \<Rightarrow> Some (Wrap p e '''')
       | Inr n \<Rightarrow> (if n = 0 then Some (Wrap p (Sentinel ErrLeaseLost) '''') else None))
   }"

definition release_event :: "int \<Rightarrow> instant \<Rightarrow> string \<Rightarrow> outbox_event \<Rightarrow> outbox_event" where
  "release_event attempt_count next_retry_at last_error e =
     e\<lparr>ob_status := OutboxPending, ob_attempt_count := attempt_count,
       ob_next_retry_at := next_retry_at, ob_last_error := Some last_error,
       ob_lease_token := None, ob_lease_expires_at := None\<rparr>"

definition release_stmt ::
  "nat \<Rightarrow> string \<Rightarrow> int \<Rightarrow> instant \<Rightarrow> string \<Rightarrow> world \<Rightarrow> (go_error + nat) \<times> world" where
  "release_stmt k token attempt_count next_retry_at last_error w =
     (let P = (\<lambda>e. ob_id e = k \<and> holds_lease token e);
          f = release_event attempt_count next_retry_at last_error in
      (Inr (sql_affected P f (w_outbox w)), w\<lparr>w_outbox := sql_update P f (w_outbox w)\<rparr>))"

definition release_with_retry ::
  "nat \<Rightarrow> string \<Rightarrow> int \<Rightarrow> instant \<Rightarrow> string \<Rightarrow> go_error option prog" where
  "release_with_retry k token attempt_count next_retry_at last_error = do {
     r \<leftarrow> ext (release_stmt k token attempt_count next_retry_at last_error);
     State_Monad.return (case r of
         Inl e \<Rightarrow> Some (Wrap (''outbox: release retry id='' @ format_uint k @ '': '') e '''')
       | Inr n \<Rightarrow> None)
   }"

definition deletable :: "instant \<Rightarrow> outbox_event \<Rightarrow> bool" where
  "deletable before e = (ob_status e = OutboxPublished \<and> null_less (ob_published_at e) before)"

definition delete_old_stmt :: "instant \<Rightarrow> nat \<Rightarrow> world \<Rightarrow> (go_error + nat) \<times> world" where
  "delete_old_stmt before batch_size w =
     (case sql_delete_limit batch_size (deletable before) (w_outbox w) of
        (rows, n) \<Rightarrow> (Inr n, w\<lparr>w_outbox := rows\<rparr>))"

definition delete_old_published :: "instant \<Rightarrow> nat \<Rightarrow> (go_error + nat) prog" where
  "delete_old_published before batch_size = do {
     r \<leftarrow> ext (delete_old_stmt before batch_size);
     State_Monad.return (case r of
         Inl e \<Rightarrow> Inl (Wrap ''outbox: delete old published: '' e '''') | Inr n \<Rightarrow> Inr n)
   }"

section \<open>Leases\<close>

interpretation publish_lease: leased_rows ob_id ob_lease_token
    "\<lambda>token e. holds_lease token e \<and> ob_status e = OutboxPublishing" "publish_event t" for t
  by unfold_locales (auto simp: publish_event_def holds_lease_def)

interpretation release_lease: leased_rows ob_id ob_lease_token holds_lease "release_event a n err"
  for a n err
  by unfold_locales (auto simp: release_event_def holds_lease_def)

interpretation publish_once: one_shot_update ob_id k
    "\<lambda>e. holds_lease token e \<and> ob_status e = OutboxPublishing" "publish_event t" for k token t
  by unfold_locales (auto simp: publish_event_def holds_lease_def)

interpretation release_once: one_shot_update ob_id k "holds_lease token" "release_event a n err"
  for k token a n err
  by unfold_locales (auto simp: release_event_def holds_lease_def)

section \<open>Well-formed events and how they evolve\<close>

text \<open>
  A lease is present exactly while publishing, a publication time exactly once published, and the
  payload is the one of the event's job.
\<close>

definition event_wf :: "outbox_event \<Rightarrow> bool" where
  "event_wf e = (ob_payload e = marshalOutboxPayload (ob_job_id e) \<and>
     (case ob_status e of
        OutboxPending \<Rightarrow> ob_lease_token e = None \<and> ob_lease_expires_at e = None \<and> ob_published_at e = None
      | OutboxPublishing \<Rightarrow> ob_lease_token e \<noteq> None \<and> ob_lease_expires_at e \<noteq> None \<and> ob_published_at e = None
      | OutboxPublished \<Rightarrow> ob_lease_token e = None \<and> ob_lease_expires_at e = None \<and> ob_published_at e \<noteq> None))"

text \<open>What is fixed when the event is inserted; the message on the wire is built from it.\<close>

definition ob_identity ::
  "outbox_event \<Rightarrow> nat \<times> string \<times> string \<times> int \<times> nat \<times> string \<times> instant \<times> instant" where
  "ob_identity e = (ob_id e, ob_message_id e, ob_event_type e, ob_version e, ob_job_id e, ob_payload e,
     ob_created_at e, ob_occurred_at e)"

definition unique_keys :: "outbox_event list \<Rightarrow> bool" where
  "unique_keys es = (distinct (map ob_id es) \<and> distinct (map ob_message_id es) \<and>
     distinct (map (\<lambda>e. (ob_event_type e, ob_job_id e)) es))"

definition outbox_wf :: "world \<Rightarrow> bool" where
  "outbox_wf w = (unique_keys (w_outbox w) \<and>
     (\<forall>e \<in> set (w_outbox w). ob_id e < w_next_outbox_id w \<and> event_wf e))"

definition event_evolves :: "outbox_event \<Rightarrow> outbox_event \<Rightarrow> bool" where
  "event_evolves e e' = (ob_identity e' = ob_identity e \<and> (ob_status e = OutboxPublished \<longrightarrow> e' = e))"

text \<open>
  Rows keep their identity, published ones are frozen, ids are never reused, and time does not go
  back. A row may disappear (old published rows are deleted).
\<close>

definition outbox_evolves :: "world \<Rightarrow> world \<Rightarrow> bool" where
  "outbox_evolves w w' = (w_clock w \<le> w_clock w' \<and>
     (outbox_wf w \<longrightarrow> outbox_wf w' \<and> w_next_outbox_id w \<le> w_next_outbox_id w' \<and>
       (\<forall>k e'. event_at w' k = Some e' \<longrightarrow> k < w_next_outbox_id w \<longrightarrow>
          (\<exists>e. event_at w k = Some e \<and> event_evolves e e'))))"

lemma event_evolves_refl [simp]: "event_evolves e e"
  by (simp add: event_evolves_def)

lemma event_evolves_trans: "event_evolves a b \<Longrightarrow> event_evolves b c \<Longrightarrow> event_evolves a c"
  by (auto simp: event_evolves_def)

lemma outbox_evolves_same:
  "w_outbox w' = w_outbox w \<Longrightarrow> w_next_outbox_id w' = w_next_outbox_id w \<Longrightarrow> w_clock w \<le> w_clock w' \<Longrightarrow>
     outbox_evolves w w'"
  by (auto simp: outbox_evolves_def outbox_wf_def)

interpretation outbox_evol: evolution outbox_evolves
proof
  show "outbox_evolves w w" for w by (simp add: outbox_evolves_same)
  show "outbox_evolves a c" if "outbox_evolves a b" and "outbox_evolves b c" for a b c
    using that unfolding outbox_evolves_def
    by (meson event_evolves_trans order_trans order_less_le_trans)
  show "outbox_evolves w (tick d w)" for w d
    by (rule outbox_evolves_same) (simp_all add: tick_def)
qed

section \<open>Every statement evolves the table\<close>

lemma identity_keys:
  "ob_id e = fst (ob_identity e)" "ob_message_id e = fst (snd (ob_identity e))"
  "ob_event_type e = fst (snd (snd (ob_identity e)))"
  "ob_job_id e = fst (snd (snd (snd (snd (ob_identity e)))))"
  by (simp_all add: ob_identity_def)

lemma unique_keys_identity:
  assumes "map ob_identity es' = map ob_identity es"
  shows "unique_keys es' = unique_keys es"
proof -
  have "map (g \<circ> ob_identity) es' = map (g \<circ> ob_identity) es" for g :: "_ \<Rightarrow> 'x"
    using arg_cong [OF assms, of "map g"] by (simp only: map_map)
  from this [of fst] this [of "\<lambda>i. fst (snd i)"]
    this [of "\<lambda>i. (fst (snd (snd i)), fst (snd (snd (snd (snd i)))))"]
  have "map ob_id es' = map ob_id es" "map ob_message_id es' = map ob_message_id es"
    "map (\<lambda>e. (ob_event_type e, ob_job_id e)) es' = map (\<lambda>e. (ob_event_type e, ob_job_id e)) es"
    by (simp_all add: o_def ob_identity_def)
  then show ?thesis by (simp only: unique_keys_def)
qed

text \<open>
  The one lemma behind claim, publish and release: a row function that keeps the identity of every
  row, and on the rows it is applied to keeps well-formedness and does not touch published ones.
\<close>

lemma outbox_update_evolves:
  assumes id: "\<And>e. ob_identity (f e) = ob_identity e"
    and row: "\<And>e. P e \<Longrightarrow> event_wf e \<Longrightarrow> event_wf (f e) \<and> ob_status e \<noteq> OutboxPublished"
  shows "outbox_evolves w (w\<lparr>w_outbox := sql_update P f (w_outbox w)\<rparr>)"
proof -
  have ob_id: "\<And>e. ob_id (f e) = ob_id e" by (simp add: identity_keys(1) id)
  have keys: "unique_keys (sql_update P f (w_outbox w)) = unique_keys (w_outbox w)"
    by (rule unique_keys_identity) (rule keys_update, rule id)
  show ?thesis
    unfolding outbox_evolves_def
  proof (intro conjI impI)
    assume wf: "outbox_wf w"
    let ?w = "w\<lparr>w_outbox := sql_update P f (w_outbox w)\<rparr>"
    show "outbox_wf ?w"
      using wf row by (auto simp: outbox_wf_def keys in_sql_update ob_id)
    show "\<forall>k e'. event_at ?w k = Some e' \<longrightarrow> k < w_next_outbox_id w \<longrightarrow>
        (\<exists>e. event_at w k = Some e \<and> event_evolves e e')"
    proof (intro allI impI)
      fix k e' assume "event_at ?w k = Some e'"
      then obtain e where e: "event_at w k = Some e" "e' = (if P e then f e else e)"
        by (auto simp: lookup_update [where key = ob_id, OF ob_id])
      moreover have "event_wf e" using wf lookup_key [OF e(1)] by (auto simp: outbox_wf_def)
      ultimately show "\<exists>e. event_at w k = Some e \<and> event_evolves e e'"
        using row [of e] id by (auto simp: event_evolves_def)
    qed
  qed auto
qed

lemma identity_kept [simp]:
  "ob_identity (e\<lparr>ob_status := s\<rparr>) = ob_identity e"
  "ob_identity (e\<lparr>ob_attempt_count := a\<rparr>) = ob_identity e"
  "ob_identity (e\<lparr>ob_next_retry_at := t\<rparr>) = ob_identity e"
  "ob_identity (e\<lparr>ob_lease_token := l\<rparr>) = ob_identity e"
  "ob_identity (e\<lparr>ob_lease_expires_at := x\<rparr>) = ob_identity e"
  "ob_identity (e\<lparr>ob_last_error := err\<rparr>) = ob_identity e"
  "ob_identity (e\<lparr>ob_published_at := x\<rparr>) = ob_identity e"
  by (simp_all add: ob_identity_def)

lemma claim_evolves: "outbox_evolves w (snd (claim_batch_tx pick token n ttl t w))"
  unfolding claim_batch_tx_def Let_def
  by (auto intro!: outbox_update_evolves simp: outbox_evol.R_refl event_wf_def lease_event_def
      split: outbox_status.splits)

lemma mark_published_evolves: "outbox_evolves w (snd (mark_published_stmt k token t w))"
  unfolding mark_published_stmt_def Let_def snd_conv
  by (rule outbox_update_evolves)
     (auto simp: event_wf_def publish_event_def split: outbox_status.splits)

lemma release_evolves: "outbox_evolves w (snd (release_stmt k token a n err w))"
  unfolding release_stmt_def Let_def snd_conv
  by (rule outbox_update_evolves)
     (auto simp: event_wf_def release_event_def holds_lease_def split: outbox_status.splits)

lemma delete_evolves: "outbox_evolves w (snd (delete_old_stmt before n w))"
  unfolding outbox_evolves_def
proof (intro conjI impI)
  assume wf: "outbox_wf w"
  let ?d = "sql_delete_limit n (deletable before)"
  have w': "snd (delete_old_stmt before n w) = w\<lparr>w_outbox := fst (?d (w_outbox w))\<rparr>"
    by (simp add: delete_old_stmt_def case_prod_beta)
  have sub: "set (fst (?d (w_outbox w))) \<subseteq> set (w_outbox w)"
    by (rule delete_limit_subset)
  show "outbox_wf (snd (delete_old_stmt before n w))"
    using wf sub by (auto simp: w' outbox_wf_def unique_keys_def intro: delete_limit_keys_distinct)
  show "\<forall>k e'. event_at (snd (delete_old_stmt before n w)) k = Some e' \<longrightarrow> k < w_next_outbox_id w \<longrightarrow>
        (\<exists>e. event_at w k = Some e \<and> event_evolves e e')"
  proof (intro allI impI)
    fix k e' assume "event_at (snd (delete_old_stmt before n w)) k = Some e'"
    then have "ob_id e' = k" "e' \<in> set (w_outbox w)"
      using lookup_key [of ob_id k _ e'] sub by (auto simp: w')
    then have "event_at w k = Some e'"
      using wf lookup_distinct [of ob_id "w_outbox w" e'] by (simp add: outbox_wf_def unique_keys_def)
    then show "\<exists>e. event_at w k = Some e \<and> event_evolves e e'" by auto
  qed
qed (simp_all add: delete_old_stmt_def case_prod_beta)

section \<open>What a claim hands out\<close>

lemma map_filter_lookup:
  "set (List.map_filter (event_at w) ks) = {e. \<exists>k \<in> set ks. event_at w k = Some e}"
  by (induction ks) (auto simp: List.map_filter_simps split: option.splits)

lemma claim_select_sound:
  assumes "e \<in> set (claim_select pick n t w)"
  shows "event_at w (ob_id e) = Some e" and "claimable t e"
proof -
  have "e \<in> set (filter (claimable t) (List.map_filter (event_at w) (remdups pick)))"
    using assms by (auto simp: claim_select_def dest: in_set_takeD)
  then show "event_at w (ob_id e) = Some e" "claimable t e"
    by (auto simp: map_filter_lookup dest: lookup_key)
qed

lemma claim_select_bound: "length (claim_select pick n t w) \<le> n"
  by (simp add: claim_select_def)

lemma claim_select_distinct: "distinct (map ob_id (claim_select pick n t w))"
proof -
  have "distinct ks \<Longrightarrow> distinct (map ob_id (List.map_filter (event_at w) ks))" for ks
    by (induction ks)
       (auto simp: List.map_filter_simps map_filter_lookup split: option.splits, metis lookup_key)
  then show ?thesis
    by (simp add: claim_select_def distinct_map_filter take_map [symmetric])
qed

text \<open>
  Every event handed out is the row as it now stands, leased under the caller's token until
  \<open>t + ttl\<close>; it was due before.
\<close>

lemma claim_hands_out:
  assumes c: "claim_batch_tx pick token n ttl t w = (Inr es, w')" and e: "e \<in> set es"
  shows "event_at w' (ob_id e) = Some e"
    and "ob_status e = OutboxPublishing \<and> ob_lease_token e = Some token \<and> ob_lease_expires_at e = Some (t + ttl)"
    and "\<exists>e0. event_at w (ob_id e) = Some e0 \<and> claimable t e0 \<and> e = lease_event token (t + ttl) e0"
proof -
  let ?sel = "claim_select pick n t w"
  have ne: "?sel \<noteq> []" using c e by (auto simp: claim_batch_tx_def)
  then have es: "es = map (lease_event token (t + ttl)) ?sel"
    using c by (auto simp: claim_batch_tx_def Let_def)
  then obtain e0 where e0: "e0 \<in> set ?sel" "e = lease_event token (t + ttl) e0"
    using e by auto
  then have id: "ob_id e = ob_id e0" by (simp add: lease_event_def)
  note sel = claim_select_sound [OF e0(1)]
  show "\<exists>e0. event_at w (ob_id e) = Some e0 \<and> claimable t e0 \<and> e = lease_event token (t + ttl) e0"
    using sel e0(2) id by auto
  show "ob_status e = OutboxPublishing \<and> ob_lease_token e = Some token \<and> ob_lease_expires_at e = Some (t + ttl)"
    using e0(2) by (simp add: lease_event_def)
  have "ob_id (lease_event token (t + ttl) x) = ob_id x" for x by (simp add: lease_event_def)
  then show "event_at w' (ob_id e) = Some e"
    using c ne sel e0 by (auto simp: claim_batch_tx_def Let_def claimable_def
        lookup_update [where key = ob_id and f = "lease_event token (t + ttl)"])
qed

lemma claim_size: "fst (claim_batch_tx pick token n ttl t w) = Inr es \<Longrightarrow> length es \<le> n"
  using claim_select_bound [of pick n t w] by (auto simp: claim_batch_tx_def Let_def split: if_splits)

text \<open>A row that is not due is left alone.\<close>

lemma claim_leaves:
  assumes e: "event_at w k = Some e" and "\<not> claimable t e"
  shows "event_at (snd (claim_batch_tx pick token n ttl t w)) k = Some e"
proof -
  have "ob_id (lease_event token (t + ttl) x) = ob_id x" for x by (simp add: lease_event_def)
  moreover have "ob_id e = k" using lookup_key [OF e] by simp
  moreover have "k \<notin> ob_id ` set (claim_select pick n t w)"
    using claim_select_sound assms by fastforce
  ultimately show ?thesis
    using e by (auto simp: claim_batch_tx_def Let_def
        lookup_update [where key = ob_id and f = "lease_event token (t + ttl)"])
qed

section \<open>Submission\<close>

text \<open>The event row the transaction writes.\<close>

definition enqueued_event :: "outbox_event \<Rightarrow> world \<Rightarrow> outbox_event" where
  "enqueued_event event w = event\<lparr>ob_id := w_next_outbox_id w, ob_job_id := w_next_job_id w,
     ob_payload := marshalOutboxPayload (w_next_job_id w)\<rparr>"

lemma enqueue_success:
  assumes "create_and_enqueue_tx t job event w = (Inr j, w')"
  shows "jb_id j = w_next_job_id w" and "jb_status j = StatusQueued"
    and "w_outbox w' = w_outbox w @ [enqueued_event event w]"
    and "w_next_outbox_id w' = Suc (w_next_outbox_id w)"
    and "w' = (snd (cas_job (w_next_job_id w) StatusPending
                 (\<lambda>r. r\<lparr>jb_status := StatusQueued, jb_updated_at := t\<rparr>) (snd (insert_job job w))))
               \<lparr>w_outbox := w_outbox w @ [enqueued_event event w],
                w_next_outbox_id := Suc (w_next_outbox_id w)\<rparr>"
    and "\<forall>e \<in> set (w_outbox w). ob_message_id e \<noteq> ob_message_id event \<and>
          \<not> (ob_event_type e = ob_event_type event \<and> ob_job_id e = w_next_job_id w)"
  using assms
  by (auto simp: create_and_enqueue_tx_def insert_job_def cas_job_def Let_def enqueued_event_def
      list_ex_iff split: if_splits prod.splits)

lemma enqueue_job_evolves: "job_evolves w (snd (create_and_enqueue_tx t job event w))"
proof (cases "fst (create_and_enqueue_tx t job event w)")
  case (Inl e)
  then show ?thesis by (simp add: create_and_enqueue_error_rolls_back job_evol.R_refl)
next
  case (Inr j)
  let ?f = "\<lambda>r. r\<lparr>jb_status := StatusQueued, jb_updated_at := t\<rparr>"
  let ?w2 = "snd (cas_job (w_next_job_id w) StatusPending ?f (snd (insert_job job w)))"
  have step: "legal_row_step StatusPending ?f"
    by (rule legal_row_stepI [where to = StatusQueued]) (simp_all add: can_transition_def)
  have "job_evolves w ?w2"
    using job_evol.R_trans [OF insert_job_evolves cas_job_evolves [OF step]] .
  moreover have "job_evolves ?w2 (snd (create_and_enqueue_tx t job event w))"
    using enqueue_success(5) [of t job event w j "snd (create_and_enqueue_tx t job event w)"] Inr
    by (intro job_evolves_same_jobs) (simp_all add: prod_eq_iff)
  ultimately show ?thesis by (rule job_evol.R_trans)
qed

text \<open>Submitted events start out well formed.\<close>

definition fresh_event :: "outbox_event \<Rightarrow> bool" where
  "fresh_event e = (ob_status e = OutboxPending \<and> ob_lease_token e = None \<and>
     ob_lease_expires_at e = None \<and> ob_published_at e = None)"

lemma newOutboxEvent_fresh [simp]: "fresh_event (newOutboxEvent k m t)"
  by (simp add: fresh_event_def newOutboxEvent_def)

lemma enqueue_outbox_evolves:
  assumes fresh: "fresh_event event"
  shows "outbox_evolves w (snd (create_and_enqueue_tx t job event w))"
proof (cases "fst (create_and_enqueue_tx t job event w)")
  case (Inl e)
  then show ?thesis by (simp add: create_and_enqueue_error_rolls_back outbox_evol.R_refl)
next
  case (Inr j)
  define w' where "w' = snd (create_and_enqueue_tx t job event w)"
  have ok: "create_and_enqueue_tx t job event w = (Inr j, w')"
    using Inr by (simp add: w'_def prod_eq_iff)
  note s = enqueue_success [OF ok]
  let ?e = "enqueued_event event w"
  have e: "ob_id ?e = w_next_outbox_id w" "ob_message_id ?e = ob_message_id event"
      "ob_event_type ?e = ob_event_type event" "ob_job_id ?e = w_next_job_id w" "event_wf ?e"
    using fresh by (simp_all add: enqueued_event_def event_wf_def fresh_event_def)
  have clock: "w_clock w' = w_clock w"
    using s(5) by (simp add: cas_job_def insert_job_def Let_def)
  have "outbox_wf w'" if wf: "outbox_wf w"
    using wf s(3,4,6) e by (auto simp: outbox_wf_def unique_keys_def image_iff less_Suc_eq)
  moreover have "event_at w' k = Some x \<Longrightarrow> k < w_next_outbox_id w \<Longrightarrow> event_at w k = Some x" for k x
    using s(3) e(1) by (auto split: option.splits if_splits)
  ultimately show ?thesis
    using clock s(4) event_evolves_refl unfolding w'_def [symmetric] outbox_evolves_def
    by (metis Suc_n_not_le_n nat_le_linear order_refl)
qed

section \<open>Runs of outbox statements\<close>

text \<open>
  Any sequence of the statements, issued by any number of dispatchers and submitters, with the log
  of the ids a statement marked published.
\<close>

datatype outbox_command =
    OpEnqueue instant query_job outbox_event
  | OpClaim "nat list" string nat duration instant
  | OpMark nat string instant
  | OpRelease nat string int instant string
  | OpDelete instant nat

fun outbox_op :: "outbox_command \<Rightarrow> world \<Rightarrow> world" where
  "outbox_op (OpEnqueue t job e) w = snd (create_and_enqueue_tx t job e w)"
| "outbox_op (OpClaim pick token n ttl t) w = snd (claim_batch_tx pick token n ttl t w)"
| "outbox_op (OpMark k token t) w = snd (mark_published_stmt k token t w)"
| "outbox_op (OpRelease k token a n err) w = snd (release_stmt k token a n err w)"
| "outbox_op (OpDelete before n) w = snd (delete_old_stmt before n w)"

fun marks :: "outbox_command \<Rightarrow> world \<Rightarrow> nat list" where
  "marks (OpMark k token t) w = (if fst (mark_published_stmt k token t w) = Inr 0 then [] else [k])"
| "marks _ w = []"

fun outbox_run :: "outbox_command list \<Rightarrow> world \<Rightarrow> world \<times> nat list" where
  "outbox_run [] w = (w, [])"
| "outbox_run (c # cs) w = (case outbox_run cs (outbox_op c w) of (w', log) \<Rightarrow> (w', marks c w @ log))"

fun op_ok :: "outbox_command \<Rightarrow> bool" where
  "op_ok (OpEnqueue t job e) = fresh_event e"
| "op_ok _ = True"

lemma op_evolves: "op_ok c \<Longrightarrow> outbox_evolves w (outbox_op c w)"
  by (cases c) (simp_all add: claim_evolves mark_published_evolves release_evolves delete_evolves
      enqueue_outbox_evolves)

lemma enqueue_keeps_event:
  assumes "event_at w k = Some e"
  shows "event_at (snd (create_and_enqueue_tx t job event w)) k = Some e"
proof (cases "create_and_enqueue_tx t job event w")
  case (Pair r w')
  then show ?thesis
    using enqueue_success(3) [of t job event w] create_and_enqueue_error_rolls_back [of t job event w] assms
    by (cases r) auto
qed

lemma delete_keeps_unpublished:
  assumes "outbox_wf w" and "event_at w k = Some e" and "ob_status e \<noteq> OutboxPublished"
  shows "event_at (snd (delete_old_stmt before n w)) k = Some e"
  using assms delete_limit_lookup [of ob_id "w_outbox w" k e "deletable before" n]
  by (simp add: delete_old_stmt_def case_prod_beta deletable_def outbox_wf_def unique_keys_def)

text \<open>One statement: an unpublished event stays, unpublished, unless this statement marked it.\<close>

lemma op_keeps_event:
  assumes wf: "outbox_wf w" and ok: "op_ok c" and e: "event_at w k = Some e"
    and u: "ob_status e \<noteq> OutboxPublished" and unmarked: "k \<notin> set (marks c w)"
  shows "\<exists>e'. event_at (outbox_op c w) k = Some e' \<and> ob_identity e' = ob_identity e \<and>
    ob_status e' \<noteq> OutboxPublished"
proof (cases c)
  case (OpMark j token t)
  note pub = publish_lease.upd.lookup_self [where row_key = k and tok = token and t = t and rows = "w_outbox w"]
    publish_lease.upd.lookup_other [where j = k and row_key = j and tok = token and t = t and rows = "w_outbox w"]
  have "\<not> (holds_lease token e \<and> ob_status e = OutboxPublishing)" if "j = k"
    using unmarked wf e publish_once.hit_iff [of "w_outbox w" k token t] that
    by (auto simp: OpMark mark_published_stmt_def Let_def outbox_wf_def unique_keys_def split: if_splits)
  then show ?thesis using pub e u by (cases "j = k") (auto simp: OpMark mark_published_stmt_def Let_def)
next
  case (OpRelease j token a n err)
  show ?thesis
    using release_lease.upd.lookup_self [where row_key = k and tok = token and a = a and n = n and err = err and rows = "w_outbox w"]
      release_lease.upd.lookup_other [where j = k and row_key = j and tok = token and a = a and n = n and err = err and rows = "w_outbox w"] e u
    by (cases "j = k") (auto simp: OpRelease release_stmt_def Let_def release_event_def)
next
  case (OpClaim pick token n ttl t)
  have "ob_id (lease_event token x y) = ob_id y" for x y by (simp add: lease_event_def)
  then show ?thesis using e u
    by (auto simp: OpClaim claim_batch_tx_def Let_def lease_event_def
        lookup_update [where key = ob_id and f = "lease_event token (t + ttl)"])
qed (use enqueue_keeps_event [OF e] delete_keeps_unpublished [OF wf e u] u in auto)

lemma run_keeps_event:
  "outbox_wf w \<Longrightarrow> list_all op_ok cs \<Longrightarrow> event_at w k = Some e \<Longrightarrow> ob_status e \<noteq> OutboxPublished \<Longrightarrow>
   outbox_run cs w = (w', log) \<Longrightarrow> k \<notin> set log \<Longrightarrow>
     outbox_wf w' \<and> (\<exists>e'. event_at w' k = Some e' \<and> ob_identity e' = ob_identity e \<and>
       ob_status e' \<noteq> OutboxPublished)"
proof (induction cs arbitrary: w e log)
  case (Cons c cs)
  obtain log' where run: "outbox_run cs (outbox_op c w) = (w', log')" "log = marks c w @ log'"
    using Cons.prems(5) by (auto split: prod.splits)
  have ok: "op_ok c" and wf: "outbox_wf (outbox_op c w)"
    using Cons.prems(1,2) op_evolves [of c w] by (auto simp: outbox_evolves_def)
  obtain e1 where "event_at (outbox_op c w) k = Some e1" "ob_identity e1 = ob_identity e"
      "ob_status e1 \<noteq> OutboxPublished"
    using op_keeps_event [OF Cons.prems(1) ok Cons.prems(3,4)] Cons.prems(6) run(2) by auto
  then show ?case using Cons.IH [OF wf _ _ _ run(1)] Cons.prems(2,6) run(2) by auto
qed auto

section \<open>Properties\<close>

text \<open>A small database for the witnesses: empty, or with one submitted job.\<close>

definition empty_world :: world where
  "empty_world = \<lparr>w_clock = 0, w_jobs = [], w_next_job_id = 1, w_outbox = [], w_next_outbox_id = 1,
     w_pm = [], w_sources = [], w_next_source_id = 1, w_users = [], w_next_user_id = 1, w_redis = [],
     w_queues = [], w_bindings = [], w_exchanges = [], w_queue_args = []\<rparr>"

definition sample_job :: query_job where
  "sample_job = \<lparr>jb_id = 0, jb_question = ''how many users'', jb_generated_sql = None,
     jb_status = StatusPending, jb_error_code = None, jb_error_message = None, jb_row_count = None,
     jb_execution_duration_ms = None, jb_created_at = 5, jb_updated_at = 5, jb_finished_at = None,
     jb_result_expires_at = None, jb_user_id = Some 7, jb_data_source_id = Some 3,
     jb_attempt_count = 0, jb_next_retry_at = None\<rparr>"

definition sample_event :: outbox_event where
  "sample_event = newOutboxEvent 0 ''m1'' 5"

definition submitted_world :: world where
  "submitted_world = snd (create_and_enqueue_tx 6 sample_job sample_event empty_world)"

lemma empty_world_wf [simp]: "jobs_wf empty_world" "outbox_wf empty_world"
  by (simp_all add: jobs_wf_def outbox_wf_def unique_keys_def empty_world_def)

lemma sample_event_fresh [simp]: "fresh_event sample_event"
  by (simp add: sample_event_def)

lemma submitted_world_wf [simp]: "jobs_wf submitted_world" "outbox_wf submitted_world"
  using enqueue_job_evolves [of empty_world 6 sample_job sample_event]
    enqueue_outbox_evolves [of sample_event empty_world 6 sample_job]
  by (simp_all add: submitted_world_def outbox_evolves_def job_evolves_wf)

lemma submitted_world_outbox:
  "w_outbox submitted_world = [sample_event\<lparr>ob_id := 1, ob_job_id := 1, ob_payload := marshalOutboxPayload 1\<rparr>]"
  by (simp add: submitted_world_def create_and_enqueue_tx_def insert_job_def cas_job_def Let_def
      sql_affected_def sql_update_def empty_world_def sample_job_def sample_event_def newOutboxEvent_def)

text \<open>
  Submission is atomic: on a well-formed database, creating a job and enqueueing its event either
  reports an error and leaves the database exactly as it was, or leaves a new queued job together
  with one new pending, unleased event that names it, and every older job and event as it was.
\<close>

theorem submission_is_atomic:
  assumes "jobs_wf w" and "outbox_wf w" and "fresh_event event" and "jb_status job = StatusPending"
    and "create_and_enqueue_tx t job event w = (r, w')"
  shows "(\<exists>e. r = Inl e \<and> w' = w) \<or>
    (\<exists>j row ev. r = Inr j \<and> jb_status j = StatusQueued \<and>
       job_at w (jb_id j) = None \<and> job_at w' (jb_id j) = Some row \<and>
       jb_status row = StatusQueued \<and> jb_question row = jb_question job \<and> jb_user_id row = jb_user_id job \<and>
       w_outbox w' = w_outbox w @ [ev] \<and> event_at w' (ob_id ev) = Some ev \<and> fresh_event ev \<and>
       ob_job_id ev = jb_id j \<and> ob_payload ev = marshalOutboxPayload (jb_id j) \<and>
       ob_message_id ev = ob_message_id event \<and>
       (\<forall>k. k \<noteq> jb_id j \<longrightarrow> job_at w' k = job_at w k) \<and> outbox_wf w' \<and> jobs_wf w')"
proof (cases r)
  case (Inl e)
  then show ?thesis using create_and_enqueue_error_rolls_back [of t job event w e] assms(5) by simp
next
  case (Inr j)
  note ok = assms(5) [unfolded Inr]
  note s = enqueue_success [OF ok]
  let ?ev = "enqueued_event event w"
  have ev: "ob_id ?ev = w_next_outbox_id w" "ob_job_id ?ev = w_next_job_id w" "fresh_event ?ev"
      "ob_payload ?ev = marshalOutboxPayload (w_next_job_id w)" "ob_message_id ?ev = ob_message_id event"
    using assms(3) by (simp_all add: enqueued_event_def fresh_event_def)
  have "event_at w (w_next_outbox_id w) = None"
    using assms(2) by (auto simp: outbox_wf_def lookup_None_iff)
  then have event: "event_at w' (ob_id ?ev) = Some ?ev" by (simp add: s(3) ev(1))
  have wf: "outbox_wf w'" "jobs_wf w'"
    using assms(1,2) enqueue_outbox_evolves [OF assms(3), of w t job] enqueue_job_evolves [of w t job event] ok
    by (auto simp: outbox_evolves_def dest: job_evolves_wf)
  have jobs: "w_jobs w' = sql_update (\<lambda>r. jb_id r = w_next_job_id w \<and> jb_status r = StatusPending)
      (\<lambda>r. r\<lparr>jb_status := StatusQueued, jb_updated_at := t\<rparr>) (w_jobs w @ [job\<lparr>jb_id := w_next_job_id w\<rparr>])"
    using s(5) by (simp add: cas_job_def insert_job_def Let_def)
  have row: "job_at w' (w_next_job_id w) =
      Some (job\<lparr>jb_id := w_next_job_id w, jb_status := StatusQueued, jb_updated_at := t\<rparr>)"
    by (simp add: jobs transition_cas.lookup_self jobs_wf_fresh [OF assms(1)] assms(4))
  have others: "job_at w' k = job_at w k" if "k \<noteq> w_next_job_id w" for k
    using that by (simp add: jobs transition_cas.lookup_other split: option.splits)
  show ?thesis
    by (rule disjI2, rule exI [of _ j],
        rule exI [of _ "job\<lparr>jb_id := w_next_job_id w, jb_status := StatusQueued, jb_updated_at := t\<rparr>"],
        rule exI [of _ ?ev])
       (simp add: Inr s(1,2) ev event [unfolded ev(1)] wf row others jobs_wf_fresh [OF assms(1)],
        simp add: s(3) event [unfolded ev(1) s(3) lookup_append])
qed

theorem submission_is_atomic_witness:
  "\<exists>r w'. create_and_enqueue_tx 6 sample_job sample_event empty_world = (r, w') \<and>
     ((\<exists>e. r = Inl e \<and> w' = empty_world) \<or> (\<exists>j. r = Inr j \<and> jb_status j = StatusQueued))"
proof -
  let ?r = "create_and_enqueue_tx 6 sample_job sample_event empty_world"
  have "jb_status sample_job = StatusPending" by (simp add: sample_job_def)
  from submission_is_atomic [OF empty_world_wf sample_event_fresh this surjective_pairing [of ?r]]
  have "(\<exists>e. fst ?r = Inl e \<and> snd ?r = empty_world) \<or> (\<exists>j. fst ?r = Inr j \<and> jb_status j = StatusQueued)"
    by (elim disjE exE conjE) blast+
  then show ?thesis by (intro exI [of _ "fst ?r"] exI [of _ "snd ?r"] conjI) simp_all
qed

text \<open>
  No event is lost before the broker confirmed it: after any sequence of submissions, claims,
  publication marks, releases and cleanups by any number of dispatchers, an event that was not yet
  published and that no successful MarkPublished named is still in the table, still unpublished,
  and carries the same message identity.
\<close>

theorem unpublished_event_is_kept:
  assumes "outbox_wf w" and "list_all op_ok cs" and "event_at w k = Some e"
    and "ob_status e \<noteq> OutboxPublished" and "outbox_run cs w = (w', log)" and "k \<notin> set log"
  shows "\<exists>e'. event_at w' k = Some e' \<and> ob_status e' \<noteq> OutboxPublished \<and> event_wf e' \<and>
    ob_message_id e' = ob_message_id e \<and> ob_job_id e' = ob_job_id e \<and> ob_occurred_at e' = ob_occurred_at e"
proof -
  obtain e' where "outbox_wf w'" "event_at w' k = Some e'" "ob_identity e' = ob_identity e"
      "ob_status e' \<noteq> OutboxPublished"
    using run_keeps_event [OF assms] by blast
  then show ?thesis
    by (auto simp: ob_identity_def outbox_wf_def dest: lookup_key)
qed

theorem unpublished_event_is_kept_witness:
  "\<exists>e'. event_at (fst (outbox_run [OpClaim [1] ''t'' 10 30 6, OpRelease 1 ''t'' 1 9 ''nack'', OpDelete 100 10]
      submitted_world)) 1 = Some e' \<and> ob_message_id e' = ''m1''"
proof -
  let ?cs = "[OpClaim [1] ''t'' 10 30 6, OpRelease 1 ''t'' 1 9 ''nack'', OpDelete 100 10]"
  let ?e = "sample_event\<lparr>ob_id := 1, ob_job_id := 1, ob_payload := marshalOutboxPayload 1\<rparr>"
  have "event_at submitted_world 1 = Some ?e" "ob_status ?e \<noteq> OutboxPublished" "ob_message_id ?e = ''m1''"
    by (simp_all add: submitted_world_outbox sample_event_def newOutboxEvent_def)
  moreover have "list_all op_ok ?cs" and "snd (outbox_run ?cs submitted_world) = []"
    by (simp_all add: case_prod_beta)
  ultimately show ?thesis
    using unpublished_event_is_kept [OF submitted_world_wf(2), of ?cs 1 ?e
        "fst (outbox_run ?cs submitted_world)" "snd (outbox_run ?cs submitted_world)"]
    by auto
qed



text \<open>
  A dispatcher whose lease was taken over is powerless: once another token claimed the event,
  its MarkPublished affects no row (the call reports ErrLeaseLost) and its release is a no-op.
\<close>

theorem taken_over_dispatcher_is_powerless:
  assumes "outbox_wf w" and "claim_batch_tx pick token n ttl t w = (Inr es, w')" and "e \<in> set es"
    and "stale \<noteq> token"
  shows "mark_published_stmt (ob_id e) stale t' w' = (Inr 0, w') \<and>
    release_stmt (ob_id e) stale a t'' err w' = (Inr 0, w')"
proof -
  have "outbox_wf w'" using claim_evolves [of w pick token n ttl t] assms(1,2) by (simp add: outbox_evolves_def)
  then have d: "distinct (map ob_id (w_outbox w'))" by (simp add: outbox_wf_def unique_keys_def)
  have "ob_lease_token r \<noteq> Some stale" if "event_at w' (ob_id e) = Some r" for r
    using claim_hands_out(1,2) [OF assms(2,3)] that assms(4) by auto
  note stale = publish_lease.stale_token_no_effect [OF d this] release_lease.stale_token_no_effect [OF d this]
  then show ?thesis by (simp add: mark_published_stmt_def release_stmt_def Let_def)
qed

theorem taken_over_dispatcher_is_powerless_witness:
  "\<exists>es w' e. claim_batch_tx [1] ''new'' 10 30 6 submitted_world = (Inr es, w') \<and> e \<in> set es \<and>
     mark_published_stmt (ob_id e) ''old'' 8 w' = (Inr 0, w')"
proof -
  define r where "r = claim_batch_tx [1] ''new'' 10 30 6 submitted_world"
  obtain e es where r: "r = (Inr (e # es), snd r)"
    by (simp add: r_def claim_batch_tx_def claim_select_def List.map_filter_simps Let_def claimable_def
        submitted_world_outbox sample_event_def newOutboxEvent_def)
  have "mark_published_stmt (ob_id e) ''old'' 8 (snd r) = (Inr 0, snd r)"
    unfolding r_def
    by (rule taken_over_dispatcher_is_powerless [THEN conjunct1, OF submitted_world_wf(2) r [unfolded r_def]]) simp_all
  then show ?thesis using r unfolding r_def
    by (intro exI [of _ "e # es"] exI [of _ "snd r"] exI [of _ e]) (simp add: r_def)
qed

end
