(* ===== verification/Idempotency.thy ===== *)
theory Idempotency
  imports Outbox
begin

text \<open>
  The idempotency log of the consumer (internal/queryjob/idempotency.go): claiming a message under
  a 30 second lease, renewing, scheduling a retry, completing. A fresh lease token is an argument of
  \<open>claim\<close> (\<open>newLeaseToken\<close> draws it at random). The lemmas show who may hold a message, that a
  completed message stays completed, and that a stale token changes nothing.
\<close>

section \<open>Operations\<close>

definition leaseTTL :: duration where "leaseTTL = 30 * second"

datatype claim_result =
    ClaimGranted | ClaimAlreadyDone | ClaimLeaseHeld | ClaimTakenOver | ClaimResumed | ClaimConflict

text \<open>The row functions of the UPDATE statements.\<close>

definition lease_pm :: "string \<Rightarrow> instant \<Rightarrow> processed_message \<Rightarrow> processed_message" where
  "lease_pm token expires r = r\<lparr>pm_lease_token := token, pm_lease_expires_at := expires\<rparr>"

definition resume_pm :: "string \<Rightarrow> instant \<Rightarrow> processed_message \<Rightarrow> processed_message" where
  "resume_pm token expires r =
     r\<lparr>pm_status := PmProcessing, pm_lease_token := token, pm_lease_expires_at := expires\<rparr>"

text \<open>The transaction runs at the database's current time; \<open>time.Now()\<close> in it is \<open>w_clock\<close>.\<close>

definition handleExistingRow ::
  "processed_message \<Rightarrow> string \<Rightarrow> instant \<Rightarrow> world \<Rightarrow> (string \<times> claim_result) \<times> world" where
  "handleExistingRow row newToken expires w =
     (case pm_status row of
        PmCompleted \<Rightarrow> (([], ClaimAlreadyDone), w)
      | PmRetryScheduled \<Rightarrow>
          ((newToken, ClaimResumed),
           w\<lparr>w_pm := sql_update
               (\<lambda>r. pm_message_id r = pm_message_id row \<and> pm_status r = PmRetryScheduled)
               (resume_pm newToken expires) (w_pm w)\<rparr>)
      | PmProcessing \<Rightarrow>
          (if w_clock w < pm_lease_expires_at row then (([], ClaimLeaseHeld), w)
           else ((newToken, ClaimTakenOver),
             w\<lparr>w_pm := sql_update
                 (\<lambda>r. pm_message_id r = pm_message_id row \<and> pm_lease_token r = pm_lease_token row)
                 (lease_pm newToken expires) (w_pm w)\<rparr>)))"

definition handleConflictingRow :: "processed_message \<Rightarrow> claim_result" where
  "handleConflictingRow row =
     (case pm_status row of PmCompleted \<Rightarrow> ClaimAlreadyDone | _ \<Rightarrow> ClaimConflict)"

definition claim_tx ::
  "string \<Rightarrow> string \<Rightarrow> string \<Rightarrow> nat \<Rightarrow> nat \<Rightarrow> instant \<Rightarrow> world \<Rightarrow>
     (go_error + string \<times> claim_result) \<times> world" where
  "claim_tx token messageID messageType jobID attempt t w =
     (let expires = t + leaseTTL in
      case sql_first (\<lambda>r. pm_message_id r = messageID) (w_pm w) of
        None \<Rightarrow>
          (let pm = \<lparr>pm_message_id = messageID, pm_message_type = messageType, pm_job_id = jobID,
                 pm_attempt = attempt, pm_status = PmProcessing, pm_lease_token = token,
                 pm_lease_expires_at = expires, pm_completed_at = None\<rparr>
           in case sql_first (\<lambda>r. pm_message_type r = messageType \<and> pm_job_id r = jobID) (w_pm w) of
                None \<Rightarrow> (Inr (token, ClaimGranted), w\<lparr>w_pm := w_pm w @ [pm]\<rparr>)
              | Some conflicting \<Rightarrow> (Inr ([], handleConflictingRow conflicting), w))
      | Some existing \<Rightarrow>
          (if pm_message_type existing \<noteq> messageType \<or> pm_job_id existing \<noteq> jobID
           then (Inr ([], ClaimConflict), w)
           else (case handleExistingRow existing token expires w of (r, w') \<Rightarrow> (Inr r, w'))))"

definition claim ::
  "string \<Rightarrow> string \<Rightarrow> string \<Rightarrow> nat \<Rightarrow> nat \<Rightarrow> instant \<Rightarrow> (go_error + string \<times> claim_result) prog" where
  "claim token messageID messageType jobID attempt t = do {
     r \<leftarrow> ext (claim_tx token messageID messageType jobID attempt t);
     State_Monad.return (case r of
         Inl e \<Rightarrow> Inl (Wrap ''queryjob: pm claim: '' e '''') | Inr x \<Rightarrow> Inr x)
   }"

text \<open>The lease-authenticated updates and the common reading of their result.\<close>

definition holds_pm :: "string \<Rightarrow> processed_message \<Rightarrow> bool" where
  "holds_pm token r = (pm_lease_token r = token)"

definition update_pm ::
  "string \<Rightarrow> (processed_message \<Rightarrow> bool) \<Rightarrow> (processed_message \<Rightarrow> processed_message) \<Rightarrow>
     world \<Rightarrow> (go_error + nat) \<times> world" where
  "update_pm messageID G f w =
     (Inr (sql_affected (\<lambda>r. pm_message_id r = messageID \<and> G r) f (w_pm w)),
      w\<lparr>w_pm := sql_update (\<lambda>r. pm_message_id r = messageID \<and> G r) f (w_pm w)\<rparr>)"

definition pm_result :: "string \<Rightarrow> string \<Rightarrow> go_error + nat \<Rightarrow> go_error option" where
  "pm_result op messageID r = (case r of
       Inl e \<Rightarrow> Some (Wrap (''queryjob: pm '' @ op @ '': '') e '''')
     | Inr n \<Rightarrow> (if n = 0
         then Some (Wrap (''queryjob: pm '' @ op @ '' id='' @ messageID @ '': '') (Sentinel ErrLeaseLost) '''')
         else None))"

definition renew :: "string \<Rightarrow> string \<Rightarrow> instant \<Rightarrow> go_error option prog" where
  "renew messageID leaseToken t = do {
     r \<leftarrow> ext (update_pm messageID (\<lambda>r. holds_pm leaseToken r \<and> pm_status r = PmProcessing)
                 (\<lambda>r. r\<lparr>pm_lease_expires_at := t + leaseTTL\<rparr>));
     State_Monad.return (pm_result ''renew'' messageID r)
   }"

definition mark_retry_scheduled :: "string \<Rightarrow> string \<Rightarrow> go_error option prog" where
  "mark_retry_scheduled messageID leaseToken = do {
     r \<leftarrow> ext (update_pm messageID (\<lambda>r. holds_pm leaseToken r \<and> pm_status r = PmProcessing)
                 (\<lambda>r. r\<lparr>pm_status := PmRetryScheduled\<rparr>));
     State_Monad.return (pm_result ''retry_scheduled'' messageID r)
   }"

definition mark_completed :: "string \<Rightarrow> string \<Rightarrow> instant \<Rightarrow> go_error option prog" where
  "mark_completed messageID leaseToken t = do {
     r \<leftarrow> ext (update_pm messageID (holds_pm leaseToken)
                 (\<lambda>r. r\<lparr>pm_status := PmCompleted, pm_completed_at := Some t\<rparr>));
     State_Monad.return (pm_result ''complete'' messageID r)
   }"

definition pm_find_by_message_id :: "string \<Rightarrow> (go_error + processed_message) prog" where
  "pm_find_by_message_id messageID = do {
     r \<leftarrow> ext (\<lambda>w. (case sql_first (\<lambda>r. pm_message_id r = messageID) (w_pm w) of
             None \<Rightarrow> Inl (Sentinel GormErrRecordNotFound) | Some pm \<Rightarrow> Inr pm, w));
     State_Monad.return (case r of
         Inl e \<Rightarrow> (if errors_is e GormErrRecordNotFound then Inl (Sentinel ErrPMNotFound)
                  else Inl (Wrap ''queryjob: pm find: '' e ''''))
       | Inr pm \<Rightarrow> Inr pm)
   }"

section \<open>Leases\<close>

interpretation renew_lease: leased_rows pm_message_id "\<lambda>r. Some (pm_lease_token r)"
    "\<lambda>token r. holds_pm token r \<and> pm_status r = PmProcessing" "\<lambda>r. r\<lparr>pm_lease_expires_at := x\<rparr>" for x
  by unfold_locales (auto simp: holds_pm_def)

interpretation retry_lease: leased_rows pm_message_id "\<lambda>r. Some (pm_lease_token r)"
    "\<lambda>token r. holds_pm token r \<and> pm_status r = PmProcessing" "\<lambda>r. r\<lparr>pm_status := PmRetryScheduled\<rparr>"
  by unfold_locales (auto simp: holds_pm_def)

interpretation complete_lease: leased_rows pm_message_id "\<lambda>r. Some (pm_lease_token r)" holds_pm
    "\<lambda>r. r\<lparr>pm_status := PmCompleted, pm_completed_at := Some t\<rparr>" for t
  by unfold_locales (auto simp: holds_pm_def)

section \<open>Evolution of the log\<close>

text \<open>
  Rows are never deleted and keep their message, type, job and first attempt; a completed row stays
  completed under the token that completed it. One row per message and one per job.
\<close>

definition pm_wf :: "world \<Rightarrow> bool" where
  "pm_wf w = (distinct (map pm_message_id (w_pm w)) \<and>
     distinct (map (\<lambda>r. (pm_message_type r, pm_job_id r)) (w_pm w)))"

definition pm_row_evolves :: "processed_message \<Rightarrow> processed_message \<Rightarrow> bool" where
  "pm_row_evolves r r' =
     (pm_message_id r' = pm_message_id r \<and> pm_message_type r' = pm_message_type r \<and>
      pm_job_id r' = pm_job_id r \<and> pm_attempt r' = pm_attempt r \<and>
      (pm_status r = PmCompleted \<longrightarrow> pm_status r' = PmCompleted \<and> pm_lease_token r' = pm_lease_token r))"

definition pm_evolves :: "world \<Rightarrow> world \<Rightarrow> bool" where
  "pm_evolves w w' = (w_clock w \<le> w_clock w' \<and>
     (pm_wf w \<longrightarrow> pm_wf w' \<and>
       (\<forall>k r. pm_at w k = Some r \<longrightarrow> (\<exists>r'. pm_at w' k = Some r' \<and> pm_row_evolves r r'))))"

lemma pm_row_evolves_refl [simp]: "pm_row_evolves r r"
  by (simp add: pm_row_evolves_def)

lemma pm_row_evolves_trans: "pm_row_evolves a b \<Longrightarrow> pm_row_evolves b c \<Longrightarrow> pm_row_evolves a c"
  by (auto simp: pm_row_evolves_def)

lemma pm_evolves_same: "w_pm w' = w_pm w \<Longrightarrow> w_clock w \<le> w_clock w' \<Longrightarrow> pm_evolves w w'"
  by (auto simp: pm_evolves_def pm_wf_def)

lemma pm_evolves_refl: "pm_evolves w w"
  by (simp add: pm_evolves_same)

lemma pm_update_evolves:
  assumes row: "\<And>r. pm_at w (pm_message_id r) = Some r \<Longrightarrow> P r \<Longrightarrow> pm_row_evolves r (f r)"
    and id: "\<And>r. pm_message_id (f r) = pm_message_id r"
    and job: "\<And>r. (pm_message_type (f r), pm_job_id (f r)) = (pm_message_type r, pm_job_id r)"
  shows "pm_evolves w (w\<lparr>w_pm := sql_update P f (w_pm w)\<rparr>)"
proof -
  have "pm_row_evolves r (if P r then f r else r)" if "pm_at w k = Some r" for k r
    using row [of r] that lookup_key [OF that] by simp
  then show ?thesis
    by (auto simp: pm_evolves_def pm_wf_def lookup_update [where key = pm_message_id and f = f, OF id]
        keys_update [where key = pm_message_id and f = f, OF id]
        keys_update [where key = "\<lambda>r. (pm_message_type r, pm_job_id r)" and f = f, OF job])
qed

lemma update_pm_evolves:
  assumes "\<And>r. G r \<Longrightarrow> pm_row_evolves r (f r)" and "\<And>r. pm_message_id (f r) = pm_message_id r"
    and "\<And>r. (pm_message_type (f r), pm_job_id (f r)) = (pm_message_type r, pm_job_id r)"
  shows "pm_evolves w (snd (update_pm k G f w))"
  unfolding update_pm_def snd_conv by (rule pm_update_evolves) (use assms in auto)

section \<open>Claims\<close>

definition grants :: "claim_result \<Rightarrow> bool" where
  "grants c = (c = ClaimGranted \<or> c = ClaimTakenOver \<or> c = ClaimResumed)"

lemma sql_first_pm: "sql_first (\<lambda>r. pm_message_id r = k) (w_pm w) = pm_at w k"
  by (simp add: sql_first_def lookup_def)

lemma sql_first_job_None:
  "sql_first (\<lambda>r. pm_message_type r = t \<and> pm_job_id r = k) rows = None \<longleftrightarrow>
     (t, k) \<notin> (\<lambda>r. (pm_message_type r, pm_job_id r)) ` set rows"
  by (auto simp: sql_first_def find_None_iff)

lemma sql_first_job_Some:
  "sql_first (\<lambda>r. pm_message_type r = t \<and> pm_job_id r = k) rows = Some r \<Longrightarrow>
     r \<in> set rows \<and> pm_message_type r = t \<and> pm_job_id r = k"
  by (auto simp: sql_first_def find_Some_iff)

lemma pm_insert_evolves:
  assumes "pm_at w (pm_message_id (r :: processed_message)) = None"
    and "sql_first (\<lambda>x. pm_message_type x = pm_message_type r \<and> pm_job_id x = pm_job_id r) (w_pm w) = None"
  shows "pm_evolves w (w\<lparr>w_pm := w_pm w @ [r]\<rparr>)"
  using assms
  by (auto simp: pm_evolves_def pm_wf_def sql_first_job_None lookup_None_iff image_iff)

lemma existing_evolves:
  assumes "pm_at w (pm_message_id row) = Some row"
  shows "pm_evolves w (snd (handleExistingRow row token x w))"
proof (cases "pm_status row")
  case PmProcessing
  then show ?thesis
    by (auto simp: handleExistingRow_def pm_evolves_refl intro!: pm_update_evolves)
       (use assms in \<open>auto simp: pm_row_evolves_def lease_pm_def\<close>)
next
  case PmRetryScheduled
  then show ?thesis
    by (auto simp: handleExistingRow_def intro!: pm_update_evolves)
       (use assms in \<open>auto simp: pm_row_evolves_def resume_pm_def\<close>)
qed (simp add: handleExistingRow_def pm_evolves_refl)

lemma pm_claim_evolves: "pm_evolves w (snd (claim_tx token m ty k a t w))"
proof (cases "pm_at w m")
  case None
  then show ?thesis
    using pm_insert_evolves [where w = w and r = "\<lparr>pm_message_id = m, pm_message_type = ty, pm_job_id = k,
                 pm_attempt = a, pm_status = PmProcessing, pm_lease_token = token,
                 pm_lease_expires_at = t + leaseTTL, pm_completed_at = None\<rparr>"]
    by (auto simp: claim_tx_def sql_first_pm Let_def pm_evolves_refl split: option.splits)
next
  case (Some row)
  then show ?thesis
    using existing_evolves [where w = w and row = row and token = token and x = "t + leaseTTL"] lookup_key [OF Some]
    by (auto simp: claim_tx_def sql_first_pm Let_def pm_evolves_refl case_prod_beta)
qed

text \<open>
  A completed row under its own token stays; processing under an expired lease may move to another
  holder only when the token in the row is the one read in the same transaction.
\<close>

lemma lookup_leased:
  "lookup pm_message_id k (sql_update P (lease_pm token x) rows) =
     map_option (\<lambda>r. if P r then lease_pm token x r else r) (lookup pm_message_id k rows)"
  "lookup pm_message_id k (sql_update P (resume_pm token x) rows) =
     map_option (\<lambda>r. if P r then resume_pm token x r else r) (lookup pm_message_id k rows)"
  by (rule lookup_update, simp add: lease_pm_def resume_pm_def)+

lemma existing_grant:
  assumes "pm_at w m = Some row" and "handleExistingRow row token x w = ((tok, c), w')" and "grants c"
  shows "tok = token \<and> pm_at w' m = Some (row\<lparr>pm_status := PmProcessing, pm_lease_token := token,
           pm_lease_expires_at := x\<rparr>)"
proof -
  have key: "pm_message_id row = m" using lookup_key [OF assms(1)] by simp
  show ?thesis
  proof (cases "pm_status row")
    case PmProcessing
    moreover from this have "lease_pm token x row = row\<lparr>pm_status := PmProcessing, pm_lease_token := token,
        pm_lease_expires_at := x\<rparr>" by (simp add: lease_pm_def)
    ultimately show ?thesis
      using assms key by (auto simp: handleExistingRow_def grants_def lookup_leased split: if_splits)
  next
    case PmRetryScheduled
    then show ?thesis using assms key
      by (auto simp: handleExistingRow_def lookup_leased) (simp add: resume_pm_def)
  qed (use assms in \<open>auto simp: handleExistingRow_def grants_def\<close>)
qed

text \<open>A granted claim leaves the row of the message processing under the caller's token.\<close>

lemma claim_grant:
  assumes "claim_tx token m ty k a t w = (Inr (tok, c), w')" and "grants c"
  shows "tok = token \<and> (\<exists>r. pm_at w' m = Some r \<and> pm_status r = PmProcessing \<and> pm_lease_token r = token \<and>
    pm_lease_expires_at r = t + leaseTTL \<and> pm_message_type r = ty \<and> pm_job_id r = k)"
proof (cases "pm_at w m")
  case None
  then have "sql_first (\<lambda>r. pm_message_type r = ty \<and> pm_job_id r = k) (w_pm w) = None"
    using assms by (auto simp: claim_tx_def sql_first_pm Let_def handleConflictingRow_def grants_def
        split: option.splits pm_status.splits)
  with None assms show ?thesis by (auto simp: claim_tx_def sql_first_pm Let_def)
next
  case (Some row)
  then have ok: "pm_message_type row = ty" "pm_job_id row = k"
      "handleExistingRow row token (t + leaseTTL) w = ((tok, c), w')"
    using assms by (auto simp: claim_tx_def sql_first_pm Let_def grants_def split: if_splits prod.splits)
  with existing_grant [OF Some ok(3) assms(2)] show ?thesis by auto
qed

text \<open>A claim that does not grant changes nothing and hands out no token.\<close>

lemma claim_refusal:
  assumes "claim_tx token m ty k a t w = (Inr (tok, c), w')" and "\<not> grants c"
  shows "tok = [] \<and> w' = w"
  using assms
  by (auto simp: claim_tx_def Let_def handleExistingRow_def grants_def
      split: option.splits if_splits prod.splits pm_status.splits)

section \<open>Contracts for the consumer\<close>

definition pm_satisfies :: "(processed_message \<Rightarrow> bool) \<Rightarrow> world \<Rightarrow> string \<Rightarrow> bool" where
  "pm_satisfies Q w m = (\<exists>r. pm_at w m = Some r \<and> Q r)"

text \<open>The job of a message type is settled: some message of it was completed.\<close>

definition message_done :: "string \<Rightarrow> nat \<Rightarrow> world \<Rightarrow> bool" where
  "message_done ty k w = (pm_wf w \<and>
     (\<exists>r \<in> set (w_pm w). pm_message_type r = ty \<and> pm_job_id r = k \<and> pm_status r = PmCompleted))"

lemma message_done_evolves: "message_done ty k w \<Longrightarrow> pm_evolves w w' \<Longrightarrow> message_done ty k w'"
proof -
  assume "message_done ty k w" and ev: "pm_evolves w w'"
  then obtain r where r: "pm_wf w" "r \<in> set (w_pm w)" "pm_message_type r = ty" "pm_job_id r = k"
      "pm_status r = PmCompleted"
    by (auto simp: message_done_def)
  then have "pm_at w (pm_message_id r) = Some r" by (simp add: pm_wf_def lookup_distinct)
  with ev r(1) obtain r' where "pm_at w' (pm_message_id r) = Some r'" "pm_row_evolves r r'" "pm_wf w'"
    by (auto simp: pm_evolves_def)
  with r show ?thesis by (auto simp: message_done_def pm_row_evolves_def dest: lookup_key)
qed

lemma claim_already_done:
  assumes "pm_wf w" and "claim_tx token m ty k a t w = (Inr (tok, ClaimAlreadyDone), w')"
  shows "w' = w \<and> message_done ty k w"
proof -
  have w': "w' = w" using claim_refusal [OF assms(2)] by (simp add: grants_def)
  show ?thesis
  proof (cases "pm_at w m")
    case None
    then obtain r where r: "sql_first (\<lambda>r. pm_message_type r = ty \<and> pm_job_id r = k) (w_pm w) = Some r"
        "handleConflictingRow r = ClaimAlreadyDone"
      using assms(2) by (auto simp: claim_tx_def sql_first_pm Let_def split: option.splits)
    with w' assms(1) sql_first_job_Some [OF r(1)] show ?thesis
      by (auto simp: message_done_def handleConflictingRow_def split: pm_status.splits)
  next
    case (Some row)
    then have "pm_message_type row = ty" "pm_job_id row = k" "pm_status row = PmCompleted"
      using assms(2) by (auto simp: claim_tx_def sql_first_pm Let_def handleExistingRow_def
          split: if_splits prod.splits pm_status.splits)
    with w' assms(1) lookup_key [OF Some] show ?thesis by (auto simp: message_done_def)
  qed
qed

text \<open>Statements authenticated by a token, on one row, that keep the row evolving.\<close>

definition legal_pm_step :: "(processed_message \<Rightarrow> bool) \<Rightarrow> (processed_message \<Rightarrow> processed_message) \<Rightarrow> bool" where
  "legal_pm_step G f = (\<forall>r. pm_message_id (f r) = pm_message_id r \<and>
     (pm_message_type (f r), pm_job_id (f r)) = (pm_message_type r, pm_job_id r) \<and>
     (G r \<longrightarrow> pm_row_evolves r (f r)))"

lemma legal_pm_steps:
  "legal_pm_step (\<lambda>r. holds_pm token r \<and> pm_status r = PmProcessing) (\<lambda>r. r\<lparr>pm_lease_expires_at := x\<rparr>)"
  "legal_pm_step (\<lambda>r. holds_pm token r \<and> pm_status r = PmProcessing) (\<lambda>r. r\<lparr>pm_status := PmRetryScheduled\<rparr>)"
  "legal_pm_step (holds_pm token) (\<lambda>r. r\<lparr>pm_status := PmCompleted, pm_completed_at := Some t\<rparr>)"
  by (auto simp: legal_pm_step_def pm_row_evolves_def)

lemma legal_pm_evolves: "legal_pm_step G f \<Longrightarrow> pm_evolves w (snd (update_pm m G f w))"
  by (rule update_pm_evolves) (auto simp: legal_pm_step_def)

lemma update_pm_hit:
  assumes "pm_wf w" and "legal_pm_step G f" and "fst (update_pm m G f w) = Inr n" and "n \<noteq> 0"
  shows "pm_satisfies (\<lambda>r. \<exists>r0. G r0 \<and> r = f r0) (snd (update_pm m G f w)) m"
proof -
  have row: "guarded_update pm_message_id f"
    by unfold_locales (use assms(2) in \<open>simp add: legal_pm_step_def\<close>)
  show ?thesis
    using guarded_update.hit [OF row, of "w_pm w" m G] assms(1,3,4)
    by (auto simp: update_pm_def pm_wf_def pm_satisfies_def)
qed

lemma claim_touches_pm: "\<exists>rows. snd (claim_tx token m ty k a t w) = w\<lparr>w_pm := rows\<rparr>"
proof -
  have "\<exists>rows. w = w\<lparr>w_pm := rows\<rparr>" by (rule exI [of _ "w_pm w"]) simp
  then show ?thesis
    by (auto simp: claim_tx_def Let_def handleExistingRow_def
        split: option.splits pm_status.splits)
qed

locale pm_client = evolution +
  assumes R_pm: "R w w' \<Longrightarrow> pm_evolves w w'"
    and R_only_pm: "pm_evolves w (w\<lparr>w_pm := rows\<rparr>) \<Longrightarrow> R w (w\<lparr>w_pm := rows\<rparr>)"
begin

definition knows_pm :: "(world \<Rightarrow> bool) \<Rightarrow> bool" where
  "knows_pm P = (stable R P \<and> (\<forall>w. P w \<longrightarrow> pm_wf w))"

lemma knows_pm_step: "knows_pm P \<Longrightarrow> P w \<Longrightarrow> R w w' \<Longrightarrow> P w'"
  unfolding knows_pm_def stable_def by blast

lemma knows_pm_wf: "knows_pm P \<Longrightarrow> P w \<Longrightarrow> pm_wf w"
  unfolding knows_pm_def by blast

lemma stable_message_done: "stable R (message_done ty k)"
  unfolding stable_def using message_done_evolves R_pm by blast

lemma update_pm_R: "legal_pm_step G f \<Longrightarrow> R w (snd (update_pm m G f w))"
  using R_only_pm legal_pm_evolves [of G f w m] by (simp add: update_pm_def)

lemma claim_R: "R w (snd (claim_tx token m ty k a t w))"
proof -
  obtain rows where "snd (claim_tx token m ty k a t w) = w\<lparr>w_pm := rows\<rparr>"
    using claim_touches_pm [of token m ty k a t w] by blast
  then show ?thesis using R_only_pm pm_claim_evolves [of w token m ty k a t] by simp
qed

end

text \<open>The message has a row, and the row belongs to the job.\<close>

definition pm_names :: "string \<Rightarrow> string \<Rightarrow> nat \<Rightarrow> world \<Rightarrow> bool" where
  "pm_names m ty k w = (pm_wf w \<and> pm_satisfies (\<lambda>r. pm_message_type r = ty \<and> pm_job_id r = k) w m)"

lemma pm_names_evolves: "pm_names m ty k w \<Longrightarrow> pm_evolves w w' \<Longrightarrow> pm_names m ty k w'"
  by (fastforce simp: pm_names_def pm_satisfies_def pm_evolves_def pm_row_evolves_def)

lemma names_done:
  "pm_names m ty k w \<Longrightarrow> pm_satisfies (\<lambda>r. pm_status r = PmCompleted) w m \<Longrightarrow> message_done ty k w"
  by (auto simp: pm_names_def pm_satisfies_def message_done_def dest: lookup_key)

lemma pm_result_None: "pm_result op m r = None \<Longrightarrow> \<exists>n. r = Inr n \<and> n \<noteq> 0"
  by (auto simp: pm_result_def split: sum.splits if_splits)

context pm_client
begin

lemma stable_pm_names: "stable R (pm_names m ty k)"
  unfolding stable_def using pm_names_evolves R_pm by blast

lemma triple_update_pm:
  assumes P: "knows_pm P" and f: "legal_pm_step G f"
  shows "triple R P
           (State_Monad.bind (ext (update_pm m G f)) (\<lambda>r. State_Monad.return (pm_result op m r)))
           (\<lambda>r w. P w \<and> (r = None \<longrightarrow> pm_satisfies (\<lambda>r. \<exists>r0. G r0 \<and> r = f r0) w m))"
proof (rule triple_bind [OF triple_ext
      [where Q = "\<lambda>r w. P w \<and> (\<forall>n. r = Inr n \<longrightarrow> n \<noteq> 0 \<longrightarrow> pm_satisfies (\<lambda>r. \<exists>r0. G r0 \<and> r = f r0) w m)"]])
  show "stable R P" using P by (simp add: knows_pm_def)
  fix w assume w: "P w"
  note step = knows_pm_step [OF P w update_pm_R [OF f]]
  show "P (snd (update_pm m G f w)) \<and> (\<forall>n. fst (update_pm m G f w) = Inr n \<longrightarrow> n \<noteq> 0 \<longrightarrow>
      pm_satisfies (\<lambda>r. \<exists>r0. G r0 \<and> r = f r0) (snd (update_pm m G f w)) m)"
    using step update_pm_hit [OF knows_pm_wf [OF P w] f] by blast
  fix e :: go_error
  show "P w \<and> (\<forall>n. Inl e = Inr n \<longrightarrow> n \<noteq> 0 \<longrightarrow> pm_satisfies (\<lambda>r. \<exists>r0. G r0 \<and> r = f r0) w m)"
    using w by simp
  show "P (snd (update_pm m G f w)) \<and> (\<forall>n. Inl e = Inr n \<longrightarrow> n \<noteq> 0 \<longrightarrow>
      pm_satisfies (\<lambda>r. \<exists>r0. G r0 \<and> r = f r0) (snd (update_pm m G f w)) m)"
    using step by simp
qed (rule triple_return, auto dest: pm_result_None)

lemma triple_mark_completed:
  assumes "knows_pm P" and "\<And>w. P w \<Longrightarrow> pm_names m ty k w"
  shows "triple R P (mark_completed m token t) (\<lambda>r w. P w \<and> (r = None \<longrightarrow> message_done ty k w))"
  unfolding mark_completed_def
  by (rule triple_conseq [OF triple_update_pm [OF assms(1) legal_pm_steps(3)]])
     (auto intro!: names_done [OF assms(2)] simp: pm_satisfies_def)

lemma triple_mark_retry_scheduled:
  assumes "knows_pm P"
  shows "triple R P (mark_retry_scheduled m token)
    (\<lambda>r w. P w \<and> (r = None \<longrightarrow> pm_satisfies (\<lambda>r. pm_status r = PmRetryScheduled) w m))"
  unfolding mark_retry_scheduled_def
  by (rule triple_conseq [OF triple_update_pm [OF assms legal_pm_steps(2)]]) (auto simp: pm_satisfies_def)

lemma triple_renew:
  assumes "knows_pm P"
  shows "triple R P (renew m token t) (\<lambda>_. P)"
  unfolding renew_def
  by (rule triple_conseq [OF triple_update_pm [OF assms legal_pm_steps(1)]]) auto

lemma triple_claim:
  assumes P: "knows_pm P"
  shows "triple R P (claim token m ty k a t)
    (\<lambda>r w. P w \<and> (\<forall>tok c. r = Inr (tok, c) \<longrightarrow>
       (grants c \<longrightarrow> tok = token \<and> pm_names m ty k w) \<and> (c = ClaimAlreadyDone \<longrightarrow> message_done ty k w)))"
  unfolding claim_def
proof (rule triple_bind [OF triple_ext
      [where Q = "\<lambda>r w. P w \<and> (\<forall>tok c. r = Inr (tok, c) \<longrightarrow>
       (grants c \<longrightarrow> tok = token \<and> pm_names m ty k w) \<and> (c = ClaimAlreadyDone \<longrightarrow> message_done ty k w))"]])
  show "stable R P" using P by (simp add: knows_pm_def)
  fix w assume w: "P w"
  let ?r = "claim_tx token m ty k a t w"
  note step = knows_pm_step [OF P w claim_R]
  show "P (snd ?r) \<and> (\<forall>tok c. fst ?r = Inr (tok, c) \<longrightarrow>
       (grants c \<longrightarrow> tok = token \<and> pm_names m ty k (snd ?r)) \<and>
       (c = ClaimAlreadyDone \<longrightarrow> message_done ty k (snd ?r)))"
  proof (intro conjI allI impI)
    fix tok c assume r: "fst ?r = Inr (tok, c)"
    then have eq: "?r = (Inr (tok, c), snd ?r)" by (simp add: prod_eq_iff)
    show "tok = token" "pm_names m ty k (snd ?r)" if "grants c"
      using claim_grant [OF eq that] knows_pm_wf [OF P step] by (auto simp: pm_names_def pm_satisfies_def)
    show "message_done ty k (snd ?r)" if "c = ClaimAlreadyDone"
      using claim_already_done [OF knows_pm_wf [OF P w] eq [unfolded that]] by simp
  qed (rule step)
  fix e :: go_error
  show "P w \<and> (\<forall>tok c. Inl e = Inr (tok, c) \<longrightarrow>
       (grants c \<longrightarrow> tok = token \<and> pm_names m ty k w) \<and> (c = ClaimAlreadyDone \<longrightarrow> message_done ty k w))"
    using w by simp
  show "P (snd ?r) \<and> (\<forall>tok c. Inl e = Inr (tok, c) \<longrightarrow>
       (grants c \<longrightarrow> tok = token \<and> pm_names m ty k (snd ?r)) \<and>
       (c = ClaimAlreadyDone \<longrightarrow> message_done ty k (snd ?r)))"
    using step by simp
qed (rule triple_return, auto split: sum.splits)

end

interpretation pm_evol: pm_client pm_evolves
proof
  show "pm_evolves w w" for w by (rule pm_evolves_refl)
  show "pm_evolves a c" if "pm_evolves a b" and "pm_evolves b c" for a b c
    using that unfolding pm_evolves_def by (meson pm_row_evolves_trans order_trans)
  show "pm_evolves w (tick d w)" for w d
    by (rule pm_evolves_same) (simp_all add: tick_def)
qed

section \<open>Properties\<close>

text \<open>A job's row decides every claim for the job made under another message id.\<close>

lemma claim_other_message:
  assumes "pm_wf w" and "pm_at w m = Some r" and "m' \<noteq> m"
  shows "claim_tx token' m' (pm_message_type r) (pm_job_id r) a t w =
    (Inr ([], if pm_at w m' = None then handleConflictingRow r else ClaimConflict), w)"
proof (cases "pm_at w m'")
  case None
  let ?P = "\<lambda>x. pm_message_type x = pm_message_type r \<and> pm_job_id x = pm_job_id r"
  have r: "r \<in> set (w_pm w)" using lookup_key [OF assms(2)] by simp
  then obtain c where c: "sql_first ?P (w_pm w) = Some c"
    using sql_first_job_None [of "pm_message_type r" "pm_job_id r" "w_pm w"]
    by (cases "sql_first ?P (w_pm w)") auto
  have "c = r"
    using sql_first_job_Some [OF c] r assms(1) by (auto simp: pm_wf_def distinct_map dest: inj_onD)
  with c None show ?thesis by (simp add: claim_tx_def sql_first_pm)
next
  case (Some r')
  then have "r' \<noteq> r" "r \<in> set (w_pm w)" "r' \<in> set (w_pm w)"
    using lookup_key [OF Some] lookup_key [OF assms(2)] assms(3) by auto
  then have "\<not> (pm_message_type r' = pm_message_type r \<and> pm_job_id r' = pm_job_id r)"
    using assms(1) by (auto simp: pm_wf_def distinct_map dest!: inj_onD)
  with Some show ?thesis by (auto simp: claim_tx_def sql_first_pm)
qed



text \<open>
  C19. Fencing: after another worker took the message over, the previous holder can no longer extend
  the lease, schedule a retry or complete the message; each call reports ErrLeaseLost and changes
  nothing.
\<close>

theorem stale_worker_is_fenced:
  assumes "pm_wf w" and "claim_tx token m ty k a t w = (Inr (tok, c), w')" and "grants c" and "stale \<noteq> token"
    and "op \<in> {renew m stale t', mark_retry_scheduled m stale, mark_completed m stale t'}"
  shows "\<exists>e. run_state op (quiet w') = (Some e, quiet w') \<and> errors_is e ErrLeaseLost"
proof -
  have "pm_wf w'" using pm_claim_evolves [of w token m ty k a t] assms(1,2) by (simp add: pm_evolves_def)
  then have d: "distinct (map pm_message_id (w_pm w'))" by (simp add: pm_wf_def)
  have "Some (pm_lease_token r) \<noteq> Some stale" if "pm_at w' m = Some r" for r
    using claim_grant [OF assms(2,3)] that assms(4) by auto
  note stale = renew_lease.stale_token_no_effect [OF d this] retry_lease.stale_token_no_effect [OF d this]
    complete_lease.stale_token_no_effect [OF d this]
  show ?thesis
    using assms(5) stale
    by (auto simp: renew_def mark_retry_scheduled_def mark_completed_def quiet_def update_pm_def pm_result_def)
qed

theorem stale_worker_is_fenced_witness:
  "\<exists>e w'. snd (claim_tx ''b'' ''m1'' ''t'' 4 0 9 empty_world) = w' \<and>
     fst (run_state (mark_completed ''m1'' ''old'' 8) (quiet w')) = Some e \<and> errors_is e ErrLeaseLost"
proof -
  let ?r = "claim_tx ''b'' ''m1'' ''t'' 4 0 9 empty_world"
  have "?r = (Inr (''b'', ClaimGranted), snd ?r)"
    by (simp add: claim_tx_def sql_first_def empty_world_def)
  moreover have "pm_wf empty_world" by (simp add: pm_wf_def empty_world_def)
  ultimately show ?thesis
    using stale_worker_is_fenced [of empty_world "''b''" "''m1''" "''t''" 4 0 9 "''b''" ClaimGranted "snd ?r"
        "''old''" "mark_completed ''m1'' ''old'' 8" 8]
    by (auto simp: grants_def)
qed

text \<open>
  A settled job stays settled: once a message of the job was completed, whatever happens to the
  log afterwards, no claim for that job is ever granted again; the same message is reported as
  already done.
\<close>

theorem completed_job_is_never_claimed_again:
  assumes "pm_wf w" and "pm_at w m = Some r" and "pm_status r = PmCompleted" and "pm_evolves w w'"
  shows "\<exists>c. claim_tx token m' (pm_message_type r) (pm_job_id r) a t w' = (Inr ([], c), w') \<and>
    \<not> grants c \<and> (m' = m \<longrightarrow> c = ClaimAlreadyDone)"
proof -
  obtain r' where r': "pm_wf w'" "pm_at w' m = Some r'" "pm_row_evolves r r'"
    using assms(1,2,4) by (auto simp: pm_evolves_def)
  then have fin: "pm_status r' = PmCompleted" "pm_message_type r' = pm_message_type r"
      "pm_job_id r' = pm_job_id r"
    using assms(3) by (auto simp: pm_row_evolves_def)
  show ?thesis
  proof (cases "m' = m")
    case True
    with r' fin show ?thesis
      by (auto simp: claim_tx_def sql_first_pm handleExistingRow_def grants_def)
  next
    case False
    with claim_other_message [OF r'(1,2) False, of token a t] fin show ?thesis
      by (auto simp: handleConflictingRow_def grants_def)
  qed
qed

theorem completed_job_is_never_claimed_again_witness:
  "\<exists>c. claim_tx ''b'' ''m2'' ''t'' 4 0 9 (empty_world\<lparr>w_pm := [\<lparr>pm_message_id = ''m1'', pm_message_type = ''t'',
       pm_job_id = 4, pm_attempt = 0, pm_status = PmCompleted, pm_lease_token = ''a'', pm_lease_expires_at = 40,
       pm_completed_at = Some 8\<rparr>]\<rparr>) = (Inr ([], c), empty_world\<lparr>w_pm := [\<lparr>pm_message_id = ''m1'',
       pm_message_type = ''t'', pm_job_id = 4, pm_attempt = 0, pm_status = PmCompleted, pm_lease_token = ''a'',
       pm_lease_expires_at = 40, pm_completed_at = Some 8\<rparr>]\<rparr>) \<and> \<not> grants c"
proof -
  define r where "r = \<lparr>pm_message_id = ''m1'', pm_message_type = ''t'',
       pm_job_id = 4, pm_attempt = 0, pm_status = PmCompleted, pm_lease_token = ''a'', pm_lease_expires_at = 40,
       pm_completed_at = Some 8\<rparr>"
  define w where "w = empty_world\<lparr>w_pm := [r]\<rparr>"
  have "pm_wf w" "pm_at w ''m1'' = Some r" "pm_status r = PmCompleted" "pm_evolves w w"
      "pm_message_type r = ''t''" "pm_job_id r = 4"
    by (simp_all add: w_def r_def pm_wf_def pm_evolves_refl)
  then show ?thesis
    using completed_job_is_never_claimed_again [of w "''m1''" r w "''b''" "''m2''" 0 9]
    unfolding w_def r_def by auto
qed

end
