(* ===== verification/Publisher.thy ===== *)
theory Publisher
  imports Idempotency
begin

text \<open>
  Publishing (internal/queryjob/publisher.go and message.go): the topology the processes declare, the
  confirm publisher's reading of the broker's answer, and the messages built for the main, retry
  and dead-letter queues. The broker itself is a parameter, \<open>route\<close>; \<open>amqp_route\<close> states what the
  AMQP documentation promises of it. The lemmas show that the topology closes the retry loop, that a
  publish reported as successful did reach the queue, and that queues only grow.
\<close>

section \<open>Names\<close>

definition mqExchange :: string where "mqExchange = ''askdb.events''"
definition mqQueue :: string where "mqQueue = ''askdb.query.execution''"
definition mqRoutingKey :: string where "mqRoutingKey = ''query.execution.requested''"

definition mqRetryExchange :: string where "mqRetryExchange = ''askdb.retry''"
definition mqRetryQueue :: string where "mqRetryQueue = ''askdb.query.retry''"
definition mqRetryRoutingKey :: string where "mqRetryRoutingKey = ''query.execution.retry''"

definition mqDLQExchange :: string where "mqDLQExchange = ''askdb.dlq''"
definition mqDLQQueue :: string where "mqDLQQueue = ''askdb.query.dlq''"
definition mqDLQRoutingKey :: string where "mqDLQRoutingKey = ''query.execution.dlq''"

lemmas mq_names = mqExchange_def mqQueue_def mqRoutingKey_def mqRetryExchange_def mqRetryQueue_def
  mqRetryRoutingKey_def mqDLQExchange_def mqDLQQueue_def mqDLQRoutingKey_def

section \<open>Topology\<close>

text \<open>
  A declaration call on the channel; each adds to what is declared, or fails. Declaring a queue again
  with other arguments is refused (\<open>PRECONDITION_FAILED\<close>).
\<close>

datatype mq_declaration =
    ExchangeDeclare string
  | QueueDeclare string amqp_table
  | QueueBind string string string

fun declaration_name :: "mq_declaration \<Rightarrow> string" where
  "declaration_name (ExchangeDeclare _) = ''exchange declare''"
| "declaration_name (QueueDeclare _ _) = ''queue declare''"
| "declaration_name (QueueBind _ _ _) = ''queue bind''"

fun apply_declaration :: "mq_declaration \<Rightarrow> world \<Rightarrow> (go_error + unit) \<times> world" where
  "apply_declaration (ExchangeDeclare x) w = (Inr (), w\<lparr>w_exchanges := List.insert x (w_exchanges w)\<rparr>)"
| "apply_declaration (QueueDeclare q args) w =
     (case map_of (w_queue_args w) q of
        None \<Rightarrow> (Inr (), w\<lparr>w_queue_args := (q, args) # w_queue_args w\<rparr>)
      | Some args' \<Rightarrow> (if args' = args then (Inr (), w)
                       else (Inl (NewError ''PRECONDITION_FAILED''), w)))"
| "apply_declaration (QueueBind q key x) w =
     (Inr (), w\<lparr>w_bindings := List.insert (q, key, x) (w_bindings w)\<rparr>)"

fun declare_all :: "string \<Rightarrow> (string \<times> mq_declaration) list \<Rightarrow> go_error option prog" where
  "declare_all p [] = State_Monad.return None"
| "declare_all p ((label, d) # ds) = do {
     r \<leftarrow> ext (apply_declaration d);
     (case r of
        Inl e \<Rightarrow> State_Monad.return (Some (Wrap (label @ declaration_name d @ '': '') e ''''))
      | Inr _ \<Rightarrow> declare_all p ds)
   }"

definition declareMQTopology :: "go_error option prog" where
  "declareMQTopology = declare_all ''''
     [('''', ExchangeDeclare mqExchange), ('''', QueueDeclare mqQueue []),
      ('''', QueueBind mqQueue mqRoutingKey mqExchange)]"

definition declareRetryTopology :: "int \<Rightarrow> go_error option prog" where
  "declareRetryTopology retryDelayMs = declare_all ''''
     [(''retry '', ExchangeDeclare mqRetryExchange),
      (''retry '', QueueDeclare mqRetryQueue
         [(''x-message-ttl'', AmqpInt64 retryDelayMs),
          (''x-dead-letter-exchange'', AmqpString mqExchange),
          (''x-dead-letter-routing-key'', AmqpString mqRoutingKey)]),
      (''retry '', QueueBind mqRetryQueue mqRetryRoutingKey mqRetryExchange),
      (''dlq '', ExchangeDeclare mqDLQExchange),
      (''dlq '', QueueDeclare mqDLQQueue []),
      (''dlq '', QueueBind mqDLQQueue mqDLQRoutingKey mqDLQExchange)]"

section \<open>The confirm publisher\<close>

text \<open>
  What the \<open>select\<close> of \<open>confirmPub.publish\<close> sees first: the publish call itself failing, a returned
  message, the confirmation (positive or not, with a return that may have arrived before it), the
  timer (with the timeout as it is printed), or the end of the context.
\<close>

datatype broker_reply =
    PublishCallFailed go_error
  | Returned nat string
  | Confirmed bool "(nat \<times> string) option"
  | ConfirmTimeout string
  | CtxDone go_error

definition returned_error :: "nat \<Rightarrow> string \<Rightarrow> go_error" where
  "returned_error code msg = NewError (''confirm pub: message returned reply_code='' @ format_uint code @ '': '' @ msg)"

fun confirm_select :: "broker_reply \<Rightarrow> go_error option" where
  "confirm_select (PublishCallFailed e) = Some (Wrap ''confirm pub: publish: '' e '''')"
| "confirm_select (Returned code msg) = Some (returned_error code msg)"
| "confirm_select (Confirmed acked ret) =
     (if \<not> acked then Some (NewError ''confirm pub: broker nacked'')
      else case ret of Some (code, msg) \<Rightarrow> Some (returned_error code msg) | None \<Rightarrow> None)"
| "confirm_select (ConfirmTimeout t) = Some (NewError (''confirm pub: confirm timeout after '' @ t))"
| "confirm_select (CtxDone e) = Some e"

type_synonym route = "string \<Rightarrow> string \<Rightarrow> publishing \<Rightarrow> world \<Rightarrow> broker_reply \<times> world"

definition confirm_publish :: "route \<Rightarrow> string \<Rightarrow> string \<Rightarrow> publishing \<Rightarrow> go_error option prog" where
  "confirm_publish route exchange routingKey pub = do {
     r \<leftarrow> ext (\<lambda>w. case route exchange routingKey pub w of (reply, w') \<Rightarrow>
            (case confirm_select reply of None \<Rightarrow> Inr () | Some e \<Rightarrow> Inl e, w'));
     State_Monad.return (case r of Inl e \<Rightarrow> Some e | Inr _ \<Rightarrow> None)
   }"

text \<open>The constructors: declare, then put the channel into confirm mode.\<close>

definition newConfirmPub :: "go_error option prog" where
  "newConfirmPub = do {
     r \<leftarrow> ext (\<lambda>w. (Inr (), w));
     State_Monad.return (case r of
         Inl e \<Rightarrow> Some (Wrap ''confirm pub: enable confirm mode: '' e '''') | Inr u \<Rightarrow> None)
   }"

definition newRabbitMQPublisher :: "go_error option prog" where
  "newRabbitMQPublisher = do {
     r \<leftarrow> declareMQTopology;
     (case r of
        Some e \<Rightarrow> State_Monad.return (Some (Wrap ''publisher: declare topology: '' e ''''))
      | None \<Rightarrow> do {
          c \<leftarrow> newConfirmPub;
          State_Monad.return (map_option (\<lambda>e. Wrap ''publisher: '' e '''') c)
        })
   }"

definition newRabbitMQRetryPublisher :: "int \<Rightarrow> go_error option prog" where
  "newRabbitMQRetryPublisher retryDelayMs = do {
     r \<leftarrow> declareRetryTopology retryDelayMs;
     (case r of
        Some e \<Rightarrow> State_Monad.return (Some (Wrap ''retry publisher: declare topology: '' e ''''))
      | None \<Rightarrow> do {
          c \<leftarrow> newConfirmPub;
          State_Monad.return (map_option (\<lambda>e. Wrap ''retry publisher: '' e '''') c)
        })
   }"

section \<open>Messages\<close>

definition wrap_error :: "string \<Rightarrow> go_error option \<Rightarrow> go_error option" where
  "wrap_error p = map_option (\<lambda>e. Wrap p e '''')"

definition envelope_publishing :: "query_job_message \<Rightarrow> amqp_table option \<Rightarrow> publishing" where
  "envelope_publishing msg headers = \<lparr>
     pb_content_type = ''application/json'', pb_persistent = True, pb_message_id = mg_message_id msg,
     pb_type = mg_type msg, pb_timestamp = mg_occurred_at msg, pb_headers = headers,
     pb_body = JsonBody msg\<rparr>"

definition publish_job :: "route \<Rightarrow> string \<Rightarrow> nat \<Rightarrow> go_error option prog" where
  "publish_job route messageID jobID = do {
     t \<leftarrow> now;
     r \<leftarrow> confirm_publish route mqExchange mqRoutingKey (envelope_publishing
            \<lparr>mg_message_id = messageID, mg_type = MessageTypeQueryExecutionRequested,
             mg_version = messageVersion, mg_occurred_at = t, mg_job_id = jobID\<rparr> None);
     State_Monad.return (wrap_error (''publisher: publish job_id='' @ format_uint jobID @ '': '') r)
   }"

text \<open>\<open>int32(attempt)\<close> wraps; the attempts the worker passes are small.\<close>

definition buildWorkerPublishing :: "nat \<Rightarrow> string \<Rightarrow> int \<Rightarrow> instant \<Rightarrow> publishing" where
  "buildWorkerPublishing jobID messageID attempt t = envelope_publishing
     \<lparr>mg_message_id = messageID, mg_type = MessageTypeQueryExecutionRequested,
      mg_version = messageVersion, mg_occurred_at = t, mg_job_id = jobID\<rparr>
     (Some [(HeaderAttempt, AmqpInt32 (int32_of attempt))])"

definition publish_retry :: "route \<Rightarrow> nat \<Rightarrow> string \<Rightarrow> int \<Rightarrow> go_error option prog" where
  "publish_retry route jobID messageID attempt = do {
     t \<leftarrow> now;
     r \<leftarrow> confirm_publish route mqRetryExchange mqRetryRoutingKey
            (buildWorkerPublishing jobID messageID attempt t);
     State_Monad.return (wrap_error (''retry publisher: publish retry job_id='' @ format_uint jobID @ '': '') r)
   }"

definition publish_dlq :: "route \<Rightarrow> nat \<Rightarrow> string \<Rightarrow> int \<Rightarrow> go_error option prog" where
  "publish_dlq route jobID messageID attempt = do {
     t \<leftarrow> now;
     r \<leftarrow> confirm_publish route mqDLQExchange mqDLQRoutingKey
            (buildWorkerPublishing jobID messageID attempt t);
     State_Monad.return (wrap_error (''retry publisher: publish dlq job_id='' @ format_uint jobID @ '': '') r)
   }"

text \<open>dispatcher.go: the message of an outbox event is rebuilt from the stored columns.\<close>

definition outbox_message :: "outbox_event \<Rightarrow> query_job_message" where
  "outbox_message e = \<lparr>mg_message_id = ob_message_id e, mg_type = ob_event_type e,
     mg_version = ob_version e, mg_occurred_at = ob_occurred_at e, mg_job_id = ob_job_id e\<rparr>"

definition publish_outbox :: "route \<Rightarrow> outbox_event \<Rightarrow> go_error option prog" where
  "publish_outbox route e = do {
     r \<leftarrow> confirm_publish route mqExchange mqRoutingKey (envelope_publishing (outbox_message e) None);
     State_Monad.return (wrap_error (''dispatcher: publish outbox event id='' @ format_uint (ob_id e) @
        '' job_id='' @ format_uint (ob_job_id e) @ '': '') r)
   }"

section \<open>What the broker promises\<close>

text \<open>
  The documented behaviour of AMQP the code relies on: a publish changes nothing but the queues and
  takes no message away; its errors are errors of the driver; and a positive confirmation of a mandatory message that was not returned
  means that the message is in at least one queue, and in every queue bound with the routing key.
\<close>

definition amqp_route :: "route \<Rightarrow> bool" where
  "amqp_route route = (\<forall>x key pub w reply w'. route x key pub w = (reply, w') \<longrightarrow>
     (\<exists>qs. w' = w\<lparr>w_queues := qs\<rparr>) \<and>
     (\<forall>q. set (queue_at w q) \<subseteq> set (queue_at w' q)) \<and>
     (\<forall>e. reply = PublishCallFailed e \<or> reply = CtxDone e \<longrightarrow> driver_error e) \<and>
     (reply = Confirmed True None \<longrightarrow>
        (\<exists>q. (q, key, x) \<in> set (w_bindings w)) \<and>
        (\<forall>q. (q, key, x) \<in> set (w_bindings w) \<longrightarrow> pub \<in> set (queue_at w' q))))"

lemma amqp_routeD:
  assumes "amqp_route route" and "route x key pub w = (reply, w')"
  shows "\<exists>qs. w' = w\<lparr>w_queues := qs\<rparr>" and "set (queue_at w q) \<subseteq> set (queue_at w' q)"
    and "reply = PublishCallFailed e \<or> reply = CtxDone e \<Longrightarrow> driver_error e"
    and "reply = Confirmed True None \<Longrightarrow> (q, key, x) \<in> set (w_bindings w) \<Longrightarrow> pub \<in> set (queue_at w' q)"
proof -
  note h = assms(1) [unfolded amqp_route_def, THEN spec, THEN spec, THEN spec, THEN spec, THEN spec,
      THEN spec, THEN mp, OF assms(2)]
  show "\<exists>qs. w' = w\<lparr>w_queues := qs\<rparr>" by (rule h [THEN conjunct1])
  show "set (queue_at w q) \<subseteq> set (queue_at w' q)" by (rule h [THEN conjunct2, THEN conjunct1, THEN spec])
  show "driver_error e" if "reply = PublishCallFailed e \<or> reply = CtxDone e"
    by (rule h [THEN conjunct2, THEN conjunct2, THEN conjunct1, THEN spec, THEN mp, OF that])
  show "pub \<in> set (queue_at w' q)" if "reply = Confirmed True None" "(q, key, x) \<in> set (w_bindings w)"
    by (rule h [THEN conjunct2, THEN conjunct2, THEN conjunct2, THEN mp, OF that(1), THEN conjunct2, THEN spec,
          THEN mp, OF that(2)])
qed

text \<open>A direct exchange, the kind the code declares, as an instance.\<close>

definition enqueue :: "string list \<Rightarrow> publishing \<Rightarrow> world \<Rightarrow> world" where
  "enqueue qs pub w = w\<lparr>w_queues :=
     map (\<lambda>q. (q, queue_at w q @ [pub])) (remdups qs) @ w_queues w\<rparr>"

definition direct_route :: route where
  "direct_route x key pub w =
     (let qs = map fst (filter (\<lambda>(q, k, y). k = key \<and> y = x) (w_bindings w)) in
      if qs = [] then (Returned 312 ''NO_ROUTE'', w) else (Confirmed True None, enqueue qs pub w))"

lemma enqueue_at:
  "queue_at (enqueue qs pub w) q = (if q \<in> set qs then queue_at w q @ [pub] else queue_at w q)"
proof -
  have "map_of (map (\<lambda>q. (q, queue_at w q @ [pub])) (remdups qs)) q =
      (if q \<in> set qs then Some (queue_at w q @ [pub]) else None)"
    using map_of_map_restrict [of "\<lambda>q. queue_at w q @ [pub]" "remdups qs"]
    by (simp add: o_def restrict_map_def)
  then show ?thesis by (simp add: enqueue_def map_add_def map_of_append)
qed

lemma direct_route_amqp [simp]: "amqp_route direct_route"
  unfolding amqp_route_def
proof (intro allI impI conjI)
  fix x key pub w reply w' assume r: "direct_route x key pub w = (reply, w')"
  define qs where "qs = map fst (filter (\<lambda>(q, k, y). k = key \<and> y = x) (w_bindings w))"
  have mem: "q \<in> set qs \<longleftrightarrow> (q, key, x) \<in> set (w_bindings w)" for q by (force simp: qs_def)
  have w': "w' = w \<or> w' = enqueue qs pub w"
    using r by (auto simp: direct_route_def Let_def qs_def split: if_splits)
  then show "\<exists>qs. w' = w\<lparr>w_queues := qs\<rparr>"
    by (auto simp: enqueue_def intro: exI [of _ "w_queues w"])
  have "set (queue_at w q) \<subseteq> set (queue_at (enqueue qs pub w) q)" for q
    unfolding enqueue_at by (cases "q \<in> set qs") (simp_all add: subset_insertI)
  then show "set (queue_at w q) \<subseteq> set (queue_at w' q)" for q
    using w' by (elim disjE) (simp_all only: order_refl)
  show "driver_error e" if "reply = PublishCallFailed e \<or> reply = CtxDone e" for e
    using that r by (auto simp: direct_route_def Let_def split: if_splits)
  assume "reply = Confirmed True None"
  then have ok: "qs \<noteq> []" "w' = enqueue qs pub w"
    using r by (auto simp: direct_route_def Let_def qs_def split: if_splits)
  show "\<exists>q. (q, key, x) \<in> set (w_bindings w)"
    using ok(1) mem by (metis list.set_intros(1) neq_Nil_conv)
  show "pub \<in> set (queue_at w' q)" if "(q, key, x) \<in> set (w_bindings w)" for q
    using ok(2) mem that by (simp add: enqueue_at)
qed

section \<open>The broker over time\<close>

text \<open>
  Nothing is taken from the history of a queue, and no exchange, queue or binding is removed or
  redefined (the code never deletes or unbinds).
\<close>

definition broker_grows :: "world \<Rightarrow> world \<Rightarrow> bool" where
  "broker_grows w w' = ((\<forall>q. set (queue_at w q) \<subseteq> set (queue_at w' q)) \<and>
     set (w_bindings w) \<subseteq> set (w_bindings w') \<and> set (w_exchanges w) \<subseteq> set (w_exchanges w') \<and>
     map_of (w_queue_args w) \<subseteq>\<^sub>m map_of (w_queue_args w') \<and> w_clock w \<le> w_clock w')"

lemma broker_grows_same:
  "w_queues w' = w_queues w \<Longrightarrow> w_bindings w' = w_bindings w \<Longrightarrow> w_exchanges w' = w_exchanges w \<Longrightarrow>
     w_queue_args w' = w_queue_args w \<Longrightarrow> w_clock w \<le> w_clock w' \<Longrightarrow> broker_grows w w'"
  by (simp add: broker_grows_def)

interpretation broker_evol: evolution broker_grows
proof
  show "broker_grows w w" for w by (simp add: broker_grows_def)
  show "broker_grows a c" if "broker_grows a b" and "broker_grows b c" for a b c
    using that unfolding broker_grows_def by (meson order_trans map_le_trans)
  show "broker_grows w (tick d w)" for w d
    by (rule broker_grows_same) (simp_all add: tick_def)
qed

lemma route_grows:
  assumes "amqp_route route" and "route x key pub w = (reply, w')"
  shows "broker_grows w w'"
proof -
  obtain qs where w': "w' = w\<lparr>w_queues := qs\<rparr>" using amqp_routeD(1) [OF assms] by blast
  have "set (queue_at w q) \<subseteq> set (queue_at w' q)" for q by (rule amqp_routeD(2) [OF assms])
  then show ?thesis unfolding broker_grows_def by (simp add: w')
qed

lemma route_only_queues:
  assumes "amqp_route route" and "route x key pub w = (reply, w')"
  obtains qs where "w' = w\<lparr>w_queues := qs\<rparr>"
  using amqp_routeD(1) [OF assms] by blast

lemma confirm_select_None: "confirm_select r = None \<longleftrightarrow> r = Confirmed True None"
  by (cases r rule: confirm_select.cases) (auto split: option.splits)

text \<open>The exchange and key are bound to the queue.\<close>

definition bound :: "string \<Rightarrow> string \<Rightarrow> string \<Rightarrow> world \<Rightarrow> bool" where
  "bound q key x w = ((q, key, x) \<in> set (w_bindings w))"

definition sent :: "string \<Rightarrow> publishing \<Rightarrow> world \<Rightarrow> bool" where
  "sent q pub w = (pub \<in> set (queue_at w q))"

definition retry_sent :: "nat \<Rightarrow> string \<Rightarrow> int \<Rightarrow> world \<Rightarrow> bool" where
  "retry_sent k m a w = (\<exists>t. sent mqRetryQueue (buildWorkerPublishing k m a t) w)"

definition dlq_sent :: "nat \<Rightarrow> string \<Rightarrow> int \<Rightarrow> world \<Rightarrow> bool" where
  "dlq_sent k m a w = (\<exists>t. sent mqDLQQueue (buildWorkerPublishing k m a t) w)"

lemma bound_grows: "bound q key x w \<Longrightarrow> broker_grows w w' \<Longrightarrow> bound q key x w'"
  by (auto simp: bound_def broker_grows_def)

lemma sent_grows: "sent q pub w \<Longrightarrow> broker_grows w w' \<Longrightarrow> sent q pub w'"
  unfolding sent_def broker_grows_def by blast

lemma route_confirmed:
  assumes "amqp_route route" and "route x key pub w = (reply, w')" and "confirm_select reply = None"
    and "bound q key x w"
  shows "sent q pub w'"
  using amqp_routeD(4) [OF assms(1,2)] assms(3,4) unfolding confirm_select_None bound_def sent_def by blast

text \<open>Declarations.\<close>

fun declared :: "mq_declaration \<Rightarrow> world \<Rightarrow> bool" where
  "declared (ExchangeDeclare x) w = (x \<in> set (w_exchanges w))"
| "declared (QueueDeclare q args) w = (map_of (w_queue_args w) q = Some args)"
| "declared (QueueBind q key x) w = bound q key x w"

lemma declared_grows: "declared d w \<Longrightarrow> broker_grows w w' \<Longrightarrow> declared d w'"
  by (cases d) (auto simp: broker_grows_def map_le_def dom_def bound_def)

lemma apply_declaration_grows: "broker_grows w (snd (apply_declaration d w))"
  by (cases d) (auto simp: broker_grows_def map_le_def split: option.splits)

lemma apply_declaration_declares: "fst (apply_declaration d w) = Inr () \<Longrightarrow> declared d (snd (apply_declaration d w))"
  by (cases d) (auto simp: bound_def split: option.splits if_splits)

lemma confirm_select_error:
  assumes "amqp_route route" and "confirm_select (fst (route x key pub w)) = Some e"
  shows "driver_error e"
proof -
  have "driver_error e'" if "fst (route x key pub w) = PublishCallFailed e' \<or> fst (route x key pub w) = CtxDone e'" for e'
    by (rule amqp_routeD(3) [OF assms(1) surjective_pairing that])
  with assms(2) show ?thesis
    by (cases "fst (route x key pub w)") (auto simp: returned_error_def split: if_splits option.splits)
qed

text \<open>
  The contract of every publish: under any relation that implies growth of the broker and admits
  publishes, a \<open>nil\<close> result means the message is in every queue bound to the exchange and key.
\<close>

locale broker_client = evolution +
  assumes R_broker: "R w w' \<Longrightarrow> broker_grows w w'"
    and R_route: "amqp_route route \<Longrightarrow> R w (snd (route x key pub w))"
    and R_declare: "R w (snd (apply_declaration d w))"
begin

lemma stable_declared: "stable R (declared d)"
  unfolding stable_def using declared_grows R_broker by blast

lemma triple_declare_all:
  "stable R P \<Longrightarrow> triple R P (declare_all p ds)
     (\<lambda>r w. P w \<and> (r = None \<longrightarrow> (\<forall>d \<in> snd ` set ds. declared d w)))"
proof (induction ds arbitrary: P)
  case Nil
  then show ?case by (auto intro: triple_return)
next
  case (Cons ld ds)
  obtain l d where ld: "ld = (l, d)" by fastforce
  note P = Cons.prems
  have 1: "triple R P (ext (apply_declaration d)) (\<lambda>r w. P w \<and> (r = Inr () \<longrightarrow> declared d w))"
  proof (rule triple_ext [OF P])
    fix w assume w: "P w"
    then have w': "P (snd (apply_declaration d w))" using P R_declare unfolding stable_def by blast
    show "P (snd (apply_declaration d w)) \<and>
        (fst (apply_declaration d w) = Inr () \<longrightarrow> declared d (snd (apply_declaration d w)))"
      using w' apply_declaration_declares by blast
    fix e :: go_error
    show "P w \<and> (Inl e = Inr () \<longrightarrow> declared d w)" using w by simp
    show "P (snd (apply_declaration d w)) \<and> (Inl e = Inr () \<longrightarrow> declared d (snd (apply_declaration d w)))"
      using w' by simp
  qed
  show ?case unfolding ld declare_all.simps
  proof (rule triple_bind [OF 1])
    fix r :: "go_error + unit"
    show "triple R (\<lambda>w. P w \<and> (r = Inr () \<longrightarrow> declared d w))
        (case r of Inl e \<Rightarrow> State_Monad.return (Some (Wrap (l @ declaration_name d @ '': '') e ''''))
          | Inr _ \<Rightarrow> declare_all p ds)
        (\<lambda>r w. P w \<and> (r = None \<longrightarrow> (\<forall>d' \<in> snd ` set ((l, d) # ds). declared d' w)))"
    proof (cases r)
      case (Inl e)
      then show ?thesis by (auto intro: triple_return)
    next
      case (Inr u)
      show ?thesis unfolding Inr sum.case
        by (rule triple_conseq [OF Cons.IH [OF stable_conj [OF P stable_declared [of d]]]]) auto
    qed
  qed
qed

lemma stable_sent: "stable R (sent q pub)"
  unfolding stable_def using sent_grows R_broker by blast

lemma stable_bound: "stable R (bound q key x)"
  unfolding stable_def using bound_grows R_broker by blast

lemma triple_confirm_publish:
  assumes route: "amqp_route route" and P: "stable R P"
  shows "triple R P (confirm_publish route x key pub)
    (\<lambda>r w. P w \<and> (r = None \<longrightarrow> (\<forall>q. (\<forall>v. P v \<longrightarrow> bound q key x v) \<longrightarrow> sent q pub w)) \<and>
       (\<forall>e. r = Some e \<longrightarrow> driver_error e))"
  unfolding confirm_publish_def
proof (rule triple_bind [OF triple_ext [where Q = "\<lambda>r w. P w \<and>
      (r = Inr () \<longrightarrow> (\<forall>q. (\<forall>v. P v \<longrightarrow> bound q key x v) \<longrightarrow> sent q pub w)) \<and>
      (\<forall>e. r = Inl e \<longrightarrow> driver_error e)"]])
  let ?f = "\<lambda>w. case route x key pub w of (reply, w') \<Rightarrow>
            (case confirm_select reply of None \<Rightarrow> Inr () | Some e \<Rightarrow> Inl e, w')"
  show "stable R P" by (rule P)
  fix w assume w: "P w"
  have world: "snd (?f w) = snd (route x key pub w)" by (simp add: case_prod_beta)
  have P': "P (snd (?f w))"
    using P w R_route [OF route] unfolding stable_def world by blast
  show "P (snd (?f w)) \<and> (fst (?f w) = Inr () \<longrightarrow>
      (\<forall>q. (\<forall>v. P v \<longrightarrow> bound q key x v) \<longrightarrow> sent q pub (snd (?f w)))) \<and>
      (\<forall>e. fst (?f w) = Inl e \<longrightarrow> driver_error e)"
  proof (intro conjI impI allI)
    fix q assume ok: "fst (?f w) = Inr ()" and b: "\<forall>v. P v \<longrightarrow> bound q key x v"
    have "confirm_select (fst (route x key pub w)) = None"
      using ok by (auto simp: case_prod_beta split: option.splits)
    then show "sent q pub (snd (?f w))"
      using route_confirmed [OF route surjective_pairing] b w unfolding world by blast
  next
    fix e assume "fst (?f w) = Inl e"
    then show "driver_error e"
      by (intro confirm_select_error [OF route, of x key pub w]) (auto simp: case_prod_beta split: option.splits)
  qed (rule P')
  fix e :: go_error assume e: "driver_error e"
  show "P w \<and> (Inl e = Inr () \<longrightarrow> (\<forall>q. (\<forall>v. P v \<longrightarrow> bound q key x v) \<longrightarrow> sent q pub w)) \<and>
      (\<forall>e'. Inl e = Inl e' \<longrightarrow> driver_error e')"
    using w e by simp
  show "P (snd (?f w)) \<and> (Inl e = Inr () \<longrightarrow>
      (\<forall>q. (\<forall>v. P v \<longrightarrow> bound q key x v) \<longrightarrow> sent q pub (snd (?f w)))) \<and>
      (\<forall>e'. Inl e = Inl e' \<longrightarrow> driver_error e')"
    using P' e by simp
qed (rule triple_return, auto split: sum.splits)

lemma triple_publish_retry:
  assumes "amqp_route route" and "stable R P"
    and "\<And>w. P w \<Longrightarrow> bound mqRetryQueue mqRetryRoutingKey mqRetryExchange w"
  shows "triple R P (publish_retry route k m a) (\<lambda>r w. P w \<and> (r = None \<longrightarrow> retry_sent k m a w) \<and> (\<forall>e. r = Some e \<longrightarrow> driver_error e))"
  unfolding publish_retry_def
proof (rule triple_bind [OF triple_now [where Q = "\<lambda>_. P"]], assumption)
  fix t
  show "triple R P (State_Monad.bind
      (confirm_publish route mqRetryExchange mqRetryRoutingKey (buildWorkerPublishing k m a t))
      (\<lambda>r. State_Monad.return (wrap_error (''retry publisher: publish retry job_id='' @ format_uint k @ '': '') r)))
     (\<lambda>r w. P w \<and> (r = None \<longrightarrow> retry_sent k m a w) \<and> (\<forall>e. r = Some e \<longrightarrow> driver_error e))"
    by (rule triple_bind [OF triple_confirm_publish [OF assms(1,2)]], rule triple_return)
       (use assms(3) in \<open>auto simp: retry_sent_def wrap_error_def\<close>)
qed

lemma triple_publish_dlq:
  assumes "amqp_route route" and "stable R P"
    and "\<And>w. P w \<Longrightarrow> bound mqDLQQueue mqDLQRoutingKey mqDLQExchange w"
  shows "triple R P (publish_dlq route k m a) (\<lambda>r w. P w \<and> (r = None \<longrightarrow> dlq_sent k m a w) \<and> (\<forall>e. r = Some e \<longrightarrow> driver_error e))"
  unfolding publish_dlq_def
proof (rule triple_bind [OF triple_now [where Q = "\<lambda>_. P"]], assumption)
  fix t
  show "triple R P (State_Monad.bind
      (confirm_publish route mqDLQExchange mqDLQRoutingKey (buildWorkerPublishing k m a t))
      (\<lambda>r. State_Monad.return (wrap_error (''retry publisher: publish dlq job_id='' @ format_uint k @ '': '') r)))
     (\<lambda>r w. P w \<and> (r = None \<longrightarrow> dlq_sent k m a w) \<and> (\<forall>e. r = Some e \<longrightarrow> driver_error e))"
    by (rule triple_bind [OF triple_confirm_publish [OF assms(1,2)]], rule triple_return)
       (use assms(3) in \<open>auto simp: dlq_sent_def wrap_error_def\<close>)
qed

lemma triple_publish_outbox:
  assumes "amqp_route route" and "stable R P" and "\<And>w. P w \<Longrightarrow> bound mqQueue mqRoutingKey mqExchange w"
  shows "triple R P (publish_outbox route e)
    (\<lambda>r w. P w \<and> (r = None \<longrightarrow> sent mqQueue (envelope_publishing (outbox_message e) None) w))"
  unfolding publish_outbox_def
  by (rule triple_bind [OF triple_confirm_publish [OF assms(1,2)]], rule triple_return)
     (use assms(3) in \<open>auto simp: wrap_error_def\<close>)

lemma stable_retry_sent: "stable R (retry_sent k m a)"
  using stable_sent unfolding stable_def retry_sent_def by blast

lemma stable_dlq_sent: "stable R (dlq_sent k m a)"
  using stable_sent unfolding stable_def dlq_sent_def by blast

end

interpretation broker_evol: broker_client broker_grows
  by unfold_locales (assumption, erule route_grows, rule surjective_pairing, rule apply_declaration_grows)

section \<open>Properties\<close>

text \<open>
  The declared topology closes the retry loop: when a process has declared both topologies without
  an error, whatever other processes declare or publish meanwhile, the three bindings are in place,
  the retry queue has the configured time to live and dead-letters to an exchange and key that are
  bound to the execution queue, and the execution queue itself has no arguments.
\<close>

theorem topology_closes_the_retry_loop:
  assumes "rely broker_grows m"
    and "run_state (State_Monad.bind declareMQTopology (\<lambda>a. State_Monad.bind (declareRetryTopology ms)
           (\<lambda>b. State_Monad.return (a, b)))) m = ((None, None), m')"
  shows "bound mqQueue mqRoutingKey mqExchange (m_world m') \<and>
    bound mqRetryQueue mqRetryRoutingKey mqRetryExchange (m_world m') \<and>
    bound mqDLQQueue mqDLQRoutingKey mqDLQExchange (m_world m') \<and>
    map_of (w_queue_args (m_world m')) mqQueue = Some [] \<and>
    (\<exists>args x key. map_of (w_queue_args (m_world m')) mqRetryQueue = Some args \<and>
       map_of args ''x-message-ttl'' = Some (AmqpInt64 ms) \<and>
       map_of args ''x-dead-letter-exchange'' = Some (AmqpString x) \<and>
       map_of args ''x-dead-letter-routing-key'' = Some (AmqpString key) \<and>
       bound mqQueue key x (m_world m'))"
proof -
  let ?main = "{ExchangeDeclare mqExchange, QueueDeclare mqQueue [], QueueBind mqQueue mqRoutingKey mqExchange}"
  let ?args = "[(''x-message-ttl'', AmqpInt64 ms), (''x-dead-letter-exchange'', AmqpString mqExchange),
          (''x-dead-letter-routing-key'', AmqpString mqRoutingKey)]"
  let ?retry = "{QueueDeclare mqRetryQueue ?args, QueueBind mqRetryQueue mqRetryRoutingKey mqRetryExchange,
      QueueBind mqDLQQueue mqDLQRoutingKey mqDLQExchange}"
  have "triple broker_grows (\<lambda>w. True)
      (State_Monad.bind declareMQTopology (\<lambda>a. State_Monad.bind (declareRetryTopology ms)
           (\<lambda>b. State_Monad.return (a, b))))
      (\<lambda>(a, b) w. (a = None \<longrightarrow> (\<forall>d \<in> ?main. declared d w)) \<and> (b = None \<longrightarrow> (\<forall>d \<in> ?retry. declared d w)))"
  proof (rule triple_bind)
    show "triple broker_grows (\<lambda>w. True) declareMQTopology
        (\<lambda>a w. a = None \<longrightarrow> (\<forall>d \<in> ?main. declared d w))"
      unfolding declareMQTopology_def
      by (rule triple_conseq [OF broker_evol.triple_declare_all]) auto
  next
    fix a :: "go_error option"
    have "stable broker_grows (\<lambda>w. a = None \<longrightarrow> (\<forall>d \<in> ?main. declared d w))"
      unfolding stable_def using declared_grows by blast
    from broker_evol.triple_declare_all [OF this]
    show "triple broker_grows (\<lambda>w. a = None \<longrightarrow> (\<forall>d \<in> ?main. declared d w))
        (State_Monad.bind (declareRetryTopology ms) (\<lambda>b. State_Monad.return (a, b)))
        (\<lambda>(a, b) w. (a = None \<longrightarrow> (\<forall>d \<in> ?main. declared d w)) \<and> (b = None \<longrightarrow> (\<forall>d \<in> ?retry. declared d w)))"
      unfolding declareRetryTopology_def by (rule triple_bind, intro triple_return) auto
  qed
  from tripleD [OF this assms(1) _ assms(2)]
  have "(\<forall>d \<in> ?main. declared d (m_world m')) \<and> (\<forall>d \<in> ?retry. declared d (m_world m'))" by simp
  then show ?thesis
    by (auto intro!: exI [of _ ?args] exI [of _ mqExchange] exI [of _ mqRoutingKey])
qed

theorem topology_closes_the_retry_loop_witness:
  "\<exists>m'. run_state (State_Monad.bind declareMQTopology (\<lambda>a. State_Monad.bind (declareRetryTopology 5000)
           (\<lambda>b. State_Monad.return (a, b)))) (quiet empty_world) = ((None, None), m') \<and>
     bound mqQueue mqRoutingKey mqExchange (m_world m')"
proof -
  let ?r = "run_state (State_Monad.bind declareMQTopology (\<lambda>a. State_Monad.bind (declareRetryTopology 5000)
           (\<lambda>b. State_Monad.return (a, b)))) (quiet empty_world)"
  have "fst ?r = (None, None)"
    by (simp add: declareMQTopology_def declareRetryTopology_def quiet_def empty_world_def mq_names)
  then have "?r = ((None, None), snd ?r)" by (simp add: prod_eq_iff)
  from topology_closes_the_retry_loop [OF rely_quiet this] this show ?thesis by blast
qed

end
