(* ===== verification/System.thy ===== *)
theory System
  imports Publisher
begin

text \<open>
  The whole shared state over time. \<open>sys_evolves\<close> combines the evolution of the job table, the
  outbox, the idempotency log and the broker with the accounting invariant that ties them: an event
  marked published has its message in the execution queue's history, and every job still has its
  outbox event or already has a message in that history. It is the relation every process keeps and
  relies on the others to keep.
\<close>

section \<open>Accounting of jobs and messages\<close>

definition event_sent :: "outbox_event \<Rightarrow> world \<Rightarrow> bool" where
  "event_sent e w = sent mqQueue (envelope_publishing (outbox_message e) None) w"

definition job_message_sent :: "nat \<Rightarrow> world \<Rightarrow> bool" where
  "job_message_sent k w = (\<exists>p \<in> set (queue_at w mqQueue). \<exists>msg. pb_body p = JsonBody msg \<and> mg_job_id msg = k)"

definition job_accounted :: "nat \<Rightarrow> world \<Rightarrow> bool" where
  "job_accounted k w = ((\<exists>e \<in> set (w_outbox w). ob_job_id e = k) \<or> job_message_sent k w)"

definition accounted :: "world \<Rightarrow> bool" where
  "accounted w =
     ((\<forall>e \<in> set (w_outbox w). ob_status e = OutboxPublished \<longrightarrow> event_sent e w) \<and>
      (\<forall>k \<in> jb_id ` set (w_jobs w). job_accounted k w))"

lemma event_sent_job: "event_sent e w \<Longrightarrow> job_message_sent (ob_job_id e) w"
  unfolding event_sent_def sent_def job_message_sent_def
  by (erule rev_bexI) (simp add: envelope_publishing_def outbox_message_def)

lemma event_sent_identity: "ob_identity e' = ob_identity e \<Longrightarrow> event_sent e' w = event_sent e w"
  by (simp add: event_sent_def outbox_message_def ob_identity_def)

lemma event_sent_grows: "event_sent e w \<Longrightarrow> broker_grows w w' \<Longrightarrow> event_sent e w'"
  unfolding event_sent_def by (rule sent_grows)

lemma job_message_grows: "job_message_sent k w \<Longrightarrow> broker_grows w w' \<Longrightarrow> job_message_sent k w'"
  unfolding job_message_sent_def broker_grows_def by blast

text \<open>
  The one lemma behind all steps: queues grow, every event of the new table is an old one or new and
  unpublished, every newly published one was sent, and every job is accounted for in the new table.
\<close>

lemma accounted_step:
  assumes "accounted w" and grow: "broker_grows w w'"
    and published: "\<And>e'. e' \<in> set (w_outbox w') \<Longrightarrow> ob_status e' = OutboxPublished \<Longrightarrow>
        event_sent e' w' \<or> (\<exists>e \<in> set (w_outbox w). ob_status e = OutboxPublished \<and> ob_identity e' = ob_identity e)"
    and events: "\<And>e. e \<in> set (w_outbox w) \<Longrightarrow> (\<exists>e' \<in> set (w_outbox w'). ob_job_id e' = ob_job_id e) \<or> event_sent e w"
    and jobs: "\<And>k. k \<in> jb_id ` set (w_jobs w') \<Longrightarrow> k \<in> jb_id ` set (w_jobs w) \<or> job_accounted k w'"
  shows "accounted w'"
  unfolding accounted_def
proof (intro conjI ballI impI)
  fix e' assume "e' \<in> set (w_outbox w')" "ob_status e' = OutboxPublished"
  from published [OF this] show "event_sent e' w'"
    using assms(1) grow event_sent_grows event_sent_identity unfolding accounted_def by blast
next
  fix k assume "k \<in> jb_id ` set (w_jobs w')"
  with jobs consider "job_accounted k w" | "job_accounted k w'"
    using assms(1) unfolding accounted_def by blast
  then show "job_accounted k w'"
  proof cases
    case 1
    then show ?thesis
      using events event_sent_job event_sent_grows [OF _ grow] job_message_grows [OF _ grow]
      unfolding job_accounted_def by metis
  qed
qed

section \<open>The evolution of the system\<close>

definition sys_evolves :: "world \<Rightarrow> world \<Rightarrow> bool" where
  "sys_evolves w w' = (job_evolves w w' \<and> outbox_evolves w w' \<and> pm_evolves w w' \<and> broker_grows w w' \<and>
     (outbox_wf w \<and> accounted w \<longrightarrow> accounted w'))"

lemma sys_evolvesD:
  assumes "sys_evolves w w'"
  shows "job_evolves w w'" and "outbox_evolves w w'" and "pm_evolves w w'" and "broker_grows w w'"
  using assms by (simp_all add: sys_evolves_def)

lemma sys_cas: "legal_row_step s f \<Longrightarrow> sys_evolves w (snd (cas_job k s f w))"
proof -
  assume f: "legal_row_step s f"
  have same: "w_outbox (snd (cas_job k s f w)) = w_outbox w" "broker_grows w (snd (cas_job k s f w))"
    by (auto simp: cas_job_def intro: broker_grows_same)
  have "map jb_id (w_jobs (snd (cas_job k s f w))) = map jb_id (w_jobs w)"
    using keys_update [of jb_id f] f by (simp add: cas_job_def legal_row_step_def)
  then have ids: "jb_id ` set (w_jobs (snd (cas_job k s f w))) = jb_id ` set (w_jobs w)"
    by (metis set_map)
  have "accounted w \<Longrightarrow> accounted (snd (cas_job k s f w))"
    by (erule accounted_step [OF _ same(2)]) (use same(1) ids in auto)
  then show ?thesis
    using cas_job_evolves [OF f] same(2) unfolding sys_evolves_def
    by (auto simp: cas_job_def intro: outbox_evolves_same pm_evolves_same)
qed

lemma sys_only_pm:
  assumes "pm_evolves w (w\<lparr>w_pm := rows\<rparr>)"
  shows "sys_evolves w (w\<lparr>w_pm := rows\<rparr>)"
proof -
  have grow: "broker_grows w (w\<lparr>w_pm := rows\<rparr>)" by (simp add: broker_grows_same)
  have "accounted w \<Longrightarrow> accounted (w\<lparr>w_pm := rows\<rparr>)"
    by (erule accounted_step [OF _ grow]) auto
  with assms grow show ?thesis
    by (simp add: sys_evolves_def outbox_evolves_same job_evolves_same_jobs)
qed

lemma sys_route:
  assumes "amqp_route route"
  shows "sys_evolves w (snd (route x key pub w))"
proof -
  obtain qs where w': "snd (route x key pub w) = w\<lparr>w_queues := qs\<rparr>"
    using route_only_queues [OF assms surjective_pairing] by blast
  have grow: "broker_grows w (snd (route x key pub w))"
    using route_grows [OF assms surjective_pairing] .
  have "accounted w \<Longrightarrow> accounted (snd (route x key pub w))"
    by (erule accounted_step [OF _ grow]) (auto simp: w')
  with grow show ?thesis
    by (simp add: w' sys_evolves_def outbox_evolves_same job_evolves_same_jobs pm_evolves_same)
qed

lemma sys_declare: "sys_evolves w (snd (apply_declaration d w))"
proof -
  have grow: "broker_grows w (snd (apply_declaration d w))" by (rule apply_declaration_grows)
  have frame: "w_jobs (snd (apply_declaration d w)) = w_jobs w"
      "w_outbox (snd (apply_declaration d w)) = w_outbox w" "w_pm (snd (apply_declaration d w)) = w_pm w"
      "w_next_job_id (snd (apply_declaration d w)) = w_next_job_id w"
      "w_next_outbox_id (snd (apply_declaration d w)) = w_next_outbox_id w"
      "w_clock (snd (apply_declaration d w)) = w_clock w"
    by (cases d; simp split: option.splits)+
  have "accounted w \<Longrightarrow> accounted (snd (apply_declaration d w))"
    by (erule accounted_step [OF _ grow]) (auto simp: frame)
  with grow show ?thesis
    by (simp add: frame sys_evolves_def outbox_evolves_same job_evolves_same_jobs pm_evolves_same)
qed

lemma sys_tick: "sys_evolves w (tick d w)"
proof -
  have grow: "broker_grows w (tick d w)" by (rule broker_evol.R_tick)
  have "accounted w \<Longrightarrow> accounted (tick d w)"
    by (erule accounted_step [OF _ grow]) (auto simp: tick_def)
  with grow show ?thesis
    by (simp add: sys_evolves_def outbox_evol.R_tick job_evol.R_tick pm_evol.R_tick)
qed

interpretation sys: evolution sys_evolves
proof
  show "sys_evolves w w" for w
    by (simp add: sys_evolves_def outbox_evol.R_refl job_evol.R_refl pm_evol.R_refl broker_evol.R_refl)
  show "sys_evolves a c" if "sys_evolves a b" and "sys_evolves b c" for a b c
    using that outbox_evol.R_trans [of a b c] job_evol.R_trans [of a b c] pm_evol.R_trans [of a b c]
      broker_evol.R_trans [of a b c]
    unfolding sys_evolves_def by (metis outbox_evolves_def)
qed (rule sys_tick)

interpretation sys: job_client sys_evolves
  by unfold_locales (auto intro: sys_cas dest: sys_evolvesD)

interpretation sys: pm_client sys_evolves
  by unfold_locales (auto intro: sys_only_pm dest: sys_evolvesD)

interpretation sys: broker_client sys_evolves
  by unfold_locales (auto intro: sys_route sys_declare dest: sys_evolvesD)

section \<open>The outbox statements keep the accounting\<close>

text \<open>An UPDATE of the outbox that keeps identities and publishes only what was sent.\<close>

lemma sys_outbox_update:
  assumes ev: "outbox_evolves w (w\<lparr>w_outbox := sql_update P f (w_outbox w)\<rparr>)"
    and id: "\<And>e. ob_identity (f e) = ob_identity e"
    and pub: "\<And>e. e \<in> set (w_outbox w) \<Longrightarrow> P e \<Longrightarrow> ob_status (f e) = OutboxPublished \<Longrightarrow> event_sent e w"
  shows "sys_evolves w (w\<lparr>w_outbox := sql_update P f (w_outbox w)\<rparr>)"
proof -
  let ?w = "w\<lparr>w_outbox := sql_update P f (w_outbox w)\<rparr>"
  have grow: "broker_grows w ?w" by (simp add: broker_grows_same)
  have job: "ob_job_id (f e) = ob_job_id e" for e by (simp add: identity_keys(4) id)
  have "accounted ?w" if acc: "accounted w"
  proof (rule accounted_step [OF acc grow])
    fix e' assume e': "e' \<in> set (w_outbox ?w)" "ob_status e' = OutboxPublished"
    then obtain e where e: "e \<in> set (w_outbox w)" "e' = (if P e then f e else e)"
      by (auto simp: in_sql_update)
    show "event_sent e' ?w \<or>
        (\<exists>e \<in> set (w_outbox w). ob_status e = OutboxPublished \<and> ob_identity e' = ob_identity e)"
    proof (cases "P e")
      case True
      then have "event_sent e w" using pub [OF e(1) True] e e'(2) by simp
      then have "event_sent e' w" using e(2) True event_sent_identity [OF id [of e]] by simp
      then show ?thesis using event_sent_grows [OF _ grow] by blast
    qed (use e e'(2) in auto)
  next
    fix e assume "e \<in> set (w_outbox w)"
    then have "(if P e then f e else e) \<in> set (w_outbox ?w)" by (auto simp: in_sql_update)
    then show "(\<exists>e' \<in> set (w_outbox ?w). ob_job_id e' = ob_job_id e) \<or> event_sent e w"
      by (intro disjI1, elim rev_bexI) (simp add: job)
  qed auto
  with ev grow show ?thesis by (simp add: sys_evolves_def job_evolves_same_jobs pm_evolves_same)
qed

lemma sys_claim: "sys_evolves w (snd (claim_batch_tx pick token n ttl t w))"
proof (cases "claim_select pick n t w = []")
  case True
  then show ?thesis by (simp add: claim_batch_tx_def sys.R_refl)
next
  case False
  then show ?thesis
    using Outbox.claim_evolves [of w pick token n ttl t]
    by (auto simp: claim_batch_tx_def Let_def lease_event_def intro!: sys_outbox_update)
qed

lemma sys_release: "sys_evolves w (snd (release_stmt k token a n err w))"
  using release_evolves [of w k token a n err]
  by (auto simp: release_stmt_def Let_def release_event_def intro!: sys_outbox_update)

text \<open>Marking is in order when the event's message was sent.\<close>

lemma sys_mark_published:
  assumes "\<And>e. event_at w k = Some e \<Longrightarrow> event_sent e w" and wf: "outbox_wf w"
  shows "sys_evolves w (snd (mark_published_stmt k token t w))"
proof -
  have "event_sent e w" if "e \<in> set (w_outbox w)" "ob_id e = k" for e
    using assms(1) lookup_distinct [of ob_id "w_outbox w" e] that wf
    by (simp add: outbox_wf_def unique_keys_def)
  then show ?thesis
    using mark_published_evolves [of w k token t]
    by (auto simp: mark_published_stmt_def Let_def publish_event_def intro!: sys_outbox_update)
qed

lemma delete_limit_lost:
  "r \<in> set rows \<Longrightarrow> r \<in> set (fst (sql_delete_limit n P rows)) \<or> P r"
  using delete_limit_keeps [of r rows P n] by blast

lemma sys_delete: "sys_evolves w (snd (delete_old_stmt before n w))"
proof -
  let ?w = "snd (delete_old_stmt before n w)"
  have rows: "w_outbox ?w = fst (sql_delete_limit n (deletable before) (w_outbox w))"
      and w': "?w = w\<lparr>w_outbox := w_outbox ?w\<rparr>"
    by (simp_all add: delete_old_stmt_def case_prod_beta)
  have grow: "broker_grows w ?w" by (subst w') (simp add: broker_grows_same)
  have "accounted ?w" if acc: "accounted w"
  proof (rule accounted_step [OF acc grow])
    fix e' assume "e' \<in> set (w_outbox ?w)" "ob_status e' = OutboxPublished"
    then show "event_sent e' ?w \<or>
        (\<exists>e \<in> set (w_outbox w). ob_status e = OutboxPublished \<and> ob_identity e' = ob_identity e)"
      using delete_limit_subset [of n "deletable before" "w_outbox w"] by (auto simp: rows)
  next
    fix e assume e: "e \<in> set (w_outbox w)"
    show "(\<exists>e' \<in> set (w_outbox ?w). ob_job_id e' = ob_job_id e) \<or> event_sent e w"
      using delete_limit_lost [OF e, of n "deletable before"] e acc
      by (auto simp: rows deletable_def accounted_def)
  next
    fix k assume "k \<in> jb_id ` set (w_jobs ?w)"
    then show "k \<in> jb_id ` set (w_jobs w) \<or> job_accounted k ?w" by (subst (asm) w') simp
  qed
  moreover have "job_evolves w ?w" "pm_evolves w ?w"
    by (subst w', simp add: job_evolves_same_jobs pm_evolves_same)+
  ultimately show ?thesis using grow delete_evolves [of w before n] by (simp add: sys_evolves_def)
qed

lemma sys_enqueue:
  assumes fresh: "fresh_event event"
  shows "sys_evolves w (snd (create_and_enqueue_tx t job event w))"
proof (cases "fst (create_and_enqueue_tx t job event w)")
  case (Inl e)
  then show ?thesis by (simp add: create_and_enqueue_error_rolls_back sys.R_refl)
next
  case (Inr j)
  define w' where "w' = snd (create_and_enqueue_tx t job event w)"
  have ok: "create_and_enqueue_tx t job event w = (Inr j, w')" using Inr by (simp add: w'_def prod_eq_iff)
  note s = enqueue_success [OF ok]
  have ev: "ob_job_id (enqueued_event event w) = w_next_job_id w"
      "ob_status (enqueued_event event w) = OutboxPending"
    using fresh by (simp_all add: enqueued_event_def fresh_event_def)
  have frame: "w_queues w' = w_queues w" "w_bindings w' = w_bindings w" "w_exchanges w' = w_exchanges w"
      "w_queue_args w' = w_queue_args w" "w_pm w' = w_pm w" "w_clock w' = w_clock w"
    using s(5) by (simp_all add: cas_job_def insert_job_def Let_def)
  have grow: "broker_grows w w'" using frame by (simp add: broker_grows_same)
  have jobs: "jb_id ` set (w_jobs w') = insert (w_next_job_id w) (jb_id ` set (w_jobs w))"
  proof -
    have "map jb_id (w_jobs w') = map jb_id (w_jobs w) @ [w_next_job_id w]"
      using s(5) by (simp add: cas_job_def insert_job_def Let_def transition_cas.keys_kept)
    then have "set (map jb_id (w_jobs w')) = set (map jb_id (w_jobs w) @ [w_next_job_id w])" by (simp only:)
    then show ?thesis by simp
  qed
  have "accounted w'" if acc: "accounted w"
  proof (rule accounted_step [OF acc grow])
    fix k assume "k \<in> jb_id ` set (w_jobs w')"
    then show "k \<in> jb_id ` set (w_jobs w) \<or> job_accounted k w'"
      using ev(1) by (auto simp: jobs job_accounted_def s(3))
  qed (use s(3) ev(2) in auto)
  then show ?thesis
    using enqueue_job_evolves [of w t job event] enqueue_outbox_evolves [OF fresh, of w t job] grow frame
    by (simp add: sys_evolves_def pm_evolves_same w'_def [symmetric])
qed

section \<open>A sample system\<close>

text \<open>The database with one submitted job, on a broker whose topology is declared.\<close>

definition ready_world :: world where
  "ready_world = submitted_world\<lparr>w_clock := 6, w_bindings := [(mqQueue, mqRoutingKey, mqExchange),
     (mqRetryQueue, mqRetryRoutingKey, mqRetryExchange), (mqDLQQueue, mqDLQRoutingKey, mqDLQExchange)]\<rparr>"

lemma ready_world_wf [simp]: "outbox_wf ready_world" "jobs_wf ready_world" "pm_wf ready_world"
    "accounted ready_world"
proof -
  show "outbox_wf ready_world" "jobs_wf ready_world"
    using submitted_world_wf by (simp_all add: ready_world_def outbox_wf_def jobs_wf_def)
  show "pm_wf ready_world"
    by (simp add: ready_world_def pm_wf_def submitted_world_def create_and_enqueue_tx_def insert_job_def
        cas_job_def Let_def empty_world_def)
  have "accounted empty_world" by (simp add: accounted_def empty_world_def)
  then have "accounted submitted_world"
    using sys_enqueue [OF sample_event_fresh, of empty_world 6 sample_job]
    by (simp add: submitted_world_def sys_evolves_def)
  then show "accounted ready_world"
    by (auto simp: accounted_def ready_world_def event_sent_def sent_def job_accounted_def
        job_message_sent_def)
qed

lemma ready_world_bound [simp]:
  "bound mqQueue mqRoutingKey mqExchange ready_world"
  "bound mqRetryQueue mqRetryRoutingKey mqRetryExchange ready_world"
  "bound mqDLQQueue mqDLQRoutingKey mqDLQExchange ready_world"
  by (simp_all add: ready_world_def bound_def)

lemma ready_world_job:
  "job_at ready_world 1 = Some (sample_job\<lparr>jb_id := 1, jb_status := StatusQueued, jb_updated_at := 6\<rparr>)"
  by (simp add: ready_world_def submitted_world_def create_and_enqueue_tx_def insert_job_def cas_job_def Let_def
      sql_affected_def sql_update_def empty_world_def sample_job_def sample_event_def newOutboxEvent_def)

end
