(* ===== verification/Dispatcher.thy ===== *)
theory Dispatcher
  imports System
begin

text \<open>
  The outbox dispatcher (internal/queryjob/dispatcher.go): the capped exponential backoff, releasing an
  event, connecting lazily, publishing a claimed batch and one poll cycle. \<open>runOnce\<close> is a program
  over the shared state; the polling loop and Stop are in theory Dispatcher_Run. What the
  environment decides is an argument: which rows the claim sees, its lease token, when the stop
  channel is seen closed, and the text of an error.
\<close>

section \<open>Backoff\<close>

record dispatcher_config =
  dc_batch_size :: nat
  dc_lease_ttl :: duration
  dc_base_backoff :: duration
  dc_max_backoff :: duration
  dc_published_retain :: duration
  dc_clean_batch :: nat

text \<open>
  \<open>time.Duration(float64)\<close>: Go leaves the conversion of a float outside the int64 range to the
  implementation, so its result there is the parameter \<open>oob\<close>. The product with a power of two is
  exact for a base below \<open>2 ^ 53\<close> nanoseconds (about 104 days).
\<close>

definition to_duration :: "(int \<Rightarrow> int) \<Rightarrow> int \<Rightarrow> duration" where
  "to_duration oob x = (if - (2 ^ 63) \<le> x \<and> x < 2 ^ 63 then x else oob x)"

definition backoffFor :: "(int \<Rightarrow> int) \<Rightarrow> dispatcher_config \<Rightarrow> int \<Rightarrow> duration" where
  "backoffFor oob cfg attempt =
     (if attempt \<le> 0 then dc_base_backoff cfg
      else let dur = to_duration oob (dc_base_backoff cfg * 2 ^ nat (attempt - 1)) in
        if dur \<le> 0 \<or> dc_max_backoff cfg < dur then dc_max_backoff cfg else dur)"

lemma backoff_range:
  assumes "0 < dc_base_backoff cfg" and "dc_base_backoff cfg \<le> dc_max_backoff cfg"
  shows "0 < backoffFor oob cfg n \<and> backoffFor oob cfg n \<le> dc_max_backoff cfg"
  using assms by (auto simp: backoffFor_def Let_def)

lemma backoff_exact:
  assumes "0 < dc_base_backoff cfg" and "1 \<le> n" and "dc_base_backoff cfg * 2 ^ nat (n - 1) \<le> dc_max_backoff cfg"
    and "dc_max_backoff cfg < 2 ^ 63"
  shows "backoffFor oob cfg n = dc_base_backoff cfg * 2 ^ nat (n - 1)"
proof -
  define x where "x = dc_base_backoff cfg * 2 ^ nat (n - 1)"
  have "0 < x" using assms(1) by (simp add: x_def)
  with assms show ?thesis unfolding x_def [symmetric]
    by (simp add: backoffFor_def to_duration_def Let_def x_def [symmetric])
qed

text \<open>On the implementations in use the conversion saturates or yields the most negative int64.\<close>

definition saturating :: "(int \<Rightarrow> int) \<Rightarrow> bool" where
  "saturating oob = (\<forall>x \<ge> 2 ^ 63. oob x = - (2 ^ 63) \<or> oob x = 2 ^ 63 - 1)"

lemma backoff_capped:
  assumes "0 < dc_base_backoff cfg" and "1 \<le> n" and "dc_max_backoff cfg < dc_base_backoff cfg * 2 ^ nat (n - 1)"
    and "0 < dc_max_backoff cfg" and "dc_max_backoff cfg < 2 ^ 63" and "saturating oob"
  shows "backoffFor oob cfg n = dc_max_backoff cfg"
proof (cases "dc_base_backoff cfg * 2 ^ nat (n - 1) < 2 ^ 63")
  case True
  then show ?thesis using assms by (simp add: backoffFor_def to_duration_def Let_def)
next
  case False
  then have "oob (dc_base_backoff cfg * 2 ^ nat (n - 1)) = - (2 ^ 63) \<or>
      oob (dc_base_backoff cfg * 2 ^ nat (n - 1)) = 2 ^ 63 - 1"
    using assms(6) by (simp add: saturating_def)
  with False assms show ?thesis by (auto simp: backoffFor_def to_duration_def Let_def)
qed

section \<open>A poll cycle\<close>

text \<open>
  The dispatcher's own state: whether a publisher is cached (\<open>d.pub != nil\<close>) and whether a connection
  is (\<open>d.conn != nil\<close>).
\<close>

record dispatcher =
  dp_pub :: bool
  dp_conn :: bool

record dispatcher_env =
  de_config :: dispatcher_config
  de_route :: route
  de_oob :: "int \<Rightarrow> int"
  de_text :: "go_error \<Rightarrow> string"
  de_pick :: "nat list"
  de_token :: string
  de_stop :: "nat \<Rightarrow> bool"

definition event_token :: "outbox_event \<Rightarrow> string" where
  "event_token e = (case ob_lease_token e of None \<Rightarrow> [] | Some t \<Rightarrow> t)"

text \<open>\<open>releaseEvent\<close>; an error of the release is only logged.\<close>

definition releaseEvent :: "dispatcher_env \<Rightarrow> outbox_event \<Rightarrow> string \<Rightarrow> unit prog" where
  "releaseEvent d e reason = do {
     t \<leftarrow> now;
     r \<leftarrow> release_with_retry (ob_id e) (event_token e) (ob_attempt_count e + 1)
            (t + backoffFor (de_oob d) (de_config d) (ob_attempt_count e + 1)) reason;
     State_Monad.return ()
   }"

fun releaseAll :: "dispatcher_env \<Rightarrow> string \<Rightarrow> outbox_event list \<Rightarrow> unit prog" where
  "releaseAll d reason [] = State_Monad.return ()"
| "releaseAll d reason (e # es) = do { u \<leftarrow> releaseEvent d e reason; releaseAll d reason es }"

definition cleanOld :: "dispatcher_env \<Rightarrow> unit prog" where
  "cleanOld d = do {
     t \<leftarrow> now;
     r \<leftarrow> delete_old_published (t - dc_published_retain (de_config d)) (dc_clean_batch (de_config d));
     State_Monad.return ()
   }"

text \<open>
  \<open>ensurePublisher\<close>. \<open>conn.IsClosed()\<close> and \<open>amqp.Dial\<close>/\<open>conn.Channel\<close> are calls that may fail; the
  cached publisher is used when the connection is there and not closed.
\<close>

definition ask :: "(go_error + unit) prog" where
  "ask = ext (\<lambda>w. (Inr (), w))"

definition connect :: "(go_error option \<times> dispatcher) prog" where
  "connect = do {
     dial \<leftarrow> ask;
     (case dial of
        Inl e \<Rightarrow> State_Monad.return (Some (Wrap ''dispatcher: rabbitmq dial: '' e ''''), \<lparr>dp_pub = False, dp_conn = False\<rparr>)
      | Inr _ \<Rightarrow> do {
          ch \<leftarrow> ask;
          (case ch of
             Inl e \<Rightarrow> State_Monad.return (Some (Wrap ''dispatcher: open channel: '' e ''''), \<lparr>dp_pub = False, dp_conn = False\<rparr>)
           | Inr _ \<Rightarrow> do {
               p \<leftarrow> newRabbitMQPublisher;
               State_Monad.return (case p of
                   Some e \<Rightarrow> (Some (Wrap ''dispatcher: new publisher: '' e ''''), \<lparr>dp_pub = False, dp_conn = False\<rparr>)
                 | None \<Rightarrow> (None, \<lparr>dp_pub = True, dp_conn = True\<rparr>))
             })
        })
   }"

definition ensurePublisher :: "dispatcher \<Rightarrow> (go_error option \<times> dispatcher) prog" where
  "ensurePublisher st =
     (if dp_pub st \<and> dp_conn st then do {
        alive \<leftarrow> ask;
        (case alive of Inr _ \<Rightarrow> State_Monad.return (None, st) | Inl _ \<Rightarrow> connect)
      } else connect)"

definition invalidatePublisher :: "dispatcher \<Rightarrow> dispatcher" where
  "invalidatePublisher st = st\<lparr>dp_pub := False\<rparr>"

text \<open>
  The publish loop keeps using the publisher it started with: once invalidated, its channel is closed
  (\<open>alive\<close> is false) and every further publish of the batch fails.
\<close>

definition publish_on :: "dispatcher_env \<Rightarrow> bool \<Rightarrow> outbox_event \<Rightarrow> go_error option prog" where
  "publish_on d alive e =
     (if alive then publish_outbox (de_route d) e
      else State_Monad.return (wrap_error (''dispatcher: publish outbox event id='' @ format_uint (ob_id e) @
        '' job_id='' @ format_uint (ob_job_id e) @ '': '')
        (confirm_select (PublishCallFailed (NewError ''Exception (504) Reason: channel/connection is not open'')))))"

fun publish_events ::
  "dispatcher_env \<Rightarrow> nat \<Rightarrow> bool \<Rightarrow> dispatcher \<Rightarrow> outbox_event list \<Rightarrow> dispatcher prog" where
  "publish_events d i alive st [] = State_Monad.return st"
| "publish_events d i alive st (e # es) =
     (if de_stop d i then do {
        u \<leftarrow> releaseEvent d e ''dispatcher stopping'';
        publish_events d (Suc i) alive st es
      } else do {
        r \<leftarrow> publish_on d alive e;
        (case r of
           Some err \<Rightarrow> do {
             u \<leftarrow> releaseEvent d e (de_text d err);
             publish_events d (Suc i) False (invalidatePublisher st) es
           }
         | None \<Rightarrow> do {
             t \<leftarrow> now;
             m \<leftarrow> mark_published (ob_id e) (event_token e) t;
             publish_events d (Suc i) alive st es
           })
      })"

definition runOnce :: "dispatcher_env \<Rightarrow> dispatcher \<Rightarrow> dispatcher prog" where
  "runOnce d st = do {
     t \<leftarrow> now;
     r \<leftarrow> claim_batch (de_pick d) (de_token d) (dc_batch_size (de_config d)) (dc_lease_ttl (de_config d)) t;
     (case r of
        Inl e \<Rightarrow> State_Monad.return st
      | Inr events \<Rightarrow>
          (if events = [] then do { u \<leftarrow> cleanOld d; State_Monad.return st }
           else do {
             p \<leftarrow> ensurePublisher st;
             (case p of (err, st') \<Rightarrow>
               (case err of
                  Some e \<Rightarrow> do {
                    u \<leftarrow> releaseAll d (''rabbitmq unavailable: '' @ de_text d e) events;
                    State_Monad.return st'
                  }
                | None \<Rightarrow> do {
                    st'' \<leftarrow> publish_events d 0 True st' events;
                    u \<leftarrow> cleanOld d;
                    State_Monad.return st''
                  }))
           }))
   }"

section \<open>The cycle keeps the system's accounting\<close>

text \<open>The row of an event in hand, while it exists, has the identity the dispatcher read.\<close>

definition handed :: "outbox_event \<Rightarrow> world \<Rightarrow> bool" where
  "handed e w = (outbox_wf w \<and> ob_id e < w_next_outbox_id w \<and>
     (\<forall>e'. event_at w (ob_id e) = Some e' \<longrightarrow> ob_identity e' = ob_identity e))"

lemma handed_evolves: "handed e w \<Longrightarrow> outbox_evolves w w' \<Longrightarrow> handed e w'"
  unfolding handed_def outbox_evolves_def event_evolves_def
  by (metis order_less_le_trans)

lemma stable_handed: "stable sys_evolves (handed e)"
  unfolding stable_def using handed_evolves sys_evolvesD(2) by blast

lemma stable_event_sent: "stable sys_evolves (event_sent e)"
  unfolding stable_def using event_sent_grows sys_evolvesD(4) by blast

lemma stable_outbox_wf: "stable sys_evolves outbox_wf"
  unfolding stable_def sys_evolves_def outbox_evolves_def by blast

lemma stable_all: "(\<And>e. stable R (Q e)) \<Longrightarrow> stable R (\<lambda>w. \<forall>e \<in> A. Q e w)"
  unfolding stable_def by blast

lemma triple_release:
  assumes P: "stable sys_evolves P"
  shows "triple sys_evolves P (releaseEvent d e reason) (\<lambda>_. P)"
  unfolding releaseEvent_def release_with_retry_def
  by (intro triple_bind [OF triple_now [where Q = "\<lambda>_. P"]] triple_return
      triple_bind [OF triple_bind [OF sys.triple_keep [OF P sys_release]]])

lemma triple_releaseAll:
  assumes P: "stable sys_evolves P"
  shows "triple sys_evolves P (releaseAll d reason es) (\<lambda>_. P)"
proof (induction es)
  case Nil
  show ?case by (simp add: triple_return)
next
  case (Cons e es)
  show ?case unfolding releaseAll.simps by (rule triple_bind [OF triple_release [OF P] Cons.IH])
qed

lemma triple_cleanOld:
  assumes P: "stable sys_evolves P"
  shows "triple sys_evolves P (cleanOld d) (\<lambda>_. P)"
  unfolding cleanOld_def delete_old_published_def
  by (intro triple_bind [OF triple_now [where Q = "\<lambda>_. P"]] triple_return
      triple_bind [OF triple_bind [OF sys.triple_keep [OF P sys_delete]]])

lemma claim_handed:
  assumes "outbox_wf w" and "e \<in> set es" and "claim_batch_tx pick token n ttl t w = (Inr es, w')"
  shows "handed e w'"
proof -
  have wf: "outbox_wf w'"
    using Outbox.claim_evolves [of w pick token n ttl t] assms(1,3) by (simp add: outbox_evolves_def)
  have e: "event_at w' (ob_id e) = Some e" by (rule claim_hands_out(1) [OF assms(3,2)])
  with wf lookup_key [OF e] show ?thesis by (auto simp: handed_def outbox_wf_def)
qed

lemma triple_claim_batch:
  assumes P: "stable sys_evolves P" and wf: "\<And>w. P w \<Longrightarrow> outbox_wf w"
  shows "triple sys_evolves P (claim_batch pick token n ttl t)
    (\<lambda>r w. P w \<and> (\<forall>es. r = Inr es \<longrightarrow> (\<forall>e \<in> set es. handed e w)))"
  unfolding claim_batch_def
proof (rule triple_bind [OF sys.triple_ext
      [where Q = "\<lambda>r w. P w \<and> (\<forall>es. r = Inr es \<longrightarrow> (\<forall>e \<in> set es. handed e w))", OF P]])
  fix w assume w: "P w"
  let ?r = "claim_batch_tx pick token n ttl t w"
  have P': "P (snd ?r)" using P w sys_claim unfolding stable_def by blast
  show "P (snd ?r) \<and> (\<forall>es. fst ?r = Inr es \<longrightarrow> (\<forall>e \<in> set es. handed e (snd ?r)))"
    using P' claim_handed [OF wf [OF w]] by (auto simp: prod_eq_iff)
  fix e :: go_error
  show "P w \<and> (\<forall>es. Inl e = Inr es \<longrightarrow> (\<forall>e \<in> set es. handed e w))" using w by simp
  show "P (snd ?r) \<and> (\<forall>es. Inl e = Inr es \<longrightarrow> (\<forall>e \<in> set es. handed e (snd ?r)))" using P' by simp
qed (rule triple_return, auto split: sum.splits)

lemma triple_mark:
  assumes P: "stable sys_evolves P" and e: "\<And>w. P w \<Longrightarrow> handed e w \<and> event_sent e w"
  shows "triple sys_evolves P (mark_published (ob_id e) token t) (\<lambda>_. P)"
  unfolding mark_published_def Let_def
proof (rule triple_bind [OF sys.triple_keep [OF P]])
  fix w assume "P w"
  with e have w: "handed e w" "event_sent e w" by blast+
  have "event_sent e' w" if "event_at w (ob_id e) = Some e'" for e'
    using w that event_sent_identity unfolding handed_def by blast
  then show "sys_evolves w (snd (mark_published_stmt (ob_id e) token t w))"
    using w(1) by (intro sys_mark_published) (auto simp: handed_def)
qed (rule triple_return)

text \<open>Connecting declares the main topology.\<close>

definition connected :: "world \<Rightarrow> bool" where
  "connected w = bound mqQueue mqRoutingKey mqExchange w"

lemma triple_ask: "stable sys_evolves P \<Longrightarrow> triple sys_evolves P ask (\<lambda>_. P)"
  unfolding ask_def by (rule sys.triple_keep) (simp_all add: sys.R_refl)

lemma triple_newPublisher:
  assumes P: "stable sys_evolves P"
  shows "triple sys_evolves P newRabbitMQPublisher (\<lambda>r w. P w \<and> (r = None \<longrightarrow> connected w))"
  unfolding newRabbitMQPublisher_def
proof (rule triple_bind)
  show "triple sys_evolves P declareMQTopology (\<lambda>r w. P w \<and> (r = None \<longrightarrow> connected w))"
    unfolding declareMQTopology_def
    by (rule triple_conseq [OF sys.triple_declare_all [OF P]]) (auto simp: connected_def)
  fix r :: "go_error option"
  have P': "stable sys_evolves (\<lambda>w. P w \<and> (r = None \<longrightarrow> connected w))"
    using P sys.stable_bound unfolding stable_def connected_def by blast
  have conf: "triple sys_evolves (\<lambda>w. P w \<and> (r = None \<longrightarrow> connected w)) newConfirmPub
      (\<lambda>_ w. P w \<and> (r = None \<longrightarrow> connected w))"
    unfolding newConfirmPub_def
    by (rule triple_bind [OF sys.triple_keep [OF P']]) (auto intro: sys.R_refl triple_return)
  show "triple sys_evolves (\<lambda>w. P w \<and> (r = None \<longrightarrow> connected w))
      (case r of
        Some e \<Rightarrow> State_Monad.return (Some (Wrap ''publisher: declare topology: '' e ''''))
      | None \<Rightarrow> State_Monad.bind newConfirmPub
          (\<lambda>c. State_Monad.return (map_option (\<lambda>e. Wrap ''publisher: '' e '''') c)))
      (\<lambda>r w. P w \<and> (r = None \<longrightarrow> connected w))"
  proof (cases r)
    case None
    show ?thesis unfolding None option.case
      by (rule triple_bind [OF conf [unfolded None]], rule triple_return) auto
  next
    case (Some e)
    show ?thesis unfolding Some option.case by (rule triple_return) auto
  qed
qed

definition link_ok :: "go_error option \<times> dispatcher \<Rightarrow> world \<Rightarrow> bool" where
  "link_ok p w = (fst p = None \<or> dp_pub (snd p) \<longrightarrow> connected w)"

lemma triple_connect:
  assumes P: "stable sys_evolves P"
  shows "triple sys_evolves P connect (\<lambda>p w. P w \<and> link_ok p w)"
proof -
  have last: "triple sys_evolves P (State_Monad.bind newRabbitMQPublisher (\<lambda>p. State_Monad.return (case p of
                   Some e \<Rightarrow> (Some (Wrap ''dispatcher: new publisher: '' e ''''), \<lparr>dp_pub = False, dp_conn = False\<rparr>)
                 | None \<Rightarrow> (None, \<lparr>dp_pub = True, dp_conn = True\<rparr>))))
      (\<lambda>p w. P w \<and> link_ok p w)"
    by (rule triple_bind [OF triple_newPublisher [OF P]], rule triple_return)
       (auto simp: link_ok_def split: option.splits)
  have fail: "triple sys_evolves P (State_Monad.return (Some e, \<lparr>dp_pub = False, dp_conn = False\<rparr>))
      (\<lambda>p w. P w \<and> link_ok p w)" for e
    by (rule triple_return) (simp add: link_ok_def)
  show ?thesis
    unfolding connect_def
    by (intro triple_bind [OF triple_ask [OF P]]) (auto simp: last fail triple_bind [OF triple_ask [OF P]]
        split: sum.splits intro!: triple_bind [OF triple_ask [OF P]])
qed

definition dispatcher_ok :: "dispatcher \<Rightarrow> world \<Rightarrow> bool" where
  "dispatcher_ok st w = (dp_pub st \<longrightarrow> connected w)"

lemma stable_connected: "stable sys_evolves connected"
  unfolding connected_def by (rule sys.stable_bound)

lemma triple_ensurePublisher:
  assumes P: "stable sys_evolves P"
  shows "triple sys_evolves (\<lambda>w. P w \<and> dispatcher_ok st w) (ensurePublisher st)
    (\<lambda>p w. P w \<and> link_ok p w)"
proof (cases "dp_pub st \<and> dp_conn st")
  case True
  have P': "stable sys_evolves (\<lambda>w. P w \<and> connected w)"
    by (rule stable_conj [OF P stable_connected])
  have pre: "P w \<and> dispatcher_ok st w \<Longrightarrow> P w \<and> connected w" for w
    using True by (simp add: dispatcher_ok_def)
  have "triple sys_evolves (\<lambda>w. P w \<and> connected w)
      (case r of Inr _ \<Rightarrow> State_Monad.return (None, st) | Inl _ \<Rightarrow> connect)
      (\<lambda>p w. P w \<and> link_ok p w)" for r :: "go_error + unit"
    by (cases r)
       (auto intro!: triple_return triple_conseq [OF triple_connect [OF P']] simp: link_ok_def)
  from triple_conseq [OF triple_bind [OF triple_ask [OF P'] this] pre] True
  show ?thesis unfolding ensurePublisher_def by simp
next
  case False
  have "triple sys_evolves (\<lambda>w. P w \<and> dispatcher_ok st w) connect (\<lambda>p w. P w \<and> link_ok p w)"
    by (rule triple_conseq [OF triple_connect [OF P]]) auto
  then show ?thesis using False by (auto simp: ensurePublisher_def)
qed

lemma triple_publish_on:
  assumes "amqp_route (de_route d)" and "stable sys_evolves P" and "\<And>w. P w \<Longrightarrow> connected w"
  shows "triple sys_evolves P (publish_on d alive e) (\<lambda>r w. P w \<and> (r = None \<longrightarrow> event_sent e w))"
proof (cases alive)
  case True
  then show ?thesis
    unfolding publish_on_def event_sent_def
    using sys.triple_publish_outbox [OF assms(1,2)] assms(3) by (simp add: connected_def)
next
  case False
  then show ?thesis unfolding publish_on_def by (auto intro!: triple_return simp: wrap_error_def)
qed

lemma triple_publish_events:
  assumes route: "amqp_route (de_route d)" and P: "stable sys_evolves P" and con: "\<And>w. P w \<Longrightarrow> connected w"
  shows "triple sys_evolves (\<lambda>w. P w \<and> (\<forall>e \<in> set es. handed e w)) (publish_events d i alive st es) (\<lambda>_. P)"
proof (induction es arbitrary: i alive st)
  case Nil
  show ?case by (simp add: triple_return)
next
  case (Cons e es)
  define Q where "Q = (\<lambda>w. P w \<and> (\<forall>e \<in> set (e # es). handed e w))"
  have Q: "stable sys_evolves Q"
    unfolding Q_def by (intro stable_conj P stable_all stable_handed)
  have rest: "triple sys_evolves Q (publish_events d j b s es) (\<lambda>_. P)" for j b s
    by (rule triple_conseq [OF Cons.IH]) (simp_all add: Q_def)
  note skip = triple_bind [OF triple_release [OF Q] rest]
  have "triple sys_evolves Q (publish_events d i alive st (e # es)) (\<lambda>_. P)"
  proof (cases "de_stop d i")
    case True
    show ?thesis unfolding publish_events.simps if_P [OF True] by (rule skip)
  next
    case False
    have mark: "triple sys_evolves (\<lambda>w. Q w \<and> event_sent e w) (mark_published (ob_id e) (event_token e) t)
        (\<lambda>_. Q)" for t
      by (rule triple_conseq [OF triple_mark [OF stable_conj [OF Q stable_event_sent]]])
         (auto simp: Q_def)
    have "triple sys_evolves (\<lambda>w. Q w \<and> (r = None \<longrightarrow> event_sent e w))
        (case r of
           Some err \<Rightarrow> State_Monad.bind (releaseEvent d e (de_text d err))
             (\<lambda>u. publish_events d (Suc i) False (invalidatePublisher st) es)
         | None \<Rightarrow> State_Monad.bind now (\<lambda>t. State_Monad.bind (mark_published (ob_id e) (event_token e) t)
             (\<lambda>m. publish_events d (Suc i) alive st es))) (\<lambda>_. P)" for r
    proof (cases r)
      case None
      show ?thesis unfolding None option.case
        by (rule triple_bind [OF triple_now triple_bind [OF mark rest]]) simp
    next
      case (Some err)
      show ?thesis unfolding Some option.case by (rule triple_conseq [OF skip]) auto
    qed
    from triple_bind [OF triple_publish_on [OF route Q] this]
    show ?thesis unfolding publish_events.simps if_not_P [OF False] using con by (simp add: Q_def)
  qed
  then show ?case by (simp only: Q_def)
qed

text \<open>The part of a cycle after a non-empty claim.\<close>

lemma triple_dispatch:
  assumes route: "amqp_route (de_route d)" and P: "stable sys_evolves P"
  shows "triple sys_evolves (\<lambda>w. (P w \<and> (\<forall>e \<in> set es. handed e w)) \<and> link_ok (err, st) w)
    (case err of
       Some e \<Rightarrow> State_Monad.bind (releaseAll d (''rabbitmq unavailable: '' @ de_text d e) es)
         (\<lambda>u. State_Monad.return st)
     | None \<Rightarrow> State_Monad.bind (publish_events d 0 True st es)
         (\<lambda>st'. State_Monad.bind (cleanOld d) (\<lambda>u. State_Monad.return st'))) (\<lambda>_. P)"
proof (cases err)
  case None
  define Pc where "Pc = (\<lambda>w. P w \<and> connected w)"
  have Pc: "stable sys_evolves Pc" unfolding Pc_def by (rule stable_conj [OF P stable_connected])
  have "triple sys_evolves (\<lambda>w. Pc w \<and> (\<forall>e \<in> set es. handed e w))
      (State_Monad.bind (publish_events d 0 True st es)
         (\<lambda>st'. State_Monad.bind (cleanOld d) (\<lambda>u. State_Monad.return st'))) (\<lambda>_. P)"
    by (rule triple_bind [OF triple_publish_events [OF route Pc]
          triple_bind [OF triple_cleanOld [OF Pc] triple_return]]) (simp_all add: Pc_def)
  then show ?thesis
    unfolding None option.case
    by (rule triple_conseq) (simp_all add: Pc_def link_ok_def)
next
  case (Some e)
  show ?thesis
    unfolding Some option.case
    by (rule triple_conseq [OF triple_bind [OF triple_releaseAll [OF P] triple_return]]) auto
qed

lemma triple_runOnce:
  assumes route: "amqp_route (de_route d)" and P: "stable sys_evolves P" and wf: "\<And>w. P w \<Longrightarrow> outbox_wf w"
  shows "triple sys_evolves (\<lambda>w. P w \<and> dispatcher_ok st w) (runOnce d st) (\<lambda>_. P)"
  unfolding runOnce_def
proof (rule triple_bind [OF triple_now [where Q = "\<lambda>_ w. P w \<and> dispatcher_ok st w"]], assumption)
  fix t
  have ok: "stable sys_evolves (dispatcher_ok st)"
    using stable_connected unfolding stable_def dispatcher_ok_def by blast
  have wf0: "P w \<and> dispatcher_ok st w \<Longrightarrow> outbox_wf w" for w using wf by blast
  let ?k = "\<lambda>r. case r of
        Inl e \<Rightarrow> State_Monad.return st
      | Inr events \<Rightarrow>
          (if events = [] then State_Monad.bind (cleanOld d) (\<lambda>u. State_Monad.return st)
           else State_Monad.bind (ensurePublisher st) (\<lambda>p. case p of (err, st') \<Rightarrow>
             (case err of
                  Some e \<Rightarrow> State_Monad.bind (releaseAll d (''rabbitmq unavailable: '' @ de_text d e) events)
                    (\<lambda>u. State_Monad.return st')
                | None \<Rightarrow> State_Monad.bind (publish_events d 0 True st' events)
                    (\<lambda>st''. State_Monad.bind (cleanOld d) (\<lambda>u. State_Monad.return st'')))))"
  have rest: "triple sys_evolves
      (\<lambda>w. (P w \<and> dispatcher_ok st w) \<and> (\<forall>es. r = Inr es \<longrightarrow> (\<forall>e \<in> set es. handed e w))) (?k r) (\<lambda>_. P)"
    for r :: "go_error + outbox_event list"
  proof (cases r)
    case (Inl e)
    show ?thesis unfolding Inl sum.case by (rule triple_return) blast
  next
    case (Inr es)
    have clean: "triple sys_evolves P (State_Monad.bind (cleanOld d) (\<lambda>u. State_Monad.return st)) (\<lambda>_. P)"
      by (rule triple_bind [OF triple_cleanOld [OF P] triple_return])
    have P': "stable sys_evolves (\<lambda>w. P w \<and> (\<forall>e \<in> set es. handed e w))"
      by (intro stable_conj P stable_all stable_handed)
    have go: "triple sys_evolves (\<lambda>w. (P w \<and> (\<forall>e \<in> set es. handed e w)) \<and> link_ok p w)
        (case p of (err, st') \<Rightarrow>
             (case err of
                  Some e \<Rightarrow> State_Monad.bind (releaseAll d (''rabbitmq unavailable: '' @ de_text d e) es)
                    (\<lambda>u. State_Monad.return st')
                | None \<Rightarrow> State_Monad.bind (publish_events d 0 True st' es)
                    (\<lambda>st''. State_Monad.bind (cleanOld d) (\<lambda>u. State_Monad.return st'')))) (\<lambda>_. P)" for p
      using triple_dispatch [OF route P, of es "fst p" "snd p"] unfolding case_prod_beta prod.collapse .
    note dispatch = triple_bind [OF triple_ensurePublisher [OF P', of st] go]
    show ?thesis
    proof (cases "es = []")
      case True
      show ?thesis unfolding Inr sum.case if_P [OF True] by (rule triple_conseq [OF clean]) auto
    next
      case False
      show ?thesis unfolding Inr sum.case if_not_P [OF False] by (rule triple_conseq [OF dispatch]) auto
    qed
  qed
  show "triple sys_evolves (\<lambda>w. P w \<and> dispatcher_ok st w)
      (State_Monad.bind (claim_batch (de_pick d) (de_token d) (dc_batch_size (de_config d))
        (dc_lease_ttl (de_config d)) t) ?k) (\<lambda>_. P)"
    by (rule triple_bind [OF triple_claim_batch [OF stable_conj [OF P ok] wf0] rest])
qed

section \<open>Progress\<close>

text \<open>A broker that confirms every publish to a bound key.\<close>

definition confirming :: "route \<Rightarrow> bool" where
  "confirming route = (\<forall>x key pub w q. bound q key x w \<longrightarrow> fst (route x key pub w) = Confirmed True None)"

lemma direct_route_confirming [simp]: "confirming direct_route"
  by (force simp: confirming_def direct_route_def bound_def Let_def filter_empty_conv)

lemma run_publish_on:
  assumes "amqp_route (de_route d)" and "confirming (de_route d)" and "connected w"
  shows "\<exists>qs. run_state (publish_on d True e) (quiet w) = (None, quiet (w\<lparr>w_queues := qs\<rparr>)) \<and>
    event_sent e (w\<lparr>w_queues := qs\<rparr>) \<and> broker_grows w (w\<lparr>w_queues := qs\<rparr>)"
proof -
  let ?r = "de_route d mqExchange mqRoutingKey (envelope_publishing (outbox_message e) None) w"
  have b: "bound mqQueue mqRoutingKey mqExchange w" using assms(3) by (simp add: connected_def)
  have ok: "fst ?r = Confirmed True None" using assms(2) b unfolding confirming_def by blast
  obtain qs where w': "snd ?r = w\<lparr>w_queues := qs\<rparr>"
    using route_only_queues [OF assms(1) surjective_pairing] by blast
  have "event_sent e (snd ?r)" "broker_grows w (snd ?r)"
    using route_confirmed [OF assms(1) surjective_pairing _ b] route_grows [OF assms(1) surjective_pairing] ok
    by (simp_all add: event_sent_def)
  moreover have "run_state (publish_on d True e) (quiet w) = (None, quiet (snd ?r))"
    using ok by (simp add: publish_on_def publish_outbox_def confirm_publish_def quiet_def case_prod_beta
        wrap_error_def)
  ultimately show ?thesis using w' by auto
qed

lemma run_mark_published:
  "snd (run_state (mark_published k token t) (quiet w)) = quiet (snd (mark_published_stmt k token t w))"
  by (simp add: mark_published_def quiet_def Let_def)

lemma mark_published_at:
  "event_at (snd (mark_published_stmt k token t w)) j =
     (if j = k then map_option (\<lambda>e. if holds_lease token e \<and> ob_status e = OutboxPublishing
        then publish_event t e else e) (event_at w k) else event_at w j)"
  using publish_lease.upd.lookup_self [where row_key = k and tok = token and t = t and rows = "w_outbox w"]
    publish_lease.upd.lookup_other [where j = j and row_key = k and tok = token and t = t and rows = "w_outbox w"]
  by (simp add: mark_published_stmt_def Let_def)

lemma mark_published_frame:
  "w_queues (snd (mark_published_stmt k token t w)) = w_queues w"
  "w_bindings (snd (mark_published_stmt k token t w)) = w_bindings w"
  "w_clock (snd (mark_published_stmt k token t w)) = w_clock w"
  by (simp_all add: mark_published_stmt_def Let_def)

text \<open>The publish loop, undisturbed, publishes every event it holds.\<close>

lemma run_publish_events:
  assumes route: "amqp_route (de_route d)" "confirming (de_route d)" and go: "\<And>i. \<not> de_stop d i"
  shows "connected w \<Longrightarrow> distinct (map ob_id es) \<Longrightarrow>
     (\<forall>e \<in> set es. event_at w (ob_id e) = Some e \<and> ob_status e = OutboxPublishing \<and> ob_lease_token e \<noteq> None) \<Longrightarrow>
     \<exists>w'. run_state (publish_events d i True st es) (quiet w) = (st, quiet w') \<and> w_clock w' = w_clock w \<and>
       (\<forall>e \<in> set es. event_at w' (ob_id e) = Some (publish_event (w_clock w) e) \<and> event_sent e w') \<and>
       (\<forall>k. k \<notin> ob_id ` set es \<longrightarrow> event_at w' k = event_at w k) \<and> broker_grows w w'"
proof (induction es arbitrary: w i)
  case Nil
  show ?case by (rule exI [of _ w]) (simp add: broker_evol.R_refl)
next
  case (Cons e es)
  obtain qs where pub: "run_state (publish_on d True e) (quiet w) = (None, quiet (w\<lparr>w_queues := qs\<rparr>))"
      "event_sent e (w\<lparr>w_queues := qs\<rparr>)" "broker_grows w (w\<lparr>w_queues := qs\<rparr>)"
    using run_publish_on [OF route Cons.prems(1)] by blast
  let ?w1 = "w\<lparr>w_queues := qs\<rparr>"
  define w2 where "w2 = snd (mark_published_stmt (ob_id e) (event_token e) (w_clock w) ?w1)"
  have frame: "w_queues w2 = qs" "w_bindings w2 = w_bindings w" "w_clock w2 = w_clock w"
    by (simp_all add: w2_def mark_published_frame)
  have grow: "broker_grows ?w1 w2"
    by (rule broker_grows_same) (simp_all add: w2_def mark_published_stmt_def Let_def)
  have e: "event_at w2 (ob_id e) = Some (publish_event (w_clock w) e)"
    using Cons.prems(3) by (auto simp: w2_def mark_published_at holds_lease_def event_token_def)
  have other: "event_at w2 k = event_at w k" if "k \<noteq> ob_id e" for k
    using that by (simp add: w2_def mark_published_at)
  have "connected w2" using Cons.prems(1) by (simp add: connected_def bound_def frame)
  moreover have "distinct (map ob_id es)" using Cons.prems(2) by simp
  moreover have "\<forall>x \<in> set es. event_at w2 (ob_id x) = Some x \<and> ob_status x = OutboxPublishing \<and> ob_lease_token x \<noteq> None"
    using Cons.prems(2,3) other by (auto simp: image_iff)
  ultimately obtain w' where w': "run_state (publish_events d (Suc i) True st es) (quiet w2) = (st, quiet w')"
      "w_clock w' = w_clock w" "\<forall>x \<in> set es. event_at w' (ob_id x) = Some (publish_event (w_clock w) x) \<and> event_sent x w'"
      "\<forall>k. k \<notin> ob_id ` set es \<longrightarrow> event_at w' k = event_at w2 k" "broker_grows w2 w'"
    using Cons.IH [of w2 "Suc i"] frame(3) by auto
  have run: "run_state (publish_events d i True st (e # es)) (quiet w) = (st, quiet w')"
    using w'(1) run_mark_published [of "ob_id e" "event_token e" "w_clock w" ?w1] go pub(1)
    by (simp add: w2_def quiet_def case_prod_beta)
  have "ob_id e \<notin> ob_id ` set es" using Cons.prems(2) by simp
  with w'(4) e have e': "event_at w' (ob_id e) = Some (publish_event (w_clock w) e)" by simp
  have g: "broker_grows w w'" using pub(3) grow w'(5) broker_evol.R_trans by blast
  have "event_sent e w'"
    using pub(2) grow w'(5) broker_evol.R_trans event_sent_grows by blast
  with run e' w' other g show ?case by (intro exI [of _ w']) auto
qed

section \<open>Properties\<close>

definition sample_env :: dispatcher_env where
  "sample_env = \<lparr>de_config = \<lparr>dc_batch_size = 10, dc_lease_ttl = 30, dc_base_backoff = 2, dc_max_backoff = 60,
       dc_published_retain = 100, dc_clean_batch = 10\<rparr>, de_route = direct_route, de_oob = (\<lambda>x. - (2 ^ 63)),
     de_text = (\<lambda>e. ''error''), de_pick = [1], de_token = ''lease'', de_stop = (\<lambda>i. False)\<rparr>"

lemma ready_world_connected [simp]: "connected ready_world"
  by (simp add: connected_def)

text \<open>
  C15. Nothing is marked published that the broker did not confirm, and no job loses its way to the
  queue: a dispatcher cycle, under any faults, lost replies and interference by processes that keep
  the same rules, ends in a state where every published event has its message in the execution
  queue and every job still has its event or a message in that queue.
\<close>

theorem dispatcher_cycle_keeps_accounting:
  assumes "amqp_route (de_route d)" and "rely sys_evolves m" and "outbox_wf (m_world m)"
    and "accounted (m_world m)" and "dispatcher_ok st (m_world m)" and "run_state (runOnce d st) m = (st', m')"
  shows "(\<forall>e \<in> set (w_outbox (m_world m')). ob_status e = OutboxPublished \<longrightarrow>
        sent mqQueue (envelope_publishing (outbox_message e) None) (m_world m')) \<and>
    (\<forall>j \<in> set (w_jobs (m_world m')). (\<exists>e \<in> set (w_outbox (m_world m')). ob_job_id e = jb_id j) \<or>
        (\<exists>p \<in> set (queue_at (m_world m') mqQueue). \<exists>msg. pb_body p = JsonBody msg \<and> mg_job_id msg = jb_id j))"
proof -
  let ?P = "\<lambda>w. outbox_wf w \<and> accounted w"
  have "stable sys_evolves ?P"
    unfolding stable_def sys_evolves_def outbox_evolves_def by blast
  from triple_runOnce [OF assms(1) this]
  have "triple sys_evolves (\<lambda>w. ?P w \<and> dispatcher_ok st w) (runOnce d st) (\<lambda>_. ?P)" by blast
  from tripleD [OF this assms(2) _ assms(6)] assms(3-5)
  show ?thesis by (auto simp: accounted_def event_sent_def job_accounted_def job_message_sent_def)
qed

theorem dispatcher_cycle_keeps_accounting_witness:
  "\<exists>e w'. m_world (snd (run_state (runOnce sample_env \<lparr>dp_pub = True, dp_conn = True\<rparr>) (quiet ready_world))) = w' \<and>
     w_outbox w' = [e] \<and> ob_status e = OutboxPublished \<and>
     sent mqQueue (envelope_publishing (outbox_message e) None) w'"
proof -
  let ?run = "run_state (runOnce sample_env \<lparr>dp_pub = True, dp_conn = True\<rparr>) (quiet ready_world)"
  have "map ob_status (w_outbox (m_world (snd ?run))) = [OutboxPublished]" by code_simp
  then obtain e where e: "w_outbox (m_world (snd ?run)) = [e]" "ob_status e = OutboxPublished"
    by (auto simp: map_eq_Cons_conv)
  have "outbox_wf (m_world (quiet ready_world))" "accounted (m_world (quiet ready_world))"
      "dispatcher_ok \<lparr>dp_pub = True, dp_conn = True\<rparr> (m_world (quiet ready_world))"
      "amqp_route (de_route sample_env)"
    by (simp_all add: quiet_def dispatcher_ok_def sample_env_def)
  from dispatcher_cycle_keeps_accounting [OF this(4) rely_quiet this(1-3) surjective_pairing] e
  show ?thesis by auto
qed

text \<open>
  Progress: an undisturbed cycle, with a broker that confirms, publishes every event it claimed -
  the message is in the execution queue, the row is marked published and its lease is cleared - and
  keeps the publisher.
\<close>

theorem undisturbed_batch_is_published:
  assumes "amqp_route (de_route d)" and "confirming (de_route d)" and "\<forall>i. \<not> de_stop d i"
    and "connected w" and "claim_batch_tx pick token n ttl t w = (Inr es, w1)"
  shows "\<exists>w'. run_state (publish_events d 0 True st es) (quiet w1) = (st, quiet w') \<and>
    (\<forall>e \<in> set es. \<exists>e'. event_at w' (ob_id e) = Some e' \<and> ob_status e' = OutboxPublished \<and>
       ob_lease_token e' = None \<and> sent mqQueue (envelope_publishing (outbox_message e) None) w')"
proof -
  have con: "connected w1"
    using assms(4,5) by (auto simp: connected_def bound_def claim_batch_tx_def Let_def split: if_splits)
  have d: "distinct (map ob_id es)"
    using claim_select_distinct [of pick n t w] assms(5)
    by (auto simp: claim_batch_tx_def Let_def lease_event_def o_def split: if_splits)
  have "\<forall>e \<in> set es. event_at w1 (ob_id e) = Some e \<and> ob_status e = OutboxPublishing \<and> ob_lease_token e \<noteq> None"
    using claim_hands_out(1,2) [OF assms(5)] by auto
  from run_publish_events [OF assms(1,2) _ con d this, of 0 st] assms(3)
  show ?thesis by (fastforce simp: publish_event_def event_sent_def)
qed

theorem undisturbed_batch_is_published_witness:
  "\<exists>es w1 w'. claim_batch_tx [1] ''lease'' 10 30 6 ready_world = (Inr es, w1) \<and> es \<noteq> [] \<and>
     run_state (publish_events sample_env 0 True \<lparr>dp_pub = True, dp_conn = True\<rparr> es) (quiet w1) =
       (\<lparr>dp_pub = True, dp_conn = True\<rparr>, quiet w') \<and>
     (\<exists>e'. event_at w' (ob_id (hd es)) = Some e' \<and> ob_status e' = OutboxPublished)"
proof -
  define r where "r = claim_batch_tx [1] ''lease'' 10 30 6 ready_world"
  obtain es where es: "r = (Inr es, snd r)" "es \<noteq> []"
    by (simp add: r_def claim_batch_tx_def claim_select_def List.map_filter_simps Let_def claimable_def
        ready_world_def submitted_world_outbox sample_event_def newOutboxEvent_def)
  have env: "amqp_route (de_route sample_env)" "confirming (de_route sample_env)" "\<forall>i. \<not> de_stop sample_env i"
    by (simp_all add: sample_env_def)
  from undisturbed_batch_is_published [OF env ready_world_connected es(1) [unfolded r_def]] es
  show ?thesis unfolding r_def by (metis prod.collapse hd_in_set)
qed

text \<open>
  Retry delays stay in bounds: with a positive base not above the maximum, every delay is
  positive and at most the maximum, whatever the conversion of an overflowing float yields; and up
  to the maximum it is exactly the base doubled once per earlier attempt.
\<close>

theorem backoff_is_capped_exponential:
  assumes "0 < dc_base_backoff cfg" and "dc_base_backoff cfg \<le> dc_max_backoff cfg" and "dc_max_backoff cfg < 2 ^ 63"
  shows "0 < backoffFor oob cfg n \<and> backoffFor oob cfg n \<le> dc_max_backoff cfg \<and>
    (1 \<le> n \<longrightarrow> dc_base_backoff cfg * 2 ^ nat (n - 1) \<le> dc_max_backoff cfg \<longrightarrow>
       backoffFor oob cfg n = dc_base_backoff cfg * 2 ^ nat (n - 1)) \<and>
    (1 \<le> n \<longrightarrow> saturating oob \<longrightarrow> dc_max_backoff cfg < dc_base_backoff cfg * 2 ^ nat (n - 1) \<longrightarrow>
       backoffFor oob cfg n = dc_max_backoff cfg)"
  using backoff_range [OF assms(1,2)] backoff_exact [OF assms(1) _ _ assms(3)]
    backoff_capped [OF assms(1) _ _ _ assms(3)] assms(1,2)
  by (auto intro: order_less_le_trans)

theorem backoff_is_capped_exponential_witness:
  "backoffFor (\<lambda>x. - (2 ^ 63)) (de_config sample_env) 4 = 16 \<and>
   backoffFor (\<lambda>x. - (2 ^ 63)) (de_config sample_env) 99 = 60"
proof -
  have "saturating (\<lambda>x. - (2 ^ 63))" by (simp add: saturating_def)
  then show ?thesis
    using backoff_is_capped_exponential [of "de_config sample_env" "\<lambda>x. - (2 ^ 63)" 4]
      backoff_is_capped_exponential [of "de_config sample_env" "\<lambda>x. - (2 ^ 63)" 99]
    by (simp add: sample_env_def)
qed

end
