(* ===== verification/Go_Strings.thy ===== *)
theory Go_Strings
  imports Go_Base
begin

text \<open>
  Go strings are byte sequences; here \<open>string\<close> is one, a character per byte. This theory models what
  the program uses of packages \<open>strings\<close> and \<open>unicode/utf8\<close>: the decoding into runes (an invalid byte
  is one rune of width 1), rune counts, trimming, splitting, prefixes, lower case.
\<close>

section \<open>Runes\<close>

definition byte :: "char \<Rightarrow> nat" where
  "byte c = of_char c"

definition continuation :: "nat \<Rightarrow> bool" where
  "continuation b = (128 \<le> b \<and> b \<le> 191)"

definition rune_error :: nat where "rune_error = 65533"

text \<open>
  \<open>utf8.DecodeRune\<close> on a nonempty byte list: the rune and its width. The accepted ranges of the second
  byte exclude overlong forms, surrogates and values above 0x10FFFF.
\<close>

definition second_ok :: "nat \<Rightarrow> nat \<Rightarrow> bool" where
  "second_ok b b1 =
     (if b = 224 then 160 \<le> b1 \<and> b1 \<le> 191
      else if b = 237 then 128 \<le> b1 \<and> b1 \<le> 159
      else if b = 240 then 144 \<le> b1 \<and> b1 \<le> 191
      else if b = 244 then 128 \<le> b1 \<and> b1 \<le> 143
      else continuation b1)"

fun decode_rune :: "nat list \<Rightarrow> nat \<times> nat" where
  "decode_rune [] = (rune_error, 0)"
| "decode_rune (b # bs) =
     (if b < 128 then (b, 1)
      else if 194 \<le> b \<and> b \<le> 223 then
        (case bs of b1 # _ \<Rightarrow>
           (if continuation b1 then ((b - 192) * 64 + (b1 - 128), 2) else (rune_error, 1))
         | _ \<Rightarrow> (rune_error, 1))
      else if 224 \<le> b \<and> b \<le> 239 then
        (case bs of b1 # b2 # _ \<Rightarrow>
           (if second_ok b b1 \<and> continuation b2
            then ((b - 224) * 4096 + (b1 - 128) * 64 + (b2 - 128), 3) else (rune_error, 1))
         | _ \<Rightarrow> (rune_error, 1))
      else if 240 \<le> b \<and> b \<le> 244 then
        (case bs of b1 # b2 # b3 # _ \<Rightarrow>
           (if second_ok b b1 \<and> continuation b2 \<and> continuation b3
            then ((b - 240) * 262144 + (b1 - 128) * 4096 + (b2 - 128) * 64 + (b3 - 128), 4)
            else (rune_error, 1))
         | _ \<Rightarrow> (rune_error, 1))
      else (rune_error, 1))"

lemma decode_width: "bs \<noteq> [] \<Longrightarrow> 1 \<le> snd (decode_rune bs)"
  by (cases bs) (auto split: list.splits)

lemma decode_shrinks:
  assumes "s \<noteq> []"
  shows "length s - snd (decode_rune (map byte (take 4 s))) < length s"
proof -
  have "1 \<le> snd (decode_rune (map byte (take 4 s)))" using assms by (intro decode_width) simp
  then show ?thesis using assms by simp
qed

text \<open>The string as runes with their bytes.\<close>

function runes :: "string \<Rightarrow> (nat \<times> string) list" where
  "runes s = (if s = [] then []
     else (fst (decode_rune (map byte (take 4 s))), take (snd (decode_rune (map byte (take 4 s)))) s)
       # runes (drop (snd (decode_rune (map byte (take 4 s)))) s))"
  by auto
termination
  by (relation "measure length") (use decode_shrinks in auto)

declare runes.simps [simp del]

lemma runes_Nil [simp]: "runes [] = []"
  by (simp add: runes.simps)

definition rune_count :: "string \<Rightarrow> nat" where
  "rune_count s = length (runes s)"

lemma runes_concat: "concat (map snd (runes s)) = s"
proof (induction s rule: runes.induct)
  case (1 s)
  then show ?case by (subst runes.simps) (auto split: prod.splits)
qed

lemma runes_eq_Nil [simp]: "runes s = [] \<longleftrightarrow> s = []"
  by (subst runes.simps) (simp split: prod.splits)

lemma runes_nonempty_bytes: "(r, bs) \<in> set (runes s) \<Longrightarrow> bs \<noteq> []"
proof (induction s rule: runes.induct)
  case (1 s)
  have "1 \<le> snd (decode_rune (map byte (take 4 s)))" if "s \<noteq> []"
    using that by (intro decode_width) simp
  with 1 show ?case
    by (subst (asm) runes.simps) (fastforce split: prod.splits if_splits)
qed

lemma rune_count_le: "rune_count s \<le> length s"
proof -
  have "length xs \<le> length (concat (map snd xs))" if "\<forall>(r, bs) \<in> set xs. bs \<noteq> []" for xs :: "(nat \<times> string) list"
    using that by (induction xs) (auto simp: Suc_le_eq length_greater_0_conv intro: add_le_mono [of 1, simplified])
  from this [of "runes s"] show ?thesis
    using runes_nonempty_bytes by (auto simp: rune_count_def runes_concat)
qed

text \<open>An ASCII string has one rune per byte.\<close>

definition ascii :: "string \<Rightarrow> bool" where
  "ascii s = list_all (\<lambda>c. byte c < 128) s"

lemma runes_ascii_Cons: "byte c < 128 \<Longrightarrow> runes (c # s) = (byte c, [c]) # runes s"
  by (subst runes.simps) (simp add: numeral_eq_Suc)

lemma rune_count_ascii: "ascii s \<Longrightarrow> rune_count s = length s"
  unfolding rune_count_def ascii_def by (induction s) (auto simp: runes_ascii_Cons)

section \<open>Trimming, splitting, searching\<close>

text \<open>\<open>unicode.IsSpace\<close>\<close>

definition is_space :: "nat \<Rightarrow> bool" where
  "is_space r = (r \<in> {9, 10, 11, 12, 13, 32, 133, 160, 5760, 8232, 8233, 8239, 8287, 12288} \<or> 8192 \<le> r \<and> r \<le> 8202)"

definition trim_space :: "string \<Rightarrow> string" where
  "trim_space s = concat (map snd
     (rev (dropWhile (is_space \<circ> fst) (rev (dropWhile (is_space \<circ> fst) (runes s))))))"

lemma nonempty_pieces:
  "(\<And>r bs. (r, bs) \<in> set xs \<Longrightarrow> bs \<noteq> []) \<Longrightarrow> (\<forall>p \<in> set xs. snd p = []) \<longleftrightarrow> xs = []"
  by (cases xs) fastforce+

lemma dropWhile_all: "(\<forall>x \<in> set (dropWhile P xs). P x) \<longleftrightarrow> (\<forall>x \<in> set xs. P x)"
  by (induction xs) auto

lemma trim_empty_iff: "trim_space s = [] \<longleftrightarrow> list_all (is_space \<circ> fst) (runes s)"
proof -
  let ?P = "is_space \<circ> fst"
  let ?mid = "rev (dropWhile ?P (rev (dropWhile ?P (runes s))))"
  have sub: "set ?mid \<subseteq> set (runes s)"
    by (auto dest!: set_dropWhileD)
  have "trim_space s = [] \<longleftrightarrow> (\<forall>p \<in> set ?mid. snd p = [])"
    by (simp add: trim_space_def)
  also have "\<dots> \<longleftrightarrow> ?mid = []"
    by (rule nonempty_pieces) (use sub runes_nonempty_bytes in blast)
  also have "\<dots> \<longleftrightarrow> (\<forall>p \<in> set (dropWhile ?P (runes s)). ?P p)"
    by simp
  also have "\<dots> \<longleftrightarrow> (\<forall>p \<in> set (runes s). ?P p)"
    by (rule dropWhile_all)
  finally show ?thesis by (simp add: list_all_iff)
qed

lemma trim_solid [simp]: "byte c < 128 \<Longrightarrow> \<not> is_space (byte c) \<Longrightarrow> trim_space (c # s) \<noteq> []"
  by (simp add: trim_empty_iff runes_ascii_Cons)

definition has_prefix :: "string \<Rightarrow> string \<Rightarrow> bool" where
  "has_prefix s p = (take (length p) s = p)"

text \<open>UTF-8 encoding of a rune.\<close>

definition surrogate_or_large :: "nat \<Rightarrow> bool" where
  "surrogate_or_large r = (55296 \<le> r \<and> r \<le> 57343 \<or> 1114111 < r)"

definition encode_rune :: "nat \<Rightarrow> string" where
  "encode_rune r = map char_of
     (if r < 128 then [r]
      else if r < 2048 then [192 + r div 64, 128 + r mod 64]
      else if surrogate_or_large r then [239, 191, 189]
      else if r < 65536 then [224 + r div 4096, 128 + r div 64 mod 64, 128 + r mod 64]
      else [240 + r div 262144, 128 + r div 4096 mod 64, 128 + r div 64 mod 64, 128 + r mod 64])"

text \<open>\<open>strings.Contains(s, c)\<close> and \<open>strings.Count(s, c)\<close> for a one-byte \<open>c\<close>.\<close>

definition contains_byte :: "string \<Rightarrow> char \<Rightarrow> bool" where
  "contains_byte s c = (c \<in> set s)"

definition count_byte :: "string \<Rightarrow> char \<Rightarrow> nat" where
  "count_byte s c = length (filter (\<lambda>d. d = c) s)"

text \<open>\<open>strings.SplitSeq(s, c)\<close> for a one-byte separator: always at least one piece.\<close>

fun split_on :: "char \<Rightarrow> string \<Rightarrow> string list" where
  "split_on c [] = [[]]"
| "split_on c (d # s) =
     (if d = c then [] # split_on c s else (d # hd (split_on c s)) # tl (split_on c s))"

lemma split_on_nonempty [simp]: "split_on c s \<noteq> []"
  by (cases s) auto

lemma split_on_pieces: "p \<in> set (split_on c s) \<Longrightarrow> c \<notin> set p"
proof (induction s arbitrary: p)
  case (Cons d s)
  show ?case
  proof (cases "split_on c s")
    case (Cons a list)
    with Cons.IH Cons.prems show ?thesis by (auto split: if_splits)
  qed simp
qed simp

fun join_with :: "string \<Rightarrow> string list \<Rightarrow> string" where
  "join_with sep [] = []"
| "join_with sep [p] = p"
| "join_with sep (p # q # ps) = p @ sep @ join_with sep (q # ps)"

lemma split_join: "join_with [c] (split_on c s) = s"
proof (induction s)
  case (Cons d s)
  then show ?case by (cases "split_on c s"; cases "tl (split_on c s)") auto
qed simp

lemma split_on_plain: "c \<notin> set p \<Longrightarrow> split_on c p = [p]"
  by (induction p) auto

lemma split_on_append: "c \<notin> set p \<Longrightarrow> split_on c (p @ c # s) = p # split_on c s"
  by (induction p) auto

lemma join_split: "ps \<noteq> [] \<Longrightarrow> (\<And>p. p \<in> set ps \<Longrightarrow> c \<notin> set p) \<Longrightarrow> split_on c (join_with [c] ps) = ps"
proof (induction "[c]" ps rule: join_with.induct)
  case (3 p q ps)
  then show ?case using split_on_append [of c p "join_with [c] (q # ps)"] by auto
qed (auto simp: split_on_plain)

text \<open>Text without spaces is not trimmed.\<close>

definition solid :: "string \<Rightarrow> bool" where
  "solid s = list_all (\<lambda>c. byte c < 128 \<and> \<not> is_space (byte c)) s"

lemma runes_solid: "solid s \<Longrightarrow> runes s = map (\<lambda>c. (byte c, [c])) s"
  by (induction s) (auto simp: solid_def runes_ascii_Cons)

lemma dropWhile_none: "list_all (\<lambda>x. \<not> P x) xs \<Longrightarrow> dropWhile P xs = xs"
  by (cases xs) auto

lemma trim_solid_id [simp]: "solid s \<Longrightarrow> trim_space s = s"
proof -
  assume s: "solid s"
  have "list_all (\<lambda>x. \<not> (is_space \<circ> fst) x) (runes s)" "list_all (\<lambda>x. \<not> (is_space \<circ> fst) x) (rev (runes s))"
    using s by (auto simp: runes_solid solid_def list_all_iff)
  then show ?thesis
    unfolding trim_space_def by (simp only: dropWhile_none rev_rev_ident runes_concat)
qed

lemma digit_solid: "list_all is_digit s \<Longrightarrow> solid s"
  by (auto simp: solid_def list_all_iff is_digit_def byte_def is_space_def)

text \<open>
  \<open>strings.ToLower\<close>: the ASCII letters of an ASCII string, and \<open>uni\<close> (the Unicode mapping) on any other.
\<close>

definition lower_char :: "char \<Rightarrow> char" where
  "lower_char c = (if 65 \<le> byte c \<and> byte c \<le> 90 then char_of (byte c + 32) else c)"

definition to_lower :: "(string \<Rightarrow> string) \<Rightarrow> string \<Rightarrow> string" where
  "to_lower uni s = (if ascii s then map lower_char s else uni s)"

end
