(* ===== verification/Go_Numbers.thy ===== *)
theory Go_Numbers
  imports Go_Strings
begin

text \<open>
  Package \<open>strconv\<close> as far as the program uses it: signed 64-bit integers and their text, and float64
  values. Rounding to float64 is not modelled: what reads a float from its text is an argument of the
  definitions that need it.
\<close>

text \<open>\<open>strconv.ParseInt(s, 10, 64)\<close>, which \<open>strconv.Atoi\<close> is as well for a 64-bit int.\<close>

definition parse_int64 :: "string \<Rightarrow> int option" where
  "parse_int64 s = (let neg = has_prefix s ''-''; digits = (if neg \<or> has_prefix s ''+'' then tl s else s) in
     if digits = [] \<or> \<not> list_all is_digit digits then None
     else let n = int (digits_value digits) in
       if neg then (if n \<le> 2 ^ 63 then Some (- n) else None) else (if n < 2 ^ 63 then Some n else None))"

definition int_text :: "int \<Rightarrow> string" where
  "int_text n = (if n < 0 then ''-'' @ format_uint (nat (- n)) else format_uint (nat n))"

definition int64_range :: "int \<Rightarrow> bool" where
  "int64_range n = (- (2 ^ 63) \<le> n \<and> n < 2 ^ 63)"

text \<open>
  A float64: not a number, an infinity by its sign, or a finite value by its sign, its mantissa (odd, or 0)
  and its exponent to base 2.
\<close>

datatype float64 = NaN | Infinite bool | Finite bool nat int

text \<open>\<open>2 < m * 2 ^ x\<close>\<close>

definition above_two :: "nat \<Rightarrow> int \<Rightarrow> bool" where
  "above_two m x = (if 0 \<le> x then 2 < m * 2 ^ nat x else 2 * 2 ^ nat (- x) < m)"

lemma parse_int64_range: "parse_int64 s = Some n \<Longrightarrow> int64_range n"
  by (auto simp: parse_int64_def int64_range_def Let_def split: if_splits)

lemma digits_have_no_sign: "list_all is_digit s \<Longrightarrow> \<not> has_prefix s ''-'' \<and> \<not> has_prefix s ''+''"
  by (cases s) (auto simp: has_prefix_def is_digit_def)

text \<open>The text of an integer is read back.\<close>

lemma parse_int_text:
  assumes "int64_range n"
  shows "parse_int64 (int_text n) = Some n"
proof (cases "n < 0")
  case True
  have "has_prefix (''-'' @ s) ''-''" for s by (simp add: has_prefix_def)
  then show ?thesis
    using True assms by (simp add: parse_int64_def int_text_def Let_def format_uint_digits int64_range_def)
next
  case False
  then show ?thesis
    using assms digits_have_no_sign [OF format_uint_digits [of "nat n"]]
    by (simp add: parse_int64_def int_text_def Let_def format_uint_digits int64_range_def)
qed

text \<open>It holds neither a point nor an exponent.\<close>

definition plain_digits :: "string \<Rightarrow> bool" where
  "plain_digits s = (\<not> contains_byte s (CHR ''.'') \<and> \<not> contains_byte s (CHR ''e'') \<and> \<not> contains_byte s (CHR ''E''))"

lemma int_text_plain: "plain_digits (int_text n)"
proof -
  have "\<not> contains_byte (format_uint k) c" if "\<not> is_digit c" for k c
    using that format_uint_digits [of k] by (auto simp: contains_byte_def list_all_iff)
  then show ?thesis by (auto simp: plain_digits_def int_text_def contains_byte_def is_digit_def)
qed

end
