(* ===== verification/Result_Store.thy ===== *)
theory Result_Store
  imports System Go_Numbers
begin

text \<open>
  The result cache (internal/queryresult): keys, the raw write with a time to live, the read and its
  three errors. JSON encoding and decoding are parameters of the operations that use them. Also the
  input and output records of the SQL guard, which the worker shares with it.
\<close>

section \<open>Cached results\<close>

text \<open>
  A cell: NULL, int64, float64 or a string as the executor leaves it; a decoder may find other JSON too,
  a flag, or an array or object (by its text).
\<close>

datatype go_value = GoNil | GoInt64 int | GoFloat64 float64 | GoString string | GoBool bool | GoTree string

record cached_query_result =
  cr_job_id :: nat
  cr_columns :: "string list"
  cr_rows :: "go_value list list"
  cr_row_count :: int
  cr_cached_at :: instant
  cr_expires_at :: instant

definition QueryResultKey :: "nat \<Rightarrow> string" where
  "QueryResultKey jobID = ''askdb:query-result:'' @ format_uint jobID @ '':v1''"

lemma QueryResultKey_inject [simp]: "QueryResultKey k = QueryResultKey k' \<longleftrightarrow> k = k'"
  by (simp add: QueryResultKey_def)

text \<open>Redis entries: key, value, and when the entry expires. The time to live is positive.\<close>

definition redis_set :: "string \<Rightarrow> string \<Rightarrow> duration \<Rightarrow> world \<Rightarrow> world" where
  "redis_set key v ttl w = w\<lparr>w_redis := (key, v, w_clock w + ttl) # w_redis w\<rparr>"

definition redis_get :: "string \<Rightarrow> world \<Rightarrow> string option" where
  "redis_get key w = (case map_of (w_redis w) key of
       Some (v, expires) \<Rightarrow> (if w_clock w < expires then Some v else None)
     | None \<Rightarrow> None)"

definition store_set_raw :: "nat \<Rightarrow> string \<Rightarrow> duration \<Rightarrow> go_error option prog" where
  "store_set_raw jobID payload ttl = do {
     r \<leftarrow> ext (\<lambda>w. (Inr (), redis_set (QueryResultKey jobID) payload ttl w));
     State_Monad.return (case r of Inl e \<Rightarrow> Some (Sentinel ErrResultStoreUnavailable) | Inr u \<Rightarrow> None)
   }"

definition marshal_result ::
  "(cached_query_result \<Rightarrow> go_error + string) \<Rightarrow> cached_query_result \<Rightarrow> go_error + string" where
  "marshal_result json_marshal r =
     (case json_marshal r of Inl e \<Rightarrow> Inl (Wrap ''queryresult: marshal: '' e '''') | Inr s \<Rightarrow> Inr s)"

definition store_set ::
  "(cached_query_result \<Rightarrow> go_error + string) \<Rightarrow> cached_query_result \<Rightarrow> duration \<Rightarrow> go_error option prog" where
  "store_set json_marshal r ttl =
     (case marshal_result json_marshal r of
        Inl e \<Rightarrow> State_Monad.return (Some e)
      | Inr payload \<Rightarrow> store_set_raw (cr_job_id r) payload ttl)"

definition store_get ::
  "(string \<Rightarrow> go_error + cached_query_result) \<Rightarrow> nat \<Rightarrow> (go_error + cached_query_result) prog" where
  "store_get decode jobID = do {
     r \<leftarrow> ext (\<lambda>w. (case redis_get (QueryResultKey jobID) w of
             None \<Rightarrow> Inl (Sentinel RedisNil) | Some v \<Rightarrow> Inr v, w));
     State_Monad.return (case r of
         Inl e \<Rightarrow> Inl (Sentinel (if errors_is e RedisNil then ErrResultNotFound else ErrResultStoreUnavailable))
       | Inr data \<Rightarrow> (case decode data of
             Inl e \<Rightarrow> Inl (Sentinel ErrResultCorrupted) | Inr res \<Rightarrow> Inr res))
   }"

section \<open>The guard's interface\<close>

record validate_input =
  vi_sql :: string
  vi_allowed_database :: string
  vi_allowed_tables :: "string list"
  vi_max_rows :: int

record validate_result =
  vr_normalized_sql :: string
  vr_statement_type :: string
  vr_tables :: "string list"
  vr_limit :: int

section \<open>Lemmas\<close>

lemma redis_get_set:
  "redis_get key (redis_set key' v ttl w) =
     (if key = key' then (if 0 < ttl then Some v else None) else redis_get key w)"
  by (auto simp: redis_get_def redis_set_def split: option.splits)

text \<open>A write of the cache concerns nothing else.\<close>

lemma sys_redis_set: "sys_evolves w (redis_set key v ttl w)"
proof -
  have grow: "broker_grows w (redis_set key v ttl w)"
    by (rule broker_grows_same) (simp_all add: redis_set_def)
  have "accounted w \<Longrightarrow> accounted (redis_set key v ttl w)"
    by (erule accounted_step [OF _ grow]) (auto simp: redis_set_def)
  with grow show ?thesis
    by (simp add: redis_set_def sys_evolves_def outbox_evolves_same job_evolves_same_jobs pm_evolves_same)
qed

text \<open>
  What was stored comes back until it expires: reading a job's result after a successful write, with
  the entry not yet expired and no other write of that key, decodes the bytes that were written.
\<close>

lemma store_set_get:
  assumes "decode payload = Inr res" and "0 < ttl"
  shows "fst (run_state (State_Monad.bind (store_set_raw k payload ttl) (\<lambda>e. store_get decode k)) (quiet w)) = Inr res"
  using assms by (simp add: store_set_raw_def store_get_def quiet_def redis_get_set)

lemma store_get_other:
  assumes "k \<noteq> k'"
  shows "fst (run_state (State_Monad.bind (store_set_raw k payload ttl) (\<lambda>e. store_get decode k')) (quiet w)) =
    fst (run_state (store_get decode k') (quiet w))"
  using assms by (simp add: store_set_raw_def store_get_def quiet_def redis_get_set)

end
