(* ===== verification/Worker.thy ===== *)
theory Worker
  imports Result_Store
begin

text \<open>
  The worker (internal/queryjob/worker_service.go and error_class.go): \<open>Process\<close> takes a job through
  generating, validating and executing to a terminal status, or schedules a retry or the dead-letter
  queue. The collaborators - LLM client, schema reader, SQL guard, executor, data source opener -
  are fields of the \<open>worker\<close> record: functions of their inputs and the current world, about which
  nothing is assumed. \<open>closer()\<close> and logging have no effect on the state modelled.
\<close>

section \<open>Error codes\<close>

definition ErrCodeUnsupportedQuestion :: string where "ErrCodeUnsupportedQuestion = ''UNSUPPORTED_QUESTION''"
definition ErrCodeQueryExecution :: string where "ErrCodeQueryExecution = ''QUERY_EXECUTION_FAILED''"
definition ErrCodeSQLValidationFailed :: string where "ErrCodeSQLValidationFailed = ''SQL_VALIDATION_FAILED''"
definition ErrCodeResultTooLarge :: string where "ErrCodeResultTooLarge = ''RESULT_TOO_LARGE''"
definition ErrCodeMaxRetriesExceeded :: string where "ErrCodeMaxRetriesExceeded = ''MAX_RETRIES_EXCEEDED''"
definition ErrCodeLLMFailed :: string where "ErrCodeLLMFailed = ''LLM_FAILED''"

definition msgUnsupportedQuestion :: string where "msgUnsupportedQuestion = ''question is not supported''"
definition msgQueryExecution :: string where "msgQueryExecution = ''failed to execute the query''"
definition msgSQLValidationFailed :: string where "msgSQLValidationFailed = ''generated query failed validation''"
definition msgResultTooLarge :: string where "msgResultTooLarge = ''query result is too large''"
definition msgMaxRetriesExceeded :: string where "msgMaxRetriesExceeded = ''query job exceeded maximum retry attempts''"
definition msgLLMFailed :: string where "msgLLMFailed = ''failed to generate SQL''"

section \<open>The worker and its collaborators\<close>

record process_request =
  rq_job_id :: nat
  rq_message_id :: string
  rq_attempt :: int

type_synonym executor = "string \<Rightarrow> world \<Rightarrow> go_error + string list \<times> go_value list list"
type_synonym 's schema_reader = "world \<Rightarrow> go_error + 's"

text \<open>\<open>'s\<close> is the schema snapshot the LLM is given (\<open>llm.SchemaInfo\<close>), \<open>wk_no_schema\<close> its zero value.\<close>

record 's worker =
  wk_route :: route
  wk_generate :: "string \<Rightarrow> 's \<Rightarrow> world \<Rightarrow> go_error + string"
  wk_validate :: "validate_input \<Rightarrow> world \<Rightarrow> go_error + validate_result"
  wk_allowed_tables :: "string list"
  wk_max_rows :: int
  wk_exec :: executor
  wk_static_db :: string
  wk_static_schema :: "'s schema_reader option"
  wk_opener :: "(nat \<Rightarrow> world \<Rightarrow> go_error + string \<times> executor \<times> 's schema_reader option) option"
  wk_no_schema :: 's
  wk_marshal :: "cached_query_result \<Rightarrow> go_error + string"
  wk_result_ttl :: duration
  wk_max_result_bytes :: int
  wk_max_retries :: int
  wk_retry_delay :: duration
  wk_is_deterministic :: "go_error \<Rightarrow> bool"
  wk_is_retryable :: "go_error \<Rightarrow> bool"

section \<open>Error classification\<close>

definition isDeterministicFailure :: "'s worker \<Rightarrow> go_error option \<Rightarrow> bool" where
  "isDeterministicFailure s err = (case err of
       None \<Rightarrow> False
     | Some e \<Rightarrow> errors_is e ErrUnsupportedQuestion \<or> errors_is e ErrRejected \<or> wk_is_deterministic s e)"

definition isRetryableError :: "'s worker \<Rightarrow> go_error option \<Rightarrow> bool" where
  "isRetryableError s err = (case err of
       None \<Rightarrow> False
     | Some e \<Rightarrow>
         (if errors_is e ContextCanceled then False
          else if isDeterministicFailure s err then False
          else if errors_is e ErrStatusConflict then False
          else if errors_is e ErrJobNotFound then False
          else if wk_is_retryable s e then True
          else True))"

section \<open>Retry and dead letter\<close>

definition scheduleRetry :: "'s worker \<Rightarrow> process_request \<Rightarrow> status \<Rightarrow> nat \<Rightarrow> go_error option prog" where
  "scheduleRetry s req fromStatus nextAttempt = do {
     t \<leftarrow> now;
     p \<leftarrow> publish_retry (wk_route s) (rq_job_id req) (rq_message_id req) (int nextAttempt);
     (case p of
        Some e \<Rightarrow> State_Monad.return (Some e)
      | None \<Rightarrow> do {
          r \<leftarrow> set_retrying (rq_job_id req) fromStatus nextAttempt (t + wk_retry_delay s);
          State_Monad.return (case r of Some e \<Rightarrow> Some e | None \<Rightarrow> Some (Sentinel ErrRetryScheduled))
        })
   }"

definition scheduleDLQ :: "'s worker \<Rightarrow> process_request \<Rightarrow> status \<Rightarrow> go_error option prog" where
  "scheduleDLQ s req fromStatus = do {
     p \<leftarrow> publish_dlq (wk_route s) (rq_job_id req) (rq_message_id req) (rq_attempt req);
     (case p of
        Some e \<Rightarrow> State_Monad.return (Some e)
      | None \<Rightarrow> do {
          t \<leftarrow> now;
          r \<leftarrow> set_failed (rq_job_id req) fromStatus ErrCodeMaxRetriesExceeded msgMaxRetriesExceeded t;
          State_Monad.return (case r of Some e \<Rightarrow> Some e | None \<Rightarrow> Some (Sentinel ErrDLQScheduled))
        })
   }"

text \<open>\<open>uint8(nextAttempt)\<close> wraps.\<close>

definition scheduleRetryOrFail :: "'s worker \<Rightarrow> process_request \<Rightarrow> status \<Rightarrow> go_error option prog" where
  "scheduleRetryOrFail s req fromStatus =
     (let nextAttempt = rq_attempt req + 1 in
      if nextAttempt \<le> wk_max_retries s then scheduleRetry s req fromStatus (uint8_of nextAttempt)
      else scheduleDLQ s req fromStatus)"

section \<open>The pipeline\<close>

text \<open>A stage either ends \<open>runPipeline\<close> with a result (\<open>Inl\<close>) or hands a value on (\<open>Inr\<close>).\<close>

definition stop_with :: "go_error option prog \<Rightarrow> (go_error option + 'a) prog" where
  "stop_with p = do { r \<leftarrow> p; State_Monad.return (Inl r) }"

definition and_then ::
  "(go_error option + 'a) prog \<Rightarrow> ('a \<Rightarrow> go_error option prog) \<Rightarrow> go_error option prog" where
  "and_then p k = do {
     r \<leftarrow> p;
     (case r of Inl res \<Rightarrow> State_Monad.return res | Inr x \<Rightarrow> k x)
   }"

text \<open>\<open>if err := p; err != nil { return err }\<close>\<close>

definition unless_error :: "go_error option prog \<Rightarrow> go_error option prog \<Rightarrow> go_error option prog" where
  "unless_error p k = do {
     r \<leftarrow> p;
     (case r of Some e \<Rightarrow> State_Monad.return (Some e) | None \<Rightarrow> k)
   }"

definition open_target ::
  "'s worker \<Rightarrow> query_job \<Rightarrow> process_request \<Rightarrow> status \<Rightarrow>
     (go_error option + string \<times> executor \<times> 's schema_reader option) prog" where
  "open_target s job req currentStatus = (case jb_data_source_id job of
       None \<Rightarrow> State_Monad.return (Inr (wk_static_db s, wk_exec s, wk_static_schema s))
     | Some ds \<Rightarrow> (case wk_opener s of
           None \<Rightarrow> stop_with (scheduleRetryOrFail s req currentStatus)
         | Some openForJob \<Rightarrow> do {
             r \<leftarrow> ext (\<lambda>w. (openForJob (nat (ds mod 2 ^ 64)) w, w));
             (case r of
                Inl e \<Rightarrow> stop_with (scheduleRetryOrFail s req currentStatus)
              | Inr target \<Rightarrow> State_Monad.return (Inr target))
           }))"

definition read_schema ::
  "'s worker \<Rightarrow> process_request \<Rightarrow> status \<Rightarrow> 's schema_reader option \<Rightarrow> (go_error option + 's) prog" where
  "read_schema s req currentStatus reader = (case reader of
       None \<Rightarrow> State_Monad.return (Inr (wk_no_schema s))
     | Some readSchema \<Rightarrow> do {
         r \<leftarrow> ext (\<lambda>w. (readSchema w, w));
         (case r of
            Inl e \<Rightarrow> (if errors_is e ContextCanceled then State_Monad.return (Inl (Some e))
                     else stop_with (scheduleRetryOrFail s req currentStatus))
          | Inr schema \<Rightarrow> State_Monad.return (Inr schema))
       })"

definition generate_sql ::
  "'s worker \<Rightarrow> query_job \<Rightarrow> process_request \<Rightarrow> status \<Rightarrow> 's \<Rightarrow> (go_error option + string) prog" where
  "generate_sql s job req currentStatus schema = do {
     r \<leftarrow> ext (\<lambda>w. (wk_generate s (jb_question job) schema w, w));
     (case r of
        Inr sql \<Rightarrow> State_Monad.return (Inr sql)
      | Inl err \<Rightarrow> do {
          t \<leftarrow> now;
          (if errors_is err ErrUnsupportedQuestion then
             stop_with (set_failed (rq_job_id req) currentStatus ErrCodeUnsupportedQuestion msgUnsupportedQuestion t)
           else if wk_is_deterministic s err then
             stop_with (set_failed (rq_job_id req) currentStatus ErrCodeLLMFailed msgLLMFailed t)
           else if errors_is err ContextCanceled then State_Monad.return (Inl (Some err))
           else if wk_is_retryable s err then stop_with (scheduleRetryOrFail s req currentStatus)
           else stop_with (scheduleRetryOrFail s req currentStatus))
        })
   }"

definition validate_sql ::
  "'s worker \<Rightarrow> process_request \<Rightarrow> status \<Rightarrow> string \<Rightarrow> string \<Rightarrow> (go_error option + validate_result) prog" where
  "validate_sql s req currentStatus allowedDB generatedSQL = do {
     r \<leftarrow> ext (\<lambda>w. (wk_validate s \<lparr>vi_sql = generatedSQL, vi_allowed_database = allowedDB,
            vi_allowed_tables = wk_allowed_tables s, vi_max_rows = wk_max_rows s\<rparr> w, w));
     (case r of
        Inr v \<Rightarrow> State_Monad.return (Inr v)
      | Inl err \<Rightarrow>
          (if errors_is err ErrRejected then do {
             t \<leftarrow> now;
             stop_with (set_failed (rq_job_id req) currentStatus ErrCodeSQLValidationFailed msgSQLValidationFailed t)
           } else stop_with (scheduleRetryOrFail s req currentStatus)))
   }"

text \<open>\<open>Duration.Milliseconds\<close> truncates toward zero.\<close>

definition milliseconds :: "duration \<Rightarrow> int" where
  "milliseconds d = (if d < 0 then - (- d div millisecond) else d div millisecond)"

definition execute_sql ::
  "'s worker \<Rightarrow> process_request \<Rightarrow> status \<Rightarrow> executor \<Rightarrow> string \<Rightarrow>
     (go_error option + string list \<times> go_value list list \<times> int) prog" where
  "execute_sql s req currentStatus exec sql = do {
     start \<leftarrow> now;
     r \<leftarrow> ext (\<lambda>w. (exec sql w, w));
     stop \<leftarrow> now;
     (case r of
        Inr (columns, rows) \<Rightarrow> State_Monad.return (Inr (columns, rows, milliseconds (stop - start)))
      | Inl execErr \<Rightarrow> do {
          t \<leftarrow> now;
          (if isRetryableError s (Some execErr) then stop_with (scheduleRetryOrFail s req currentStatus)
           else stop_with (set_failed (rq_job_id req) currentStatus ErrCodeQueryExecution msgQueryExecution t))
        })
   }"

definition store_result ::
  "'s worker \<Rightarrow> process_request \<Rightarrow> status \<Rightarrow> string \<Rightarrow> string list \<times> go_value list list \<times> int \<Rightarrow> go_error option prog" where
  "store_result s req currentStatus normalizedSQL res = (case res of (columns, rows, durationMs) \<Rightarrow> do {
     t \<leftarrow> now;
     let expiresAt = t + wk_result_ttl s;
     (case marshal_result (wk_marshal s) \<lparr>cr_job_id = rq_job_id req, cr_columns = columns, cr_rows = rows,
            cr_row_count = int (length rows), cr_cached_at = t, cr_expires_at = expiresAt\<rparr> of
        Inl err \<Rightarrow> State_Monad.return (Some err)
      | Inr payload \<Rightarrow>
          (if wk_max_result_bytes s < int (length payload) then
             set_failed (rq_job_id req) currentStatus ErrCodeResultTooLarge msgResultTooLarge t
           else do {
             e \<leftarrow> store_set_raw (rq_job_id req) payload (wk_result_ttl s);
             (case e of
                Some err \<Rightarrow> scheduleRetryOrFail s req currentStatus
              | None \<Rightarrow> set_succeeded (rq_job_id req) currentStatus normalizedSQL (int (length rows)) durationMs t
                         (Some expiresAt))
           }))
   })"

definition runPipeline ::
  "'s worker \<Rightarrow> query_job \<Rightarrow> process_request \<Rightarrow> status \<Rightarrow> go_error option prog" where
  "runPipeline s job req currentStatus =
     and_then (open_target s job req currentStatus) (\<lambda>(allowedDB, exec, reader).
     and_then (read_schema s req currentStatus reader) (\<lambda>schema.
     and_then (generate_sql s job req currentStatus schema) (\<lambda>generatedSQL.
     unless_error (transition_status (rq_job_id req) StatusGenerating StatusValidating) (
     and_then (validate_sql s req StatusValidating allowedDB generatedSQL) (\<lambda>validated.
     unless_error (transition_status (rq_job_id req) StatusValidating StatusExecuting) (
     and_then (execute_sql s req StatusExecuting exec (vr_normalized_sql validated)) (\<lambda>res.
     store_result s req StatusExecuting (vr_normalized_sql validated) res)))))))"

definition start_pipeline ::
  "'s worker \<Rightarrow> query_job \<Rightarrow> process_request \<Rightarrow> status \<Rightarrow> go_error option prog" where
  "start_pipeline s job req fromStatus =
     unless_error (transition_status (rq_job_id req) fromStatus StatusGenerating)
       (runPipeline s job req StatusGenerating)"

definition Process :: "'s worker \<Rightarrow> process_request \<Rightarrow> go_error option prog" where
  "Process s req = do {
     r \<leftarrow> job_find_by_id (rq_job_id req);
     (case r of
        Inl err \<Rightarrow> State_Monad.return (Some err)
      | Inr job \<Rightarrow>
          (if is_terminal (jb_status job) then State_Monad.return None
           else if jb_status job = StatusQueued then start_pipeline s job req StatusQueued
           else if jb_status job = StatusRetrying then
             (if int (jb_attempt_count job) \<noteq> rq_attempt req then State_Monad.return None
              else start_pipeline s job req StatusRetrying)
           else if jb_status job \<in> {StatusGenerating, StatusValidating, StatusExecuting} then
             scheduleRetryOrFail s req (jb_status job)
           else State_Monad.return (Some (Sentinel ErrStatusConflict))))
   }"

section \<open>What a result of Process promises\<close>

text \<open>
  The stale-retry exit: at some point of the run the job was retrying for another attempt than the
  message's.
\<close>

definition stale_retry :: "process_request \<Rightarrow> world \<Rightarrow> world \<Rightarrow> bool" where
  "stale_retry req w0 w = (\<exists>w1 j. sys_evolves w0 w1 \<and> sys_evolves w1 w \<and> job_at w1 (rq_job_id req) = Some j \<and>
     jb_status j = StatusRetrying \<and> int (jb_attempt_count j) \<noteq> rq_attempt req)"

definition promise :: "'s worker \<Rightarrow> process_request \<Rightarrow> world \<Rightarrow> go_error option \<Rightarrow> world \<Rightarrow> bool" where
  "promise s req w0 r w = (case r of
       None \<Rightarrow> job_satisfies (\<lambda>j. is_terminal (jb_status j)) w (rq_job_id req) \<or> stale_retry req w0 w
     | Some e \<Rightarrow>
         (errors_is e ErrRetryScheduled \<longrightarrow>
            rq_attempt req + 1 \<le> wk_max_retries s \<and>
            retry_sent (rq_job_id req) (rq_message_id req) (int (uint8_of (rq_attempt req + 1))) w \<and>
            job_satisfies (\<lambda>j. jb_status j = StatusRetrying \<and>
              jb_attempt_count j = uint8_of (rq_attempt req + 1)) w (rq_job_id req)) \<and>
         (errors_is e ErrDLQScheduled \<longrightarrow>
            wk_max_retries s < rq_attempt req + 1 \<and>
            dlq_sent (rq_job_id req) (rq_message_id req) (rq_attempt req) w \<and>
            job_satisfies (\<lambda>j. jb_status j = StatusFailed \<and>
              jb_error_code j = Some ErrCodeMaxRetriesExceeded) w (rq_job_id req)) \<and>
         (errors_is e ErrJobNotFound \<longrightarrow> job_at w0 (rq_job_id req) = None))"

lemma driver_error_promise: "driver_error e \<Longrightarrow> promise s req w0 (Some e) w"
  by (auto simp: promise_def driver_error_def)

lemma repo_error_promise: "repo_error (Some e) \<Longrightarrow> promise s req w0 (Some e) w"
  by (auto simp: repo_error_def promise_def driver_error_def dest: errors_is_unique)

text \<open>
  What the worker knows while it works on a request: the history since \<open>w0\<close>, a well-formed job table,
  and the retry and dead-letter bindings its publisher declared.
\<close>

definition at_work :: "world \<Rightarrow> world \<Rightarrow> bool" where
  "at_work w0 w = (sys_evolves w0 w \<and> jobs_wf w \<and>
     bound mqRetryQueue mqRetryRoutingKey mqRetryExchange w \<and> bound mqDLQQueue mqDLQRoutingKey mqDLQExchange w)"

lemma stable_at_work: "stable sys_evolves (at_work w0)"
  unfolding stable_def at_work_def
  using sys.R_trans job_evolves_wf [OF sys_evolvesD(1)] bound_grows [OF _ sys_evolvesD(4)] by blast

lemma knows_at_work [simp]: "sys.knows (at_work w0)"
  unfolding sys.knows_def using stable_at_work by (auto simp: at_work_def)

definition worker_ok :: "'s worker \<Rightarrow> bool" where
  "worker_ok s = (amqp_route (wk_route s) \<and> (\<forall>x e. wk_marshal s x = Inl e \<longrightarrow> driver_error e))"

text \<open>An ending operation: from anything the worker knows it keeps that and its result is as promised.\<close>

definition ends :: "'s worker \<Rightarrow> process_request \<Rightarrow> world \<Rightarrow> go_error option prog \<Rightarrow> bool" where
  "ends s req w0 p = triple sys_evolves (at_work w0) p (\<lambda>r w. at_work w0 w \<and> promise s req w0 r w)"

definition continues :: "'s worker \<Rightarrow> process_request \<Rightarrow> world \<Rightarrow> (go_error option + 'a) prog \<Rightarrow> bool" where
  "continues s req w0 p = triple sys_evolves (at_work w0) p
     (\<lambda>r w. at_work w0 w \<and> (\<forall>x. r = Inl x \<longrightarrow> promise s req w0 x w))"

lemma ends_return: "(\<And>w. at_work w0 w \<Longrightarrow> promise s req w0 r w) \<Longrightarrow> ends s req w0 (State_Monad.return r)"
  unfolding ends_def by (rule triple_return) simp

lemma continues_return: "continues s req w0 (State_Monad.return (Inr x))"
  unfolding continues_def by (rule triple_return) simp

lemma continues_error: "driver_error e \<Longrightarrow> continues s req w0 (State_Monad.return (Inl (Some e)))"
  unfolding continues_def by (rule triple_return) (simp add: driver_error_promise)

lemma continues_stop: "ends s req w0 p \<Longrightarrow> continues s req w0 (stop_with p)"
  unfolding ends_def continues_def stop_with_def by (erule triple_bind, rule triple_return) simp

lemma ends_and_then:
  assumes "continues s req w0 p" and "\<And>x. ends s req w0 (k x)"
  shows "ends s req w0 (and_then p k)"
  unfolding ends_def and_then_def
proof (rule triple_bind [OF assms(1) [unfolded continues_def]])
  fix r :: "go_error option + 'b"
  show "triple sys_evolves (\<lambda>w. at_work w0 w \<and> (\<forall>x. r = Inl x \<longrightarrow> promise s req w0 x w))
      (case r of Inl res \<Rightarrow> State_Monad.return res | Inr x \<Rightarrow> k x)
      (\<lambda>r w. at_work w0 w \<and> promise s req w0 r w)"
  proof (cases r)
    case (Inl x)
    show ?thesis unfolding Inl sum.case by (rule triple_return) simp
  next
    case (Inr x)
    show ?thesis unfolding Inr sum.case
      by (rule triple_conseq [OF assms(2) [unfolded ends_def]]) auto
  qed
qed

lemma ends_unless_error:
  assumes "triple sys_evolves (at_work w0) p (\<lambda>r w. at_work w0 w \<and> C r w \<and> repo_error r)" and "ends s req w0 k"
  shows "ends s req w0 (unless_error p k)"
  unfolding ends_def unless_error_def
proof (rule triple_bind [OF assms(1)])
  fix r :: "go_error option"
  show "triple sys_evolves (\<lambda>w. at_work w0 w \<and> C r w \<and> repo_error r)
      (case r of None \<Rightarrow> k | Some e \<Rightarrow> State_Monad.return (Some e))
      (\<lambda>r w. at_work w0 w \<and> promise s req w0 r w)"
  proof (cases r)
    case None
    show ?thesis unfolding None option.case
      by (rule triple_conseq [OF assms(2) [unfolded ends_def]]) auto
  next
    case (Some e)
    show ?thesis unfolding Some option.case by (rule triple_return) (simp add: repo_error_promise)
  qed
qed

text \<open>A call of a collaborator changes nothing; its error value is the function's or a driver's.\<close>

lemma continues_call:
  assumes "\<And>r. (\<forall>e. r = Inl e \<longrightarrow> (\<exists>w. f w = Inl e) \<or> driver_error e) \<Longrightarrow> continues s req w0 (k r)"
  shows "continues s req w0 (State_Monad.bind (ext (\<lambda>w. (f w, w))) k)"
  unfolding continues_def
proof (rule triple_bind [OF sys.triple_ext
      [where Q = "\<lambda>r w. at_work w0 w \<and> (\<forall>e. r = Inl e \<longrightarrow> (\<exists>w. f w = Inl e) \<or> driver_error e)"]])
  show "stable sys_evolves (at_work w0)" by (rule stable_at_work)
  fix r
  show "triple sys_evolves
      (\<lambda>w. at_work w0 w \<and> (\<forall>e. r = Inl e \<longrightarrow> (\<exists>w. f w = Inl e) \<or> driver_error e)) (k r)
      (\<lambda>r w. at_work w0 w \<and> (\<forall>x. r = Inl x \<longrightarrow> promise s req w0 x w))"
    by (rule triple_fact) (rule assms [unfolded continues_def])
qed auto

lemma continues_now: "(\<And>t. continues s req w0 (k t)) \<Longrightarrow> continues s req w0 (State_Monad.bind now k)"
  unfolding continues_def by (rule triple_bind [OF triple_now [where Q = "\<lambda>_. at_work w0"]]) auto

lemma ends_now: "(\<And>t. ends s req w0 (k t)) \<Longrightarrow> ends s req w0 (State_Monad.bind now k)"
  unfolding ends_def by (rule triple_bind [OF triple_now [where Q = "\<lambda>_. at_work w0"]]) auto

lemma terminal_promise:
  assumes "r = None \<longrightarrow> job_satisfies Q w (rq_job_id req)" and "\<And>j. Q j \<Longrightarrow> is_terminal (jb_status j)"
    and "repo_error r"
  shows "promise s req w0 r w"
proof (cases r)
  case None
  then show ?thesis using assms(1,2) job_satisfies_mono by (auto simp: promise_def)
qed (use assms(3) repo_error_promise in auto)

lemma ends_set_failed:
  assumes "can_transition st StatusFailed"
  shows "ends s req w0 (set_failed (rq_job_id req) st c msg t)"
  unfolding ends_def
  by (rule triple_conseq [OF sys.triple_set_failed [OF knows_at_work assms]])
     (auto intro: terminal_promise)

lemma ends_set_succeeded: "ends s req w0 (set_succeeded (rq_job_id req) StatusExecuting q n d t e)"
  unfolding ends_def
  by (rule triple_conseq [OF sys.triple_set_succeeded [OF knows_at_work]])
     (auto intro: terminal_promise)

section \<open>Retrying and giving up\<close>

definition in_flight :: "status \<Rightarrow> bool" where
  "in_flight st = (st = StatusGenerating \<or> st = StatusValidating \<or> st = StatusExecuting)"

lemma in_flight_transitions:
  "in_flight st \<Longrightarrow> can_transition st StatusRetrying" "in_flight st \<Longrightarrow> can_transition st StatusFailed"
  by (auto simp: in_flight_def can_transition_def)

lemma sentinel_promise:
  "promise s req w0 (Some (Sentinel ErrRetryScheduled)) w \<longleftrightarrow>
     rq_attempt req + 1 \<le> wk_max_retries s \<and>
     retry_sent (rq_job_id req) (rq_message_id req) (int (uint8_of (rq_attempt req + 1))) w \<and>
     job_satisfies (\<lambda>j. jb_status j = StatusRetrying \<and>
       jb_attempt_count j = uint8_of (rq_attempt req + 1)) w (rq_job_id req)"
  "promise s req w0 (Some (Sentinel ErrDLQScheduled)) w \<longleftrightarrow>
     wk_max_retries s < rq_attempt req + 1 \<and>
     dlq_sent (rq_job_id req) (rq_message_id req) (rq_attempt req) w \<and>
     job_satisfies (\<lambda>j. jb_status j = StatusFailed \<and>
       jb_error_code j = Some ErrCodeMaxRetriesExceeded) w (rq_job_id req)"
  by (simp_all add: promise_def)

lemma ends_scheduleRetry:
  assumes ok: "worker_ok s" and st: "in_flight st" and n: "rq_attempt req + 1 \<le> wk_max_retries s"
  shows "ends s req w0 (scheduleRetry s req st (uint8_of (rq_attempt req + 1)))"
  unfolding scheduleRetry_def
proof (rule ends_now)
  fix t
  let ?n = "uint8_of (rq_attempt req + 1)"
  let ?sent = "retry_sent (rq_job_id req) (rq_message_id req) (int ?n)"
  have route: "amqp_route (wk_route s)" using ok by (simp add: worker_ok_def)
  have K: "sys.knows (\<lambda>w. at_work w0 w \<and> ?sent w)"
    by (rule sys.knows_conj [OF knows_at_work sys.stable_retry_sent])
  have set: "triple sys_evolves (\<lambda>w. at_work w0 w \<and> ?sent w)
      (State_Monad.bind (set_retrying (rq_job_id req) st ?n (t + wk_retry_delay s))
        (\<lambda>r. State_Monad.return (case r of Some e \<Rightarrow> Some e | None \<Rightarrow> Some (Sentinel ErrRetryScheduled))))
      (\<lambda>r w. at_work w0 w \<and> promise s req w0 r w)"
  proof (rule triple_bind [OF sys.triple_set_retrying [OF K in_flight_transitions(1) [OF st]]],
      rule triple_return)
    fix r w
    assume h: "(at_work w0 w \<and> ?sent w) \<and>
      (r = None \<longrightarrow> job_satisfies (\<lambda>j. jb_status j = StatusRetrying \<and> jb_attempt_count j = ?n \<and>
         jb_next_retry_at j = Some (t + wk_retry_delay s)) w (rq_job_id req)) \<and> repo_error r"
    show "at_work w0 w \<and> promise s req w0 (case r of Some e \<Rightarrow> Some e | None \<Rightarrow> Some (Sentinel ErrRetryScheduled)) w"
    proof (cases r)
      case None
      then have "job_satisfies (\<lambda>j. jb_status j = StatusRetrying \<and> jb_attempt_count j = ?n) w (rq_job_id req)"
        using h by (auto elim: job_satisfies_mono)
      then show ?thesis using h n None by (simp add: sentinel_promise)
    qed (use h repo_error_promise in auto)
  qed
  show "ends s req w0 (State_Monad.bind (publish_retry (wk_route s) (rq_job_id req) (rq_message_id req) (int ?n))
      (\<lambda>p. case p of Some e \<Rightarrow> State_Monad.return (Some e)
        | None \<Rightarrow> State_Monad.bind (set_retrying (rq_job_id req) st ?n (t + wk_retry_delay s))
            (\<lambda>r. State_Monad.return (case r of Some e \<Rightarrow> Some e | None \<Rightarrow> Some (Sentinel ErrRetryScheduled)))))"
    unfolding ends_def
  proof (rule triple_bind [OF sys.triple_publish_retry [OF route stable_at_work]])
    fix p :: "go_error option"
    show "triple sys_evolves (\<lambda>w. at_work w0 w \<and> (p = None \<longrightarrow> ?sent w) \<and> (\<forall>e. p = Some e \<longrightarrow> driver_error e))
       (case p of Some e \<Rightarrow> State_Monad.return (Some e)
        | None \<Rightarrow> State_Monad.bind (set_retrying (rq_job_id req) st ?n (t + wk_retry_delay s))
            (\<lambda>r. State_Monad.return (case r of Some e \<Rightarrow> Some e | None \<Rightarrow> Some (Sentinel ErrRetryScheduled))))
       (\<lambda>r w. at_work w0 w \<and> promise s req w0 r w)"
    proof (cases p)
      case None
      show ?thesis unfolding None option.case by (rule triple_conseq [OF set]) auto
    next
      case (Some e)
      show ?thesis unfolding Some option.case by (rule triple_return) (simp add: driver_error_promise)
    qed
  qed (simp add: at_work_def)
qed

lemma ends_scheduleDLQ:
  assumes ok: "worker_ok s" and st: "in_flight st" and n: "\<not> rq_attempt req + 1 \<le> wk_max_retries s"
  shows "ends s req w0 (scheduleDLQ s req st)"
  unfolding ends_def scheduleDLQ_def
proof -
  let ?sent = "dlq_sent (rq_job_id req) (rq_message_id req) (rq_attempt req)"
  let ?fail = "State_Monad.bind now (\<lambda>t.
      State_Monad.bind (set_failed (rq_job_id req) st ErrCodeMaxRetriesExceeded msgMaxRetriesExceeded t)
        (\<lambda>r. State_Monad.return (case r of Some e \<Rightarrow> Some e | None \<Rightarrow> Some (Sentinel ErrDLQScheduled))))"
  have route: "amqp_route (wk_route s)" using ok by (simp add: worker_ok_def)
  have K: "sys.knows (\<lambda>w. at_work w0 w \<and> ?sent w)"
    by (rule sys.knows_conj [OF knows_at_work sys.stable_dlq_sent])
  have set: "triple sys_evolves (\<lambda>w. at_work w0 w \<and> ?sent w) ?fail (\<lambda>r w. at_work w0 w \<and> promise s req w0 r w)"
  proof (rule triple_bind [OF triple_now [where Q = "\<lambda>_ w. at_work w0 w \<and> ?sent w"]], assumption,
      rule triple_bind [OF sys.triple_set_failed [OF K in_flight_transitions(2) [OF st]]], rule triple_return)
    fix r w
    assume h: "(at_work w0 w \<and> ?sent w) \<and>
      (r = None \<longrightarrow> job_satisfies (\<lambda>j. jb_status j = StatusFailed \<and>
         jb_error_code j = Some ErrCodeMaxRetriesExceeded) w (rq_job_id req)) \<and> repo_error r"
    show "at_work w0 w \<and> promise s req w0 (case r of Some e \<Rightarrow> Some e | None \<Rightarrow> Some (Sentinel ErrDLQScheduled)) w"
      using h n repo_error_promise by (cases r) (auto simp: sentinel_promise)
  qed
  show "triple sys_evolves (at_work w0)
      (State_Monad.bind (publish_dlq (wk_route s) (rq_job_id req) (rq_message_id req) (rq_attempt req))
        (\<lambda>p. case p of Some e \<Rightarrow> State_Monad.return (Some e) | None \<Rightarrow> ?fail))
      (\<lambda>r w. at_work w0 w \<and> promise s req w0 r w)"
  proof (rule triple_bind [OF sys.triple_publish_dlq [OF route stable_at_work]])
    fix p :: "go_error option"
    show "triple sys_evolves (\<lambda>w. at_work w0 w \<and> (p = None \<longrightarrow> ?sent w) \<and> (\<forall>e. p = Some e \<longrightarrow> driver_error e))
       (case p of Some e \<Rightarrow> State_Monad.return (Some e) | None \<Rightarrow> ?fail)
       (\<lambda>r w. at_work w0 w \<and> promise s req w0 r w)"
    proof (cases p)
      case None
      show ?thesis unfolding None option.case by (rule triple_conseq [OF set]) auto
    next
      case (Some e)
      show ?thesis unfolding Some option.case by (rule triple_return) (simp add: driver_error_promise)
    qed
  qed (simp add: at_work_def)
qed

lemma ends_retry_or_fail: "worker_ok s \<Longrightarrow> in_flight st \<Longrightarrow> ends s req w0 (scheduleRetryOrFail s req st)"
  unfolding scheduleRetryOrFail_def Let_def
  by (cases "rq_attempt req + 1 \<le> wk_max_retries s") (simp_all add: ends_scheduleRetry ends_scheduleDLQ)

section \<open>The stages\<close>

lemma canceled_driver_error: "errors_is e ContextCanceled \<Longrightarrow> driver_error e"
  by (auto simp: driver_error_def sentinel_no_service_error dest: errors_is_unique)

lemma continues_open_target:
  assumes "worker_ok s" and "in_flight st"
  shows "continues s req w0 (open_target s job req st)"
  unfolding open_target_def
  by (auto split: option.splits sum.splits intro!: continues_call
      continues_return continues_stop ends_retry_or_fail [OF assms])

lemma continues_read_schema:
  assumes "worker_ok s" and "in_flight st"
  shows "continues s req w0 (read_schema s req st reader)"
  unfolding read_schema_def
  by (auto split: option.splits sum.splits intro!: continues_call
      continues_return continues_stop continues_error [OF canceled_driver_error] ends_retry_or_fail [OF assms])

lemma continues_generate_sql:
  assumes "worker_ok s" and "in_flight st"
  shows "continues s req w0 (generate_sql s job req st schema)"
proof -
  note failed = continues_stop [OF ends_set_failed [OF in_flight_transitions(2) [OF assms(2)]]]
  note retry = continues_stop [OF ends_retry_or_fail [OF assms]]
  show ?thesis
    unfolding generate_sql_def
    by (auto split: sum.splits intro!: continues_call continues_now
        continues_return continues_error [OF canceled_driver_error] failed retry)
qed

lemma continues_validate_sql:
  assumes "worker_ok s" and "in_flight st"
  shows "continues s req w0 (validate_sql s req st db sql)"
proof -
  note failed = continues_stop [OF ends_set_failed [OF in_flight_transitions(2) [OF assms(2)]]]
  note retry = continues_stop [OF ends_retry_or_fail [OF assms]]
  show ?thesis
    unfolding validate_sql_def
    by (auto split: sum.splits intro!: continues_call continues_now continues_return failed retry)
qed

lemma continues_execute_sql:
  assumes "worker_ok s" and "in_flight st"
  shows "continues s req w0 (execute_sql s req st exec sql)"
proof -
  note failed = continues_stop [OF ends_set_failed [OF in_flight_transitions(2) [OF assms(2)]]]
  note retry = continues_stop [OF ends_retry_or_fail [OF assms]]
  show ?thesis
    unfolding execute_sql_def
    by (auto split: sum.splits intro!: continues_call continues_now
        continues_return failed retry)
qed

lemma ends_store_result:
  assumes "worker_ok s"
  shows "ends s req w0 (store_result s req StatusExecuting sql res)"
proof -
  have st: "in_flight StatusExecuting" by (simp add: in_flight_def)
  note failed = ends_set_failed [OF in_flight_transitions(2) [OF st]]
  have cache: "ends s req w0 (State_Monad.bind (store_set_raw (rq_job_id req) payload ttl)
      (\<lambda>e. case e of Some err \<Rightarrow> scheduleRetryOrFail s req StatusExecuting
         | None \<Rightarrow> set_succeeded (rq_job_id req) StatusExecuting q n d t x))" for payload ttl q n d t x
    unfolding ends_def
  proof (rule triple_bind [where M = "\<lambda>_. at_work w0"])
    show "triple sys_evolves (at_work w0) (store_set_raw (rq_job_id req) payload ttl) (\<lambda>_. at_work w0)"
      unfolding store_set_raw_def
      by (rule triple_bind [OF sys.triple_keep [OF stable_at_work]])
         (auto intro: sys_redis_set triple_return)
  next
    fix e :: "go_error option"
    show "triple sys_evolves (at_work w0) (case e of Some err \<Rightarrow> scheduleRetryOrFail s req StatusExecuting
         | None \<Rightarrow> set_succeeded (rq_job_id req) StatusExecuting q n d t x)
       (\<lambda>r w. at_work w0 w \<and> promise s req w0 r w)"
      using ends_retry_or_fail [OF assms st] ends_set_succeeded unfolding ends_def by (cases e) auto
  qed
  have bad: "driver_error e" if "marshal_result (wk_marshal s) x = Inl e" for x e
    using that assms by (auto simp: marshal_result_def worker_ok_def split: sum.splits)
  obtain columns rows d where res: "res = (columns, rows, d)" by (cases res)
  show ?thesis
    unfolding store_result_def res prod.case Let_def
  proof (rule ends_now)
    fix t
    let ?m = "marshal_result (wk_marshal s) \<lparr>cr_job_id = rq_job_id req, cr_columns = columns, cr_rows = rows,
            cr_row_count = int (length rows), cr_cached_at = t, cr_expires_at = t + wk_result_ttl s\<rparr>"
    show "ends s req w0 (case ?m of
        Inl err \<Rightarrow> State_Monad.return (Some err)
      | Inr payload \<Rightarrow>
          (if wk_max_result_bytes s < int (length payload) then
             set_failed (rq_job_id req) StatusExecuting ErrCodeResultTooLarge msgResultTooLarge t
           else State_Monad.bind (store_set_raw (rq_job_id req) payload (wk_result_ttl s)) (\<lambda>e.
             case e of Some err \<Rightarrow> scheduleRetryOrFail s req StatusExecuting
              | None \<Rightarrow> set_succeeded (rq_job_id req) StatusExecuting sql (int (length rows)) d t
                         (Some (t + wk_result_ttl s)))))"
      using bad cache failed by (cases ?m) (auto intro: ends_return driver_error_promise)
  qed
qed

lemma ends_transition:
  assumes "can_transition st st'" and "ends s req w0 k"
  shows "ends s req w0 (unless_error (transition_status (rq_job_id req) st st') k)"
  by (rule ends_unless_error [OF sys.triple_transition [OF knows_at_work assms(1)] assms(2)])

lemma ends_runPipeline:
  assumes ok: "worker_ok s"
  shows "ends s req w0 (runPipeline s job req StatusGenerating)"
proof -
  have st: "in_flight StatusGenerating" "in_flight StatusValidating" "in_flight StatusExecuting"
    by (simp_all add: in_flight_def)
  have tr: "can_transition StatusGenerating StatusValidating" "can_transition StatusValidating StatusExecuting"
    by (simp_all add: can_transition_def)
  show ?thesis
    unfolding runPipeline_def case_prod_beta
    by (intro ends_and_then ends_transition tr
        continues_open_target [OF ok st(1)] continues_read_schema [OF ok st(1)]
        continues_generate_sql [OF ok st(1)] continues_validate_sql [OF ok st(2)]
        continues_execute_sql [OF ok st(3)] ends_store_result [OF ok])
qed

lemma ends_start: "worker_ok s \<Longrightarrow> can_transition st StatusGenerating \<Longrightarrow> ends s req w0 (start_pipeline s job req st)"
  unfolding start_pipeline_def by (rule ends_transition [OF _ ends_runPipeline])

lemma ends_Process:
  assumes ok: "worker_ok s"
  shows "ends s req w0 (Process s req)"
  unfolding ends_def Process_def
proof (rule triple_bind [OF sys.triple_find [OF knows_at_work]])
  fix r :: "go_error + query_job"
  let ?k = "rq_job_id req"
  let ?pre = "\<lambda>w. at_work w0 w \<and> (\<forall>j. r = Inr j \<longrightarrow> job_at w ?k = Some j) \<and>
      (\<forall>e. r = Inl e \<longrightarrow> driver_error e \<or> e = Sentinel ErrJobNotFound \<and> job_at w ?k = None)"
  let ?body = "\<lambda>r. case r of
        Inl err \<Rightarrow> State_Monad.return (Some err)
      | Inr job \<Rightarrow>
          (if is_terminal (jb_status job) then State_Monad.return None
           else if jb_status job = StatusQueued then start_pipeline s job req StatusQueued
           else if jb_status job = StatusRetrying then
             (if int (jb_attempt_count job) \<noteq> rq_attempt req then State_Monad.return None
              else start_pipeline s job req StatusRetrying)
           else if jb_status job \<in> {StatusGenerating, StatusValidating, StatusExecuting} then
             scheduleRetryOrFail s req (jb_status job)
           else State_Monad.return (Some (Sentinel ErrStatusConflict)))"
  let ?post = "\<lambda>r w. at_work w0 w \<and> promise s req w0 r w"
  show "triple sys_evolves ?pre (?body r) ?post"
  proof (cases r)
    case (Inl e)
    have "at_work w0 w \<Longrightarrow> job_at w ?k = None \<Longrightarrow> job_at w0 ?k = None" for w
      unfolding at_work_def sys_evolves_def job_evolves_def by (metis not_None_eq)
    then show ?thesis unfolding Inl sum.case
      by (intro triple_return) (auto simp: driver_error_promise, simp add: promise_def)
  next
    case (Inr job)
    have go: "ends s req w0 p \<Longrightarrow> triple sys_evolves ?pre p ?post" for p
      unfolding ends_def by (erule triple_conseq) auto
    have terminal: "triple sys_evolves ?pre (State_Monad.return None) ?post" if "is_terminal (jb_status job)"
      using that by (intro triple_return) (auto simp: Inr promise_def)
    have stale: "triple sys_evolves ?pre (State_Monad.return None) ?post"
      if "jb_status job = StatusRetrying" "int (jb_attempt_count job) \<noteq> rq_attempt req"
      using that
      by (intro triple_return) (auto simp: Inr promise_def stale_retry_def at_work_def sys.R_refl)
    have conflict: "ends s req w0 (State_Monad.return (Some (Sentinel ErrStatusConflict)))"
      by (rule ends_return) (simp add: promise_def)
    have tr: "can_transition StatusQueued StatusGenerating" "can_transition StatusRetrying StatusGenerating"
      by (simp_all add: can_transition_def)
    have stuck: "ends s req w0 (scheduleRetryOrFail s req (jb_status job))"
      if "jb_status job \<in> {StatusGenerating, StatusValidating, StatusExecuting}"
      using that ends_retry_or_fail [OF ok] by (auto simp: in_flight_def)
    show ?thesis unfolding Inr sum.case
      using terminal stale go [OF ends_start [OF ok tr(1)]] go [OF ends_start [OF ok tr(2)]] go [OF stuck]
        go [OF conflict]
      by (auto simp: Inr split: if_splits)
  qed
qed

section \<open>Only validated SQL is executed\<close>

text \<open>
  A value an external call hands on is one its function returned; so two continuations that agree on
  those values make the same program.
\<close>

lemma ext_value: "fst (run_state (ext f) m) = Inr x \<Longrightarrow> \<exists>w. fst (f w) = Inr x"
  by (auto simp: ext_def Let_def case_prod_beta split: list.splits outcome.splits)

lemma bind_ext_cong:
  assumes "\<And>e. k (Inl e) = k' (Inl e)" and "\<And>x w. fst (f w) = Inr x \<Longrightarrow> k (Inr x) = k' (Inr x)"
  shows "State_Monad.bind (ext f) k = State_Monad.bind (ext f) k'"
proof -
  have "k (fst (run_state (ext f) m)) = k' (fst (run_state (ext f) m))" for m
    using assms ext_value [of f m] by (cases "fst (run_state (ext f) m)") auto
  then show ?thesis by (intro state.expand) (auto simp: case_prod_beta)
qed

text \<open>
  SQL the guard returned for the database of its executor, under the tables and the row limit of the
  worker: what \<open>validate_sql\<close> hands on.
\<close>

definition approved :: "'s worker \<Rightarrow> string \<Rightarrow> string \<Rightarrow> bool" where
  "approved s db sql = (\<exists>generated w v. vr_normalized_sql v = sql \<and>
     wk_validate s \<lparr>vi_sql = generated, vi_allowed_database = db, vi_allowed_tables = wk_allowed_tables s,
       vi_max_rows = wk_max_rows s\<rparr> w = Inr v)"

lemma and_then_validate_cong:
  assumes "\<And>v. approved s db (vr_normalized_sql v) \<Longrightarrow> k v = k' v"
  shows "and_then (validate_sql s req st db sql) k = and_then (validate_sql s req st db sql) k'"
  unfolding and_then_def validate_sql_def State_Monad.bind_assoc
proof (rule bind_ext_cong, goal_cases)
  case (1 e)
  have stop: "State_Monad.bind (stop_with p) (\<lambda>r. case r of Inl res \<Rightarrow> State_Monad.return res | Inr x \<Rightarrow> k x) =
      State_Monad.bind (stop_with p) (\<lambda>r. case r of Inl res \<Rightarrow> State_Monad.return res | Inr x \<Rightarrow> k' x)" for p
    by (intro state.expand) (auto simp: stop_with_def case_prod_beta)
  show ?case using stop by (auto simp: State_Monad.bind_assoc)
next
  case (2 v w)
  then have "k v = k' v" using assms [of v] by (auto simp: approved_def)
  then show ?case by (intro state.expand) auto
qed

text \<open>The worker with executors, static and opened, that refuse all SQL but that of \<open>P\<close> for their database.\<close>

definition restrict_exec :: "(string \<Rightarrow> bool) \<Rightarrow> executor \<Rightarrow> executor" where
  "restrict_exec P exec sql w = (if P sql then exec sql w else Inl (NewError ''refused''))"

definition restricting :: "(string \<Rightarrow> string \<Rightarrow> bool) \<Rightarrow> 's worker \<Rightarrow> 's worker" where
  "restricting P s = s\<lparr>wk_exec := restrict_exec (P (wk_static_db s)) (wk_exec s),
     wk_opener := map_option (\<lambda>open_ds k w. map_sum id
       (\<lambda>(db, exec, reader). (db, restrict_exec (P db) exec, reader)) (open_ds k w)) (wk_opener s)\<rparr>"

lemma restricting_fields:
  "wk_route (restricting P s) = wk_route s"
  "wk_generate (restricting P s) = wk_generate s"
  "wk_validate (restricting P s) = wk_validate s"
  "wk_allowed_tables (restricting P s) = wk_allowed_tables s"
  "wk_max_rows (restricting P s) = wk_max_rows s"
  "wk_static_db (restricting P s) = wk_static_db s"
  "wk_static_schema (restricting P s) = wk_static_schema s"
  "wk_no_schema (restricting P s) = wk_no_schema s"
  "wk_marshal (restricting P s) = wk_marshal s"
  "wk_result_ttl (restricting P s) = wk_result_ttl s"
  "wk_max_result_bytes (restricting P s) = wk_max_result_bytes s"
  "wk_max_retries (restricting P s) = wk_max_retries s"
  "wk_retry_delay (restricting P s) = wk_retry_delay s"
  "wk_is_deterministic (restricting P s) = wk_is_deterministic s"
  "wk_is_retryable (restricting P s) = wk_is_retryable s"
  "wk_exec (restricting P s) = restrict_exec (P (wk_static_db s)) (wk_exec s)"
  by (simp_all add: restricting_def)

lemma restricting_same:
  "scheduleRetryOrFail (restricting P s) = scheduleRetryOrFail s" "read_schema (restricting P s) = read_schema s"
  "generate_sql (restricting P s) = generate_sql s" "validate_sql (restricting P s) = validate_sql s"
  "store_result (restricting P s) = store_result s" "isRetryableError (restricting P s) = isRetryableError s"
proof -
  show same: "scheduleRetryOrFail (restricting P s) = scheduleRetryOrFail s"
    by (intro HOL.ext)
       (simp only: scheduleRetryOrFail_def scheduleRetry_def scheduleDLQ_def Let_def restricting_fields)
  show "read_schema (restricting P s) = read_schema s" "generate_sql (restricting P s) = generate_sql s"
      "validate_sql (restricting P s) = validate_sql s" "store_result (restricting P s) = store_result s"
    unfolding fun_eq_iff read_schema_def generate_sql_def validate_sql_def store_result_def Let_def
      restricting_fields same by simp_all
  show "isRetryableError (restricting P s) = isRetryableError s"
    unfolding fun_eq_iff isRetryableError_def isDeterministicFailure_def restricting_fields by simp
qed

lemma bind_ext_map:
  "State_Monad.bind (ext (\<lambda>w. (map_sum id h (f w), w))) k =
     State_Monad.bind (ext (\<lambda>w. (f w, w))) (\<lambda>r. k (map_sum id h r))"
  by (intro state.expand) (auto simp: ext_def Let_def case_prod_beta split: list.splits outcome.splits)

lemma open_target_restricting:
  "and_then (open_target (restricting P s) job req st) k =
     and_then (open_target s job req st) (\<lambda>(db, exec, reader). k (db, restrict_exec (P db) exec, reader))"
proof -
  have stop: "State_Monad.bind (stop_with p) (\<lambda>r. case r of Inl res \<Rightarrow> State_Monad.return res | Inr x \<Rightarrow> a x) =
      State_Monad.bind (stop_with p) (\<lambda>r. case r of Inl res \<Rightarrow> State_Monad.return res | Inr x \<Rightarrow> b x)"
    for p and a b :: "_ \<Rightarrow> go_error option prog"
    by (simp add: stop_with_def)
  show ?thesis
  proof (cases "jb_data_source_id job")
    case None
    then show ?thesis by (simp add: and_then_def open_target_def restricting_def)
  next
    case (Some ds)
    show ?thesis
    proof (cases "wk_opener s")
      case None
      then have "wk_opener (restricting P s) = None" by (simp add: restricting_def)
      with Some None show ?thesis
        by (simp add: and_then_def open_target_def restricting_same stop_with_def)
    next
      case (Some open_ds)
      have o: "wk_opener (restricting P s) = Some (\<lambda>k w. map_sum id
          (\<lambda>(db, exec, reader). (db, restrict_exec (P db) exec, reader)) (open_ds k w))"
        by (simp add: restricting_def Some)
      show ?thesis
        using \<open>jb_data_source_id job = Some ds\<close>
        by (simp add: and_then_def open_target_def o Some bind_ext_map restricting_same)
          (auto intro!: arg_cong [of _ _ "State_Monad.bind _"] simp: stop_with_def split: sum.splits)
    qed
  qed
qed

lemma execute_restrict:
  "P sql \<Longrightarrow> execute_sql (restricting Q s) req st (restrict_exec P exec) sql = execute_sql s req st exec sql"
proof -
  assume "P sql"
  then have "restrict_exec P exec sql = exec sql" by (simp add: restrict_exec_def fun_eq_iff)
  then show ?thesis unfolding execute_sql_def restricting_same by simp
qed

lemma runPipeline_restricting:
  assumes "\<And>db sql. approved s db sql \<Longrightarrow> P db sql"
  shows "runPipeline (restricting P s) job req st = runPipeline s job req st"
proof -
  have validated: "and_then (validate_sql s req StatusValidating db sql) (\<lambda>v.
       unless_error (transition_status (rq_job_id req) StatusValidating StatusExecuting) (
       and_then (execute_sql (restricting P s) req StatusExecuting (restrict_exec (P db) exec) (vr_normalized_sql v)) (\<lambda>res.
       store_result s req StatusExecuting (vr_normalized_sql v) res))) =
     and_then (validate_sql s req StatusValidating db sql) (\<lambda>v.
       unless_error (transition_status (rq_job_id req) StatusValidating StatusExecuting) (
       and_then (execute_sql s req StatusExecuting exec (vr_normalized_sql v)) (\<lambda>res.
       store_result s req StatusExecuting (vr_normalized_sql v) res)))" for db sql exec
    by (rule and_then_validate_cong) (simp add: execute_restrict assms)
  show ?thesis
    unfolding runPipeline_def open_target_restricting restricting_same
    by (intro arg_cong [of _ _ "and_then _"] HOL.ext) (simp add: case_prod_beta validated)
qed

text \<open>Restricting the executors to anything that contains the approved SQL changes nothing.\<close>

lemma Process_restricting:
  assumes "\<And>db sql. approved s db sql \<Longrightarrow> P db sql"
  shows "Process (restricting P s) req = Process s req"
proof -
  have "start_pipeline (restricting P s) = start_pipeline s"
    by (simp add: fun_eq_iff start_pipeline_def runPipeline_restricting assms)
  then show ?thesis unfolding Process_def restricting_same by (simp only:)
qed

section \<open>Properties\<close>

text \<open>A worker on a direct exchange whose collaborators answer at once, and a request for the job.\<close>

definition sample_worker :: "unit worker" where
  "sample_worker = \<lparr>wk_route = direct_route, wk_generate = (\<lambda>q s w. Inr ''SELECT id FROM products''),
     wk_validate = (\<lambda>inp w. Inr \<lparr>vr_normalized_sql = ''SELECT id FROM products LIMIT 100'',
       vr_statement_type = ''SELECT'', vr_tables = [''products''], vr_limit = 100\<rparr>),
     wk_allowed_tables = [''products''], wk_max_rows = 100,
     wk_exec = (\<lambda>sql w. Inr ([''id''], [[GoInt64 1]])), wk_static_db = ''askdb_demo'', wk_static_schema = None,
     wk_opener = Some (\<lambda>k w. Inr (''askdb_demo'', \<lambda>sql w. Inr ([''id''], [[GoInt64 1]]), None)),
     wk_no_schema = (), wk_marshal = (\<lambda>r. Inr ''{}''), wk_result_ttl = 60, wk_max_result_bytes = 1000,
     wk_max_retries = 3, wk_retry_delay = 5, wk_is_deterministic = (\<lambda>e. False), wk_is_retryable = (\<lambda>e. True)\<rparr>"

definition sample_request :: process_request where
  "sample_request = \<lparr>rq_job_id = 1, rq_message_id = ''m1'', rq_attempt = 0\<rparr>"

lemma sample_worker_ok [simp]: "worker_ok sample_worker"
  by (simp add: worker_ok_def sample_worker_def)

text \<open>
  C6. Only SQL the guard returned reaches an executor: a worker whose executors - the static one and
  every one opened for a data source - refuse any SQL that is not the normalized SQL of a successful
  validation for the executor's own database, under the worker's tables and row limit, behaves, on every
  request and under all faults and interference, exactly like the worker itself.
\<close>

theorem only_validated_sql_is_executed: "Process (restricting (approved s) s) req = Process s req"
  by (rule Process_restricting)





end
