(* ===== verification/Worker_Success.thy ===== *)
theory Worker_Success
  imports Worker
begin

text \<open>
  The undisturbed run of \<open>WorkerService.Process\<close> (internal/queryjob/worker_service.go): when the
  collaborators answer, a job that is queued - or retrying for the message's attempt - is carried
  through all its states, its result is cached and its row records the SQL the guard returned.
\<close>

section \<open>Quiet runs\<close>

text \<open>The row update behind a status change, and its run on a quiet machine.\<close>

definition put_job :: "nat \<Rightarrow> status \<Rightarrow> (query_job \<Rightarrow> query_job) \<Rightarrow> world \<Rightarrow> world" where
  "put_job k st f w = w\<lparr>w_jobs := sql_update (\<lambda>j. jb_id j = k \<and> jb_status j = st) f (w_jobs w)\<rparr>"

lemma put_job_clock [simp]: "w_clock (put_job k st f w) = w_clock w"
  by (simp add: put_job_def)

lemma redis_get_put_job: "redis_get key (put_job k st f w) = redis_get key w"
  by (auto simp: put_job_def redis_get_def split: option.splits)

lemma job_at_put_job:
  assumes "\<And>j. jb_id (f j) = jb_id j" and "job_at w k = Some j" and "jb_status j = st"
  shows "job_at (put_job k st f w) k = Some (f j)"
  using assms lookup_key [OF assms(2)]
  by (simp add: put_job_def lookup_update [where key = jb_id and f = f, OF assms(1)])

lemma cas_job_quiet:
  assumes "job_at w k = Some j" and "jb_status j = st" and "f j \<noteq> j"
  shows "\<exists>n. cas_job k st f w = (Inr (Suc n), put_job k st f w)"
proof -
  have "j \<in> set (w_jobs w)" "jb_id j = k" using lookup_key [OF assms(1)] by auto
  with assms(2,3) have "sql_affected (\<lambda>j. jb_id j = k \<and> jb_status j = st) f (w_jobs w) \<noteq> 0"
    by (auto simp: sql_affected_def filter_empty_conv)
  then show ?thesis by (auto simp: cas_job_def put_job_def gr0_conv_Suc)
qed

definition moved :: "status \<Rightarrow> instant \<Rightarrow> query_job \<Rightarrow> query_job" where
  "moved st t j = j\<lparr>jb_status := st, jb_updated_at := t\<rparr>"

definition succeeded ::
  "string \<Rightarrow> int \<Rightarrow> int \<Rightarrow> instant \<Rightarrow> instant \<Rightarrow> query_job \<Rightarrow> query_job" where
  "succeeded sql n ms t expires j = j\<lparr>jb_status := StatusSucceeded, jb_generated_sql := Some sql,
     jb_row_count := Some n, jb_execution_duration_ms := Some ms, jb_finished_at := Some t,
     jb_updated_at := t, jb_result_expires_at := Some expires\<rparr>"

lemma moved_simps [simp]: "jb_status (moved st t j) = st" "jb_id (moved st t j) = jb_id j"
    "jb_question (moved st t j) = jb_question j" "jb_data_source_id (moved st t j) = jb_data_source_id j"
    "jb_status j \<noteq> st \<Longrightarrow> moved st t j \<noteq> j"
  by (auto simp: moved_def) (metis query_job.select_convs(4) query_job.surjective query_job.update_convs(4,10))

lemma succeeded_simps [simp]: "jb_id (succeeded q n ms t x j) = jb_id j"
    "jb_status (succeeded q n ms t x j) = StatusSucceeded"
    "jb_status j \<noteq> StatusSucceeded \<Longrightarrow> succeeded q n ms t x j \<noteq> j"
  by (auto simp: succeeded_def intro: arg_cong [where f = jb_status] dest!: arg_cong [where f = jb_status])

lemma transition_quiet:
  assumes "job_at w k = Some j" and "jb_status j = st" and "to \<noteq> st"
  shows "run_state (transition_status k st to) (quiet w) =
    (None, quiet (put_job k st (moved to (w_clock w)) w))"
proof -
  obtain n where "cas_job k st (moved to (w_clock w)) w = (Inr (Suc n), put_job k st (moved to (w_clock w)) w)"
    using cas_job_quiet [OF assms(1,2), of "moved to (w_clock w)"] assms by auto
  then show ?thesis
    by (simp add: transition_status_def quiet_def cas_result_def moved_def [abs_def] Let_def)
qed

lemma set_succeeded_quiet:
  assumes "job_at w k = Some j" and "jb_status j = st" and "st \<noteq> StatusSucceeded"
  shows "run_state (set_succeeded k st q n ms t (Some x)) (quiet w) =
    (None, quiet (put_job k st (succeeded q n ms t x) w))"
proof -
  obtain i where "cas_job k st (succeeded q n ms t x) w = (Inr (Suc i), put_job k st (succeeded q n ms t x) w)"
    using cas_job_quiet [OF assms(1,2), of "succeeded q n ms t x"] assms by auto
  then show ?thesis
    by (simp add: set_succeeded_def quiet_def cas_result_def succeeded_def [abs_def] Let_def)
qed

section \<open>The stages\<close>

text \<open>The opener is asked while the data sources are those of \<open>w\<close>.\<close>

definition answers_target ::
  "'s worker \<Rightarrow> world \<Rightarrow> query_job \<Rightarrow> string \<times> executor \<times> 's schema_reader option \<Rightarrow> bool" where
  "answers_target s w j target = (case jb_data_source_id j of
       None \<Rightarrow> target = (wk_static_db s, wk_exec s, wk_static_schema s)
     | Some ds \<Rightarrow> (\<exists>openForJob. wk_opener s = Some openForJob \<and>
         (\<forall>w'. w_sources w' = w_sources w \<longrightarrow> openForJob (nat (ds mod 2 ^ 64)) w' = Inr target)))"

definition answers_schema :: "'s worker \<Rightarrow> 's schema_reader option \<Rightarrow> 's \<Rightarrow> bool" where
  "answers_schema s reader schema = (case reader of
       None \<Rightarrow> schema = wk_no_schema s | Some read \<Rightarrow> (\<forall>w. read w = Inr schema))"

lemma run_and_then:
  "run_state (and_then p k) m = (case run_state p m of
     (Inl res, m') \<Rightarrow> (res, m') | (Inr x, m') \<Rightarrow> run_state (k x) m')"
  by (simp add: and_then_def case_prod_beta split: sum.splits)

lemma run_unless_error:
  "run_state (unless_error p k) m = (case run_state p m of
     (Some e, m') \<Rightarrow> (Some e, m') | (None, m') \<Rightarrow> run_state k m')"
  by (simp add: unless_error_def case_prod_beta split: option.splits)

lemma open_target_quiet:
  "answers_target s w0 j target \<Longrightarrow> w_sources w = w_sources w0 \<Longrightarrow>
     run_state (open_target s j req st) (quiet w) = (Inr target, quiet w)"
  by (auto simp: answers_target_def open_target_def quiet_def split: option.splits)

lemma read_schema_quiet:
  "answers_schema s reader schema \<Longrightarrow> run_state (read_schema s req st reader) (quiet w) = (Inr schema, quiet w)"
  by (auto simp: answers_schema_def read_schema_def quiet_def split: option.splits)

lemma generate_quiet:
  "(\<And>w. wk_generate s (jb_question j) schema w = Inr sql) \<Longrightarrow>
     run_state (generate_sql s j req st schema) (quiet w) = (Inr sql, quiet w)"
  by (simp add: generate_sql_def quiet_def)

lemma validate_quiet:
  "(\<And>w. wk_validate s \<lparr>vi_sql = sql, vi_allowed_database = db,
      vi_allowed_tables = wk_allowed_tables s, vi_max_rows = wk_max_rows s\<rparr> w = Inr v) \<Longrightarrow>
     run_state (validate_sql s req st db sql) (quiet w) = (Inr v, quiet w)"
  by (simp add: validate_sql_def quiet_def)

lemma execute_quiet:
  "(\<And>w. exec sql w = Inr (columns, rows)) \<Longrightarrow>
     run_state (execute_sql s req st exec sql) (quiet w) = (Inr (columns, rows, 0), quiet w)"
  by (simp add: execute_sql_def quiet_def milliseconds_def)

lemma store_result_quiet:
  assumes "job_at w (rq_job_id req) = Some j" and "jb_status j = st" and "st \<noteq> StatusSucceeded"
    and "wk_marshal s \<lparr>cr_job_id = rq_job_id req, cr_columns = columns, cr_rows = rows,
       cr_row_count = int (length rows), cr_cached_at = w_clock w,
       cr_expires_at = w_clock w + wk_result_ttl s\<rparr> = Inr payload"
    and "int (length payload) \<le> wk_max_result_bytes s"
  shows "run_state (store_result s req st sql (columns, rows, ms)) (quiet w) =
    (None, quiet (put_job (rq_job_id req) st
       (succeeded sql (int (length rows)) ms (w_clock w) (w_clock w + wk_result_ttl s))
       (redis_set (QueryResultKey (rq_job_id req)) payload (wk_result_ttl s) w)))"
proof -
  let ?w = "redis_set (QueryResultKey (rq_job_id req)) payload (wk_result_ttl s) w"
  have "run_state (store_set_raw (rq_job_id req) payload (wk_result_ttl s)) (quiet w) = (None, quiet ?w)"
    by (simp add: store_set_raw_def quiet_def)
  moreover have "job_at ?w (rq_job_id req) = Some j" "w_clock ?w = w_clock w"
    using assms(1) by (simp_all add: redis_set_def)
  ultimately show ?thesis
    using assms(4,5) set_succeeded_quiet [OF _ assms(2,3), where w = ?w and k = "rq_job_id req"]
    by (simp add: store_result_def marshal_result_def Let_def)
qed

text \<open>The world and the row an undisturbed run leaves.\<close>

definition success_row :: "'s worker \<Rightarrow> string \<Rightarrow> nat \<Rightarrow> world \<Rightarrow> query_job \<Rightarrow> query_job" where
  "success_row s sql n w j =
     succeeded sql (int n) 0 (w_clock w) (w_clock w + wk_result_ttl s)
       (moved StatusExecuting (w_clock w) j)"

lemma moved_moved [simp]: "moved st t (moved st' t j) = moved st t j"
  by (simp add: moved_def)

lemma Process_start_quiet:
  assumes "job_at w (rq_job_id req) = Some j"
    and "jb_status j = StatusQueued \<or> jb_status j = StatusRetrying \<and> int (jb_attempt_count j) = rq_attempt req"
  shows "run_state (Process s req) (quiet w) = run_state (runPipeline s j req StatusGenerating)
    (quiet (put_job (rq_job_id req) (jb_status j) (moved StatusGenerating (w_clock w)) w))"
proof -
  have "run_state (job_find_by_id (rq_job_id req)) (quiet w) = (Inr j, quiet w)"
    using assms(1) by (simp add: job_find_by_id_def quiet_def)
  moreover have "run_state (transition_status (rq_job_id req) (jb_status j) StatusGenerating) (quiet w) =
      (None, quiet (put_job (rq_job_id req) (jb_status j) (moved StatusGenerating (w_clock w)) w))"
    by (rule transition_quiet [OF assms(1) refl]) (use assms(2) in auto)
  ultimately show ?thesis
    using assms(2) by (auto simp: Process_def start_pipeline_def run_unless_error)
qed

lemma Process_succeeds_quiet:
  assumes "job_at w (rq_job_id req) = Some j"
    and "jb_status j = StatusQueued \<or> jb_status j = StatusRetrying \<and> int (jb_attempt_count j) = rq_attempt req"
    and "answers_target s w j (db, exec, reader)" and "answers_schema s reader schema"
    and "\<And>w. wk_generate s (jb_question j) schema w = Inr sql"
    and "\<And>w. wk_validate s \<lparr>vi_sql = sql, vi_allowed_database = db,
      vi_allowed_tables = wk_allowed_tables s, vi_max_rows = wk_max_rows s\<rparr> w = Inr v"
    and "\<And>w. exec (vr_normalized_sql v) w = Inr (columns, rows)"
    and "wk_marshal s \<lparr>cr_job_id = rq_job_id req, cr_columns = columns, cr_rows = rows,
       cr_row_count = int (length rows), cr_cached_at = w_clock w,
       cr_expires_at = w_clock w + wk_result_ttl s\<rparr> = Inr payload"
    and "int (length payload) \<le> wk_max_result_bytes s" and "0 < wk_result_ttl s"
  shows "\<exists>w'. run_state (Process s req) (quiet w) = (None, quiet w') \<and>
    job_at w' (rq_job_id req) = Some (success_row s (vr_normalized_sql v) (length rows) w j) \<and>
    redis_get (QueryResultKey (rq_job_id req)) w' = Some payload \<and>
    w_pm w' = w_pm w \<and> w_clock w' = w_clock w"
proof -
  let ?k = "rq_job_id req" and ?t = "w_clock w"
  let ?w1 = "put_job ?k (jb_status j) (moved StatusGenerating ?t) w"
  let ?w2 = "put_job ?k StatusGenerating (moved StatusValidating ?t) ?w1"
  let ?w3 = "put_job ?k StatusValidating (moved StatusExecuting ?t) ?w2"
  let ?w4 = "redis_set (QueryResultKey ?k) payload (wk_result_ttl s) ?w3"
  let ?done = "succeeded (vr_normalized_sql v) (int (length rows)) 0 ?t (?t + wk_result_ttl s)"
  let ?w5 = "put_job ?k StatusExecuting ?done ?w4"
  have j1: "job_at ?w1 ?k = Some (moved StatusGenerating ?t j)"
    by (rule job_at_put_job [OF _ assms(1)]) simp_all
  have j2: "job_at ?w2 ?k = Some (moved StatusValidating ?t j)"
    using job_at_put_job [OF _ j1, where f = "moved StatusValidating ?t" and st = StatusGenerating] by simp
  have j3: "job_at ?w3 ?k = Some (moved StatusExecuting ?t j)"
    using job_at_put_job [OF _ j2, where f = "moved StatusExecuting ?t" and st = StatusValidating] by simp
  have j4: "job_at ?w4 ?k = Some (moved StatusExecuting ?t j)" using j3 by (simp add: redis_set_def)
  have j5: "job_at ?w5 ?k = Some (?done (moved StatusExecuting ?t j))"
    by (rule job_at_put_job [OF _ j4]) simp_all
  have sources: "w_sources ?w1 = w_sources w" by (simp add: put_job_def)
  have store: "run_state (store_result s req StatusExecuting (vr_normalized_sql v) (columns, rows, 0)) (quiet ?w3) =
      (None, quiet ?w5)"
    using store_result_quiet [where s = s and columns = columns and rows = rows and payload = payload
        and sql = "vr_normalized_sql v" and ms = 0, OF j3 _ _ _ assms(9)] assms(8) by simp
  note stages = open_target_quiet [OF assms(3) sources] read_schema_quiet [OF assms(4)] generate_quiet [OF assms(5)]
    validate_quiet [where s = s, OF assms(6)] execute_quiet [where exec = exec, OF assms(7)]
    transition_quiet [OF j1, where to = StatusValidating, simplified]
    transition_quiet [OF j2, where to = StatusExecuting, simplified] store
  have "run_state (Process s req) (quiet w) = (None, quiet ?w5)"
    unfolding Process_start_quiet [OF assms(1,2)] runPipeline_def
    by (simp add: run_and_then run_unless_error stages)
  moreover have "redis_get (QueryResultKey ?k) ?w5 = Some payload"
    using assms(10) by (simp add: redis_get_put_job redis_get_set)
  moreover have "w_pm ?w5 = w_pm w" "w_clock ?w5 = w_clock w" by (simp_all add: put_job_def redis_set_def)
  ultimately show ?thesis using j5 by (auto simp: success_row_def)
qed

section \<open>Property\<close>

text \<open>
  An undisturbed job succeeds: when the data source opens, the schema, the SQL, its validation
  and the rows arrive and the encoded result is small enough, Process returns nil, the job is
  succeeded with exactly the SQL the guard returned, its row count and expiry, and the encoded
  result is in the cache under the job's key.
\<close>

theorem undisturbed_job_succeeds:
  assumes "job_at w (rq_job_id req) = Some j"
    and "jb_status j = StatusQueued \<or> jb_status j = StatusRetrying \<and> int (jb_attempt_count j) = rq_attempt req"
    and "answers_target s w j (db, exec, reader)" and "answers_schema s reader schema"
    and "\<And>w. wk_generate s (jb_question j) schema w = Inr sql"
    and "\<And>w. wk_validate s \<lparr>vi_sql = sql, vi_allowed_database = db,
      vi_allowed_tables = wk_allowed_tables s, vi_max_rows = wk_max_rows s\<rparr> w = Inr v"
    and "\<And>w. exec (vr_normalized_sql v) w = Inr (columns, rows)"
    and "wk_marshal s \<lparr>cr_job_id = rq_job_id req, cr_columns = columns, cr_rows = rows,
       cr_row_count = int (length rows), cr_cached_at = w_clock w,
       cr_expires_at = w_clock w + wk_result_ttl s\<rparr> = Inr payload"
    and "int (length payload) \<le> wk_max_result_bytes s" and "0 < wk_result_ttl s"
  shows "\<exists>w'. run_state (Process s req) (quiet w) = (None, quiet w') \<and>
    job_at w' (rq_job_id req) = Some (success_row s (vr_normalized_sql v) (length rows) w j) \<and>
    redis_get (QueryResultKey (rq_job_id req)) w' = Some payload"
  using Process_succeeds_quiet [OF assms(1-4) assms(5) assms(6) assms(7) assms(8-10)] by blast

theorem undisturbed_job_succeeds_witness:
  "\<exists>w' j. run_state (Process sample_worker sample_request) (quiet ready_world) = (None, quiet w') \<and>
     job_at w' 1 = Some j \<and> jb_status j = StatusSucceeded \<and>
     jb_generated_sql j = Some ''SELECT id FROM products LIMIT 100'' \<and> jb_row_count j = Some 1"
proof -
  let ?j = "sample_job\<lparr>jb_id := 1, jb_status := StatusQueued, jb_updated_at := 6\<rparr>"
  from undisturbed_job_succeeds [where w = ready_world and s = sample_worker and req = sample_request
      and j = "?j" and db = "''askdb_demo''" and exec = "\<lambda>sql w. Inr ([''id''], [[GoInt64 1]])" and reader = None
      and schema = "()" and sql = "''SELECT id FROM products''" and columns = "[''id'']" and rows = "[[GoInt64 1]]"
      and v = "\<lparr>vr_normalized_sql = ''SELECT id FROM products LIMIT 100'',
       vr_statement_type = ''SELECT'', vr_tables = [''products''], vr_limit = 100\<rparr>" and payload = "''{}''"]
  show ?thesis
    using ready_world_job
    by (fastforce simp: sample_worker_def sample_request_def answers_target_def answers_schema_def
        sample_job_def success_row_def succeeded_def moved_def)
qed

end
