(* ===== verification/Consumer.thy ===== *)
theory Consumer
  imports Worker
begin

text \<open>
  The consumer (internal/queryjob/consumer.go): \<open>handle\<close> decides what happens to one delivery - parse,
  validate, claim the message, process, record the outcome - and answers ACK, NACK or fatal. The
  lease renewal runs beside \<open>Process\<close> in its own goroutine: its statements are part of the
  interference, its verdict (the \<open>leaseLost\<close> flag at the end) and the fresh lease token are
  arguments of \<open>handle\<close>; \<open>renew_tick\<close> is one turn of its loop. Acknowledging the delivery is left
  to the caller, as in the code (theory Consumer_Run).
\<close>

section \<open>Deliveries\<close>

record delivery =
  dl_headers :: "amqp_table option"
  dl_body :: body

datatype delivery_outcome = OutcomeAck | OutcomeNackRequeue | OutcomeFatal

definition format_int :: "int \<Rightarrow> string" where
  "format_int x = (if x < 0 then ''-'' @ format_uint (nat (- x)) else format_uint (nat x))"

fun amqp_type_name :: "amqp_value \<Rightarrow> string" where
  "amqp_type_name (AmqpInt32 _) = ''int32''"
| "amqp_type_name (AmqpInt64 _) = ''int64''"
| "amqp_type_name (AmqpString _) = ''string''"
| "amqp_type_name (AmqpBool _) = ''bool''"

definition maxSaneAttempt :: int where "maxSaneAttempt = 100"

definition extractAttempt :: "amqp_table option \<Rightarrow> go_error + int" where
  "extractAttempt headers = (case headers of
       None \<Rightarrow> Inr 0
     | Some table \<Rightarrow> (case map_of table HeaderAttempt of
           None \<Rightarrow> Inr 0
         | Some (AmqpInt32 v) \<Rightarrow>
             (if v < 0 then Inl (NewError (''x-attempt header is negative: '' @ format_int v))
              else if maxSaneAttempt < v then Inl (NewError (''x-attempt header exceeds sane limit: '' @ format_int v))
              else Inr v)
         | Some raw \<Rightarrow> Inl (NewError (''x-attempt header has unexpected type '' @ amqp_type_name raw))))"

section \<open>Handling a delivery\<close>

definition dlqDirect ::
  "route \<Rightarrow> string \<Rightarrow> nat \<Rightarrow> int \<Rightarrow> (delivery_outcome \<times> go_error option) prog" where
  "dlqDirect route messageID jobID attempt = do {
     p \<leftarrow> publish_dlq route jobID messageID attempt;
     State_Monad.return (case p of
         Some e \<Rightarrow> (OutcomeNackRequeue, Some e) | None \<Rightarrow> (OutcomeAck, None))
   }"

definition complete_and_ack :: "string \<Rightarrow> string \<Rightarrow> (delivery_outcome \<times> go_error option) prog" where
  "complete_and_ack messageID leaseToken = do {
     t \<leftarrow> now;
     r \<leftarrow> mark_completed messageID leaseToken t;
     State_Monad.return (case r of
         Some e \<Rightarrow> (OutcomeNackRequeue, Some e) | None \<Rightarrow> (OutcomeAck, None))
   }"

definition dlqThenComplete ::
  "route \<Rightarrow> query_job_message \<Rightarrow> int \<Rightarrow> string \<Rightarrow> (delivery_outcome \<times> go_error option) prog" where
  "dlqThenComplete route msg attempt leaseToken = do {
     p \<leftarrow> publish_dlq route (mg_job_id msg) (mg_message_id msg) attempt;
     (case p of
        Some e \<Rightarrow> State_Monad.return (OutcomeNackRequeue, Some e)
      | None \<Rightarrow> complete_and_ack (mg_message_id msg) leaseToken)
   }"

definition renew_tick :: "string \<Rightarrow> string \<Rightarrow> (bool \<times> bool) prog" where
  "renew_tick messageID leaseToken = do {
     t \<leftarrow> now;
     r \<leftarrow> renew messageID leaseToken t;
     State_Monad.return (errors_is_opt r ErrLeaseLost, r \<noteq> None)
   }"

text \<open>Steps 7 and 8: the lease check and the mapping of the result of \<open>Process\<close>.\<close>

definition finish ::
  "route \<Rightarrow> bool \<Rightarrow> query_job_message \<Rightarrow> int \<Rightarrow> string \<Rightarrow> go_error option \<Rightarrow>
     (delivery_outcome \<times> go_error option) prog" where
  "finish route leaseLost msg attempt leaseToken procErr =
     (if leaseLost then State_Monad.return (OutcomeNackRequeue,
        Some (NewError (''lease lost during processing job_id='' @ format_uint (mg_job_id msg))))
      else case procErr of
        None \<Rightarrow> complete_and_ack (mg_message_id msg) leaseToken
      | Some e \<Rightarrow>
          (if errors_is e ErrRetryScheduled then do {
             r \<leftarrow> mark_retry_scheduled (mg_message_id msg) leaseToken;
             State_Monad.return (case r of
                 Some e \<Rightarrow> (OutcomeNackRequeue, Some e) | None \<Rightarrow> (OutcomeAck, None))
           }
           else if errors_is e ErrDLQScheduled then complete_and_ack (mg_message_id msg) leaseToken
           else if errors_is e ErrJobNotFound then dlqThenComplete route msg attempt leaseToken
           else State_Monad.return (OutcomeFatal, Some e)))"

definition process_claimed ::
  "'s worker \<Rightarrow> bool \<Rightarrow> query_job_message \<Rightarrow> int \<Rightarrow> string \<Rightarrow> (delivery_outcome \<times> go_error option) prog" where
  "process_claimed s leaseLost msg attempt leaseToken = do {
     procErr \<leftarrow> Process s \<lparr>rq_job_id = mg_job_id msg, rq_message_id = mg_message_id msg, rq_attempt = attempt\<rparr>;
     finish (wk_route s) leaseLost msg attempt leaseToken procErr
   }"

text \<open>Steps 4 to 8: what happens to a delivery that parses and carries a sane attempt.\<close>

definition handle_valid ::
  "'s worker \<Rightarrow> string \<Rightarrow> bool \<Rightarrow> query_job_message \<Rightarrow> int \<Rightarrow> (delivery_outcome \<times> go_error option) prog" where
  "handle_valid s freshToken leaseLost msg attempt = do {
     t \<leftarrow> now;
     c \<leftarrow> claim freshToken (mg_message_id msg) (mg_type msg) (mg_job_id msg) (uint8_of attempt) t;
     (case c of
        Inl claimErr \<Rightarrow> State_Monad.return (OutcomeFatal, Some claimErr)
      | Inr (leaseToken, claimResult) \<Rightarrow>
          (case claimResult of
             ClaimAlreadyDone \<Rightarrow> State_Monad.return (OutcomeAck, None)
           | ClaimLeaseHeld \<Rightarrow> do {
               p \<leftarrow> publish_retry (wk_route s) (mg_job_id msg) (mg_message_id msg) attempt;
               State_Monad.return (case p of
                   Some e \<Rightarrow> (OutcomeNackRequeue, Some e) | None \<Rightarrow> (OutcomeAck, None))
             }
           | ClaimConflict \<Rightarrow> dlqDirect (wk_route s) (mg_message_id msg) (mg_job_id msg) attempt
           | _ \<Rightarrow> process_claimed s leaseLost msg attempt leaseToken))
   }"

definition handle ::
  "'s worker \<Rightarrow> string \<Rightarrow> bool \<Rightarrow> delivery \<Rightarrow> (delivery_outcome \<times> go_error option) prog" where
  "handle s freshToken leaseLost d = (case dl_body d of
       MalformedBody _ \<Rightarrow> dlqDirect (wk_route s) ''invalid-id'' 0 0
     | JsonBody msg \<Rightarrow>
         (if mg_type msg \<noteq> MessageTypeQueryExecutionRequested \<or> mg_version msg \<noteq> messageVersion then
            dlqDirect (wk_route s) (mg_message_id msg) (mg_job_id msg) 0
          else if mg_job_id msg = 0 then dlqDirect (wk_route s) (mg_message_id msg) 0 0
          else (case extractAttempt (dl_headers d) of
             Inl e \<Rightarrow> dlqDirect (wk_route s) (mg_message_id msg) (mg_job_id msg) 0
           | Inr attempt \<Rightarrow> handle_valid s freshToken leaseLost msg attempt)))"

section \<open>The attempt header survives the trip\<close>

lemma extract_build:
  assumes "0 \<le> a" and "a \<le> 100"
  shows "extractAttempt (pb_headers (buildWorkerPublishing k m a t)) = Inr a"
  using assms
  by (simp add: extractAttempt_def buildWorkerPublishing_def envelope_publishing_def maxSaneAttempt_def)

lemma extract_range: "extractAttempt h = Inr a \<Longrightarrow> 0 \<le> a \<and> a \<le> 100"
  by (auto simp: extractAttempt_def maxSaneAttempt_def split: option.splits amqp_value.splits if_splits)

section \<open>Why a delivery was acknowledged\<close>

text \<open>
  The reasons to acknowledge a processed delivery, each of which survives whatever happens later: the
  job is in a terminal state; the next attempt is in the retry queue; the message is in the
  dead-letter queue; or it was a stale retry.
\<close>

definition request_of :: "query_job_message \<Rightarrow> int \<Rightarrow> process_request" where
  "request_of msg a = \<lparr>rq_job_id = mg_job_id msg, rq_message_id = mg_message_id msg, rq_attempt = a\<rparr>"

definition job_terminal :: "nat \<Rightarrow> world \<Rightarrow> bool" where
  "job_terminal k w = job_satisfies (\<lambda>j. is_terminal (jb_status j)) w k"

definition processed_reason :: "query_job_message \<Rightarrow> int \<Rightarrow> world \<Rightarrow> world \<Rightarrow> bool" where
  "processed_reason msg a w0 w =
     (job_terminal (mg_job_id msg) w \<or>
      retry_sent (mg_job_id msg) (mg_message_id msg) (int (uint8_of (a + 1))) w \<or>
      dlq_sent (mg_job_id msg) (mg_message_id msg) a w \<or>
      stale_retry (request_of msg a) w0 w)"

lemma job_terminal_evolves: "job_terminal k w \<Longrightarrow> sys_evolves w w' \<Longrightarrow> job_terminal k w'"
  unfolding job_terminal_def job_satisfies_def sys_evolves_def job_evolves_def job_row_evolves_def
  by blast

lemma stale_retry_evolves: "stale_retry req w0 w \<Longrightarrow> sys_evolves w w' \<Longrightarrow> stale_retry req w0 w'"
  unfolding stale_retry_def using sys.R_trans by blast

lemma stable_reason: "stable sys_evolves (processed_reason msg a w0)"
  unfolding stable_def processed_reason_def
  using job_terminal_evolves stale_retry_evolves sys.stable_retry_sent sys.stable_dlq_sent
  unfolding stable_def by blast

text \<open>What a result of \<open>Process\<close> that leads to an ACK promises, for good.\<close>

definition ack_result :: "go_error option \<Rightarrow> bool" where
  "ack_result r = (r = None \<or> errors_is_opt r ErrRetryScheduled \<or> errors_is_opt r ErrDLQScheduled)"

lemma promise_reason:
  assumes "promise s (request_of msg a) w0 r w" and "ack_result r"
  shows "processed_reason msg a w0 w"
  using assms
  by (cases r) (auto simp: promise_def ack_result_def processed_reason_def request_of_def job_terminal_def)

lemma stale_retry_earlier: "sys_evolves w0 w1 \<Longrightarrow> stale_retry req w1 w \<Longrightarrow> stale_retry req w0 w"
  unfolding stale_retry_def using sys.R_trans by blast

lemma promise_earlier: "sys_evolves w0 w1 \<Longrightarrow> promise s req w1 r w \<Longrightarrow> promise s req w0 r w"
proof -
  assume ev: "sys_evolves w0 w1" and p: "promise s req w1 r w"
  have "job_at w1 k = None \<Longrightarrow> job_at w0 k = None" for k
    using ev unfolding sys_evolves_def job_evolves_def by (metis not_None_eq)
  with p stale_retry_earlier [OF ev] show ?thesis
    by (auto simp: promise_def split: option.splits)
qed

text \<open>Facts that nobody can invalidate are carried across a program that keeps the history.\<close>

lemma triple_from:
  assumes "\<And>w1. P w1 \<Longrightarrow> triple R ((=) w1) p Q"
  shows "triple R P p Q"
  by (rule tripleI) (rule triple_run [OF assms _ refl])

lemma triple_Process:
  assumes ok: "worker_ok s" and S: "stable sys_evolves S"
  shows "triple sys_evolves (\<lambda>w. at_work w0 w \<and> S w) (Process s req)
    (\<lambda>r w. (at_work w0 w \<and> S w) \<and> promise s req w0 r w)"
proof (rule triple_from)
  fix w1 assume w1: "at_work w0 w1 \<and> S w1"
  then have ev: "sys_evolves w0 w1" and start: "at_work w1 w1"
    by (auto simp: at_work_def sys.R_refl)
  show "triple sys_evolves ((=) w1) (Process s req) (\<lambda>r w. (at_work w0 w \<and> S w) \<and> promise s req w0 r w)"
  proof (rule triple_conseq [OF ends_Process [OF ok, of req w1, unfolded ends_def]])
    fix w assume "w1 = w" then show "at_work w1 w" using start by simp
  next
    fix r w assume h: "at_work w1 w \<and> promise s req w1 r w"
    then have "sys_evolves w1 w" by (simp add: at_work_def)
    then show "(at_work w0 w \<and> S w) \<and> promise s req w0 r w"
      using h w1 S sys.R_trans [OF ev] promise_earlier [OF ev] unfolding stable_def at_work_def by blast
  qed
qed

section \<open>The steps of the handler\<close>

text \<open>
  \<open>on_watch w0\<close>: what the consumer knows, besides the worker's knowledge that the log is well formed.
\<close>

definition on_watch :: "world \<Rightarrow> world \<Rightarrow> bool" where
  "on_watch w0 w = (at_work w0 w \<and> pm_wf w)"

lemma stable_pm_wf: "stable sys_evolves pm_wf"
  unfolding stable_def sys_evolves_def pm_evolves_def by blast

lemma stable_on_watch: "stable sys_evolves (on_watch w0)"
  unfolding on_watch_def by (rule stable_conj [OF stable_at_work stable_pm_wf])

text \<open>
  \<open>acks w0 P p Q\<close>: from a state satisfying \<open>P\<close> the step \<open>p\<close> keeps what the consumer knows, and if it
  answers ACK then \<open>Q\<close> holds.
\<close>

definition acks ::
  "world \<Rightarrow> (world \<Rightarrow> bool) \<Rightarrow> (delivery_outcome \<times> go_error option) prog \<Rightarrow> (world \<Rightarrow> bool) \<Rightarrow> bool" where
  "acks w0 P p Q = triple sys_evolves P p (\<lambda>r w. on_watch w0 w \<and> (fst r = OutcomeAck \<longrightarrow> Q w))"

lemma acks_conseq:
  "acks w0 P p Q \<Longrightarrow> (\<And>w. P' w \<Longrightarrow> P w) \<Longrightarrow> (\<And>w. Q w \<Longrightarrow> Q' w) \<Longrightarrow> acks w0 P' p Q'"
  unfolding acks_def by (erule triple_conseq) auto

lemma acks_return:
  "(\<And>w. P w \<Longrightarrow> on_watch w0 w) \<Longrightarrow> (\<And>w. fst r = OutcomeAck \<Longrightarrow> P w \<Longrightarrow> Q w) \<Longrightarrow>
     acks w0 P (State_Monad.return r) Q"
  unfolding acks_def by (rule triple_return) auto

lemma acks_bind:
  "triple sys_evolves P p M \<Longrightarrow> (\<And>x. acks w0 (M x) (k x) Q) \<Longrightarrow> acks w0 P (State_Monad.bind p k) Q"
  unfolding acks_def by (rule triple_bind)

lemma acks_complete:
  assumes P: "sys.knows_pm P" and n: "\<And>w. P w \<Longrightarrow> pm_names m ty k w" and W: "\<And>w. P w \<Longrightarrow> on_watch w0 w"
  shows "acks w0 P (complete_and_ack m token) (\<lambda>w. P w \<and> message_done ty k w)"
  unfolding complete_and_ack_def
  by (rule acks_bind [OF triple_now [where Q = "\<lambda>_. P"]], assumption,
      rule acks_bind [OF sys.triple_mark_completed [OF P n]], assumption, rule acks_return)
     (auto split: option.splits dest: W)

lemma acks_dlqDirect:
  assumes "amqp_route route" and "stable sys_evolves P" and W: "\<And>w. P w \<Longrightarrow> on_watch w0 w"
  shows "acks w0 P (dlqDirect route m k a) (dlq_sent k m a)"
proof -
  have b: "\<And>w. P w \<Longrightarrow> bound mqDLQQueue mqDLQRoutingKey mqDLQExchange w"
    using W by (simp add: on_watch_def at_work_def)
  show ?thesis
    unfolding dlqDirect_def
    by (rule acks_bind [OF sys.triple_publish_dlq [OF assms(1,2)]], erule b, rule acks_return)
       (auto split: option.splits dest: W)
qed

text \<open>What is known once the message is claimed.\<close>

definition claimed :: "query_job_message \<Rightarrow> world \<Rightarrow> world \<Rightarrow> bool" where
  "claimed msg w0 w = (on_watch w0 w \<and> pm_names (mg_message_id msg) (mg_type msg) (mg_job_id msg) w)"

lemma stable_claimed: "stable sys_evolves (claimed msg w0)"
  unfolding claimed_def by (rule stable_conj [OF stable_on_watch sys.stable_pm_names])

lemma knows_claimed: "stable sys_evolves S \<Longrightarrow> sys.knows_pm (\<lambda>w. claimed msg w0 w \<and> S w)"
  unfolding sys.knows_pm_def
  by (intro conjI stable_conj stable_claimed) (auto simp: claimed_def on_watch_def)

lemma claimed_bounds:
  "claimed msg w0 w \<Longrightarrow> bound mqDLQQueue mqDLQRoutingKey mqDLQExchange w"
  by (simp add: claimed_def on_watch_def at_work_def)

lemma acks_complete_claimed:
  assumes "stable sys_evolves S"
  shows "acks w0 (\<lambda>w. claimed msg w0 w \<and> S w) (complete_and_ack (mg_message_id msg) token)
    (\<lambda>w. S w \<and> message_done (mg_type msg) (mg_job_id msg) w)"
  by (rule acks_conseq [OF acks_complete [OF knows_claimed [OF assms]]]) (auto simp: claimed_def)

lemma acks_dlqThenComplete:
  assumes route: "amqp_route route"
  shows "acks w0 (claimed msg w0) (dlqThenComplete route msg a token) (processed_reason msg a w0)"
  unfolding dlqThenComplete_def
proof (rule acks_bind [OF sys.triple_publish_dlq [OF route stable_claimed claimed_bounds]], assumption)
  fix p :: "go_error option"
  let ?sent = "dlq_sent (mg_job_id msg) (mg_message_id msg) a"
  show "acks w0 (\<lambda>w. claimed msg w0 w \<and> (p = None \<longrightarrow> ?sent w) \<and> (\<forall>e. p = Some e \<longrightarrow> driver_error e))
     (case p of Some e \<Rightarrow> State_Monad.return (OutcomeNackRequeue, Some e)
        | None \<Rightarrow> complete_and_ack (mg_message_id msg) token) (processed_reason msg a w0)"
  proof (cases p)
    case None
    show ?thesis unfolding None option.case
      by (rule acks_conseq [OF acks_complete_claimed [OF sys.stable_dlq_sent
              [of "mg_job_id msg" "mg_message_id msg" a]]])
         (auto simp: processed_reason_def)
  next
    case (Some e)
    show ?thesis unfolding Some option.case by (rule acks_return) (simp_all add: claimed_def)
  qed
qed

lemma acks_lost:
  "lost \<Longrightarrow> (\<And>w. P w \<Longrightarrow> on_watch w0 w) \<Longrightarrow> acks w0 P (finish route lost msg a token r) Q"
  unfolding finish_def by (simp only: if_True) (rule acks_return, simp_all)

lemma acks_finish:
  assumes route: "amqp_route route"
  shows "acks w0 (\<lambda>w. claimed msg w0 w \<and> promise s (request_of msg a) w0 r w)
    (finish route lost msg a token r) (processed_reason msg a w0)"
proof (cases "ack_result r")
  case True
  let ?R = "processed_reason msg a w0"
  have pre: "claimed msg w0 w \<and> promise s (request_of msg a) w0 r w \<Longrightarrow> claimed msg w0 w \<and> ?R w" for w
    using promise_reason [OF _ True] by blast
  have complete: "acks w0 (\<lambda>w. claimed msg w0 w \<and> ?R w) (complete_and_ack (mg_message_id msg) token) ?R"
    by (rule acks_conseq [OF acks_complete_claimed [OF stable_reason]]) auto
  have retry: "acks w0 (\<lambda>w. claimed msg w0 w \<and> ?R w)
      (State_Monad.bind (mark_retry_scheduled (mg_message_id msg) token) (\<lambda>r.
         State_Monad.return (case r of Some e \<Rightarrow> (OutcomeNackRequeue, Some e) | None \<Rightarrow> (OutcomeAck, None)))) ?R"
    by (rule acks_bind [OF sys.triple_mark_retry_scheduled [OF knows_claimed [OF stable_reason]]],
        rule acks_return) (auto simp: claimed_def split: option.splits)
  have "acks w0 (\<lambda>w. claimed msg w0 w \<and> ?R w) (finish route lost msg a token r) ?R"
  proof (cases lost)
    case True
    then show ?thesis by (rule acks_lost) (simp add: claimed_def)
  next
    case False
    show ?thesis
      using True complete retry
      unfolding finish_def if_not_P [OF False] by (cases r) (auto simp: ack_result_def)
  qed
  then show ?thesis by (rule acks_conseq [OF _ pre])
next
  case False
  show ?thesis
  proof (cases lost)
    case True
    then show ?thesis by (rule acks_lost) (simp add: claimed_def)
  next
    case notlost: False
    obtain e where e: "r = Some e" "\<not> errors_is e ErrRetryScheduled" "\<not> errors_is e ErrDLQScheduled"
      using False by (cases r) (auto simp: ack_result_def)
    have "acks w0 (claimed msg w0) (finish route lost msg a token r) (processed_reason msg a w0)"
      using acks_dlqThenComplete [OF route] e notlost
      by (cases "errors_is e ErrJobNotFound") (auto simp: finish_def claimed_def intro!: acks_return)
    then show ?thesis by (rule acks_conseq) auto
  qed
qed

lemma acks_process_claimed:
  assumes ok: "worker_ok s"
  shows "acks w0 (claimed msg w0) (process_claimed s lost msg a token) (processed_reason msg a w0)"
proof -
  have route: "amqp_route (wk_route s)" using ok by (simp add: worker_ok_def)
  have S: "stable sys_evolves (\<lambda>w. pm_wf w \<and> pm_names (mg_message_id msg) (mg_type msg) (mg_job_id msg) w)"
    by (rule stable_conj [OF stable_pm_wf sys.stable_pm_names])
  have "triple sys_evolves (claimed msg w0) (Process s (request_of msg a))
      (\<lambda>r w. claimed msg w0 w \<and> promise s (request_of msg a) w0 r w)"
    by (rule triple_conseq [OF triple_Process [OF ok S]]) (auto simp: claimed_def on_watch_def)
  from acks_bind [OF this acks_finish [OF route]]
  show ?thesis by (simp add: process_claimed_def request_of_def)
qed

section \<open>Every acknowledged delivery is accounted for\<close>

text \<open>
  The reason to acknowledge, by what the delivery is: what cannot be processed is in the dead-letter
  queue under the identity the consumer could read; a valid delivery is completed, postponed with the
  same attempt, conflicting and dead-lettered, or processed for one of the reasons above.
\<close>

definition ack_reason :: "delivery \<Rightarrow> world \<Rightarrow> world \<Rightarrow> bool" where
  "ack_reason d w0 w = (case dl_body d of
       MalformedBody _ \<Rightarrow> dlq_sent 0 ''invalid-id'' 0 w
     | JsonBody msg \<Rightarrow>
         (if mg_type msg \<noteq> MessageTypeQueryExecutionRequested \<or> mg_version msg \<noteq> messageVersion then
            dlq_sent (mg_job_id msg) (mg_message_id msg) 0 w
          else if mg_job_id msg = 0 then dlq_sent 0 (mg_message_id msg) 0 w
          else (case extractAttempt (dl_headers d) of
             Inl _ \<Rightarrow> dlq_sent (mg_job_id msg) (mg_message_id msg) 0 w
           | Inr a \<Rightarrow>
               message_done (mg_type msg) (mg_job_id msg) w \<or>
               retry_sent (mg_job_id msg) (mg_message_id msg) a w \<or>
               dlq_sent (mg_job_id msg) (mg_message_id msg) a w \<or>
               processed_reason msg a w0 w)))"

lemma knows_on_watch: "sys.knows_pm (on_watch w0)"
  unfolding sys.knows_pm_def by (auto simp: stable_on_watch) (simp add: on_watch_def)

lemma on_watch_bound_retry:
  "on_watch w0 w \<Longrightarrow> bound mqRetryQueue mqRetryRoutingKey mqRetryExchange w"
  by (simp add: on_watch_def at_work_def)

lemma acks_postpone:
  assumes "amqp_route route" and P: "stable sys_evolves P" and W: "\<And>w. P w \<Longrightarrow> on_watch w0 w"
  shows "acks w0 P (State_Monad.bind (publish_retry route k m a) (\<lambda>p. State_Monad.return (case p of
      Some e \<Rightarrow> (OutcomeNackRequeue, Some e) | None \<Rightarrow> (OutcomeAck, None)))) (retry_sent k m a)"
  by (rule acks_bind [OF sys.triple_publish_retry [OF assms(1,2)]], erule on_watch_bound_retry [OF W],
      rule acks_return)
     (auto split: option.splits dest: W)

lemma acks_valid:
  assumes ok: "worker_ok s"
  shows "acks w0 (on_watch w0) (handle_valid s token lost msg a)
    (\<lambda>w. message_done (mg_type msg) (mg_job_id msg) w \<or> retry_sent (mg_job_id msg) (mg_message_id msg) a w \<or>
         dlq_sent (mg_job_id msg) (mg_message_id msg) a w \<or> processed_reason msg a w0 w)"
    (is "acks w0 _ _ ?Q")
  unfolding handle_valid_def
proof (rule acks_bind [OF triple_now [where Q = "\<lambda>_. on_watch w0"]], assumption,
    rule acks_bind [OF sys.triple_claim [OF knows_on_watch]])
  have route: "amqp_route (wk_route s)" using ok by (simp add: worker_ok_def)
  fix c :: "go_error + string \<times> claim_result"
  let ?known = "\<lambda>w. on_watch w0 w \<and> (\<forall>tok cl. c = Inr (tok, cl) \<longrightarrow>
      (grants cl \<longrightarrow> tok = token \<and> pm_names (mg_message_id msg) (mg_type msg) (mg_job_id msg) w) \<and>
      (cl = ClaimAlreadyDone \<longrightarrow> message_done (mg_type msg) (mg_job_id msg) w))"
  show "acks w0 ?known (case c of
         Inl claimErr \<Rightarrow> State_Monad.return (OutcomeFatal, Some claimErr)
       | Inr (leaseToken, claimResult) \<Rightarrow>
           (case claimResult of
              ClaimAlreadyDone \<Rightarrow> State_Monad.return (OutcomeAck, None)
            | ClaimLeaseHeld \<Rightarrow> State_Monad.bind (publish_retry (wk_route s) (mg_job_id msg) (mg_message_id msg) a)
                (\<lambda>p. State_Monad.return (case p of
                    Some e \<Rightarrow> (OutcomeNackRequeue, Some e) | None \<Rightarrow> (OutcomeAck, None)))
            | ClaimConflict \<Rightarrow> dlqDirect (wk_route s) (mg_message_id msg) (mg_job_id msg) a
            | _ \<Rightarrow> process_claimed s lost msg a leaseToken)) ?Q"
  proof (cases c)
    case (Inl e)
    then show ?thesis by (simp only: sum.case) (rule acks_return, simp_all)
  next
    case (Inr p)
    obtain tok cl where c: "c = Inr (tok, cl)" using Inr by (cases p) simp
    have go: "acks w0 ?known (process_claimed s lost msg a tok) ?Q" if "grants cl"
      by (rule acks_conseq [OF acks_process_claimed [OF ok]]) (use that c in \<open>simp_all add: claimed_def\<close>)
    have postpone: "acks w0 ?known (State_Monad.bind (publish_retry (wk_route s) (mg_job_id msg) (mg_message_id msg) a)
                (\<lambda>p. State_Monad.return (case p of
                    Some e \<Rightarrow> (OutcomeNackRequeue, Some e) | None \<Rightarrow> (OutcomeAck, None)))) ?Q"
      by (rule acks_conseq [OF acks_postpone [OF route stable_on_watch [of w0]]]) simp_all
    have direct: "acks w0 ?known (dlqDirect (wk_route s) (mg_message_id msg) (mg_job_id msg) a) ?Q"
      by (rule acks_conseq [OF acks_dlqDirect [OF route stable_on_watch [of w0]]]) simp_all
    show ?thesis
    proof (cases cl)
      case ClaimAlreadyDone
      show ?thesis unfolding c ClaimAlreadyDone
        by (simp only: sum.case prod.case claim_result.case) (rule acks_return, auto)
    qed (use c go postpone direct in \<open>simp_all add: grants_def\<close>)
  qed
qed

lemma acks_handle:
  assumes ok: "worker_ok s"
  shows "acks w0 (on_watch w0) (handle s token lost d) (ack_reason d w0)"
proof -
  have route: "amqp_route (wk_route s)" using ok by (simp add: worker_ok_def)
  note direct = acks_dlqDirect [OF route stable_on_watch]
  show ?thesis
  proof (cases "dl_body d")
    case (MalformedBody x)
    then show ?thesis using direct by (simp add: handle_def ack_reason_def [abs_def])
  next
    case (JsonBody msg)
    show ?thesis
    proof (cases "mg_type msg \<noteq> MessageTypeQueryExecutionRequested \<or> mg_version msg \<noteq> messageVersion \<or>
        mg_job_id msg = 0")
      case True
      then show ?thesis using JsonBody direct by (auto simp: handle_def ack_reason_def [abs_def])
    next
      case False
      show ?thesis
      proof (cases "extractAttempt (dl_headers d)")
        case (Inl e)
        then show ?thesis using JsonBody direct False by (simp add: handle_def ack_reason_def [abs_def])
      next
        case (Inr a)
        have "handle s token lost d = handle_valid s token lost msg a"
          using False Inr JsonBody by (simp add: handle_def)
        moreover have "ack_reason d w0 = (\<lambda>w. message_done (mg_type msg) (mg_job_id msg) w \<or>
            retry_sent (mg_job_id msg) (mg_message_id msg) a w \<or>
            dlq_sent (mg_job_id msg) (mg_message_id msg) a w \<or> processed_reason msg a w0 w)"
          using False Inr JsonBody by (simp add: ack_reason_def [abs_def])
        ultimately show ?thesis using acks_valid [OF ok] by simp
      qed
    qed
  qed
qed

section \<open>A stale duplicate\<close>

text \<open>
  On an undisturbed machine: a duplicate of an old attempt, delivered after the next attempt was
  scheduled, is resumed, ignored by \<open>Process\<close> and completed.
\<close>

lemma claim_quiet_resumes:
  assumes "pm_at w m = Some row" and "pm_status row = PmRetryScheduled"
  shows "claim_tx token m (pm_message_type row) (pm_job_id row) a t w =
    (Inr (token, ClaimResumed),
     w\<lparr>w_pm := sql_update (\<lambda>r. pm_message_id r = m \<and> pm_status r = PmRetryScheduled)
        (resume_pm token (t + leaseTTL)) (w_pm w)\<rparr>)"
  using assms lookup_key [OF assms(1)]
  by (simp add: claim_tx_def sql_first_pm handleExistingRow_def Let_def)

lemma Process_stale_quiet:
  assumes "job_at (m_world m) (rq_job_id req) = Some j" and "m_script m = []"
    and "jb_status j = StatusRetrying" and "int (jb_attempt_count j) \<noteq> rq_attempt req"
  shows "run_state (Process s req) m = (None, m)"
  using assms by (simp add: Process_def job_find_by_id_def)

lemma mark_completed_quiet:
  assumes "pm_at (m_world m) k = Some row" and "pm_lease_token row = token" and "m_script m = []"
    and "pm_status row \<noteq> PmCompleted"
  shows "run_state (mark_completed k token t) m = (None, m\<lparr>m_world := (m_world m)\<lparr>w_pm :=
    sql_update (\<lambda>r. pm_message_id r = k \<and> holds_pm token r)
      (\<lambda>r. r\<lparr>pm_status := PmCompleted, pm_completed_at := Some t\<rparr>) (w_pm (m_world m))\<rparr>\<rparr>)"
proof -
  have "row \<in> set (w_pm (m_world m))" "pm_message_id row = k"
    using lookup_key [OF assms(1)] by auto
  moreover have "row\<lparr>pm_status := PmCompleted, pm_completed_at := Some t\<rparr> \<noteq> row"
    using assms(4) by (metis processed_message.select_convs(5) processed_message.surjective
        processed_message.update_convs(5,8))
  ultimately have "sql_affected (\<lambda>r. pm_message_id r = k \<and> holds_pm token r)
      (\<lambda>r. r\<lparr>pm_status := PmCompleted, pm_completed_at := Some t\<rparr>) (w_pm (m_world m)) \<noteq> 0"
    using assms(2) by (auto simp: sql_affected_def holds_pm_def filter_empty_conv)
  with assms(3) show ?thesis by (simp add: mark_completed_def update_pm_def pm_result_def)
qed

lemma handle_done_quiet:
  assumes "pm_at (m_world m) (mg_message_id msg) = Some row" and "pm_status row = PmCompleted"
    and "pm_message_type row = mg_type msg" and "pm_job_id row = mg_job_id msg" and "m_script m = []"
  shows "run_state (handle_valid s token lost msg a) m = ((OutcomeAck, None), m)"
  using assms lookup_key [OF assms(1)]
  by (simp add: handle_valid_def claim_def claim_tx_def sql_first_pm handleExistingRow_def Let_def)

lemma process_claimed_stale_quiet:
  assumes job: "job_at (m_world m) (mg_job_id msg) = Some j" "jb_status j = StatusRetrying"
      "int (jb_attempt_count j) \<noteq> a"
    and pm: "pm_at (m_world m) (mg_message_id msg) = Some row" "pm_lease_token row = token"
      "pm_status row \<noteq> PmCompleted"
    and quiet: "m_script m = []"
  shows "run_state (process_claimed s False msg a token) m = ((OutcomeAck, None),
    m\<lparr>m_world := (m_world m)\<lparr>w_pm := sql_update (\<lambda>r. pm_message_id r = mg_message_id msg \<and> holds_pm token r)
      (\<lambda>r. r\<lparr>pm_status := PmCompleted, pm_completed_at := Some (w_clock (m_world m))\<rparr>) (w_pm (m_world m))\<rparr>\<rparr>)"
  using Process_stale_quiet [where s = s and m = m and req = "request_of msg a" and j = j]
    mark_completed_quiet [OF pm(1,2) quiet pm(3)] job quiet
  by (simp add: process_claimed_def request_of_def finish_def complete_and_ack_def)

text \<open>The world after a stale duplicate was handled.\<close>

definition stranded :: "string \<Rightarrow> string \<Rightarrow> world \<Rightarrow> world" where
  "stranded m token w = w\<lparr>w_pm :=
     sql_update (\<lambda>r. pm_message_id r = m \<and> holds_pm token r)
       (\<lambda>r. r\<lparr>pm_status := PmCompleted, pm_completed_at := Some (w_clock w)\<rparr>)
       (sql_update (\<lambda>r. pm_message_id r = m \<and> pm_status r = PmRetryScheduled)
         (resume_pm token (w_clock w + leaseTTL)) (w_pm w))\<rparr>"

lemma pm_at_stranded:
  assumes "pm_at w m = Some row" and "pm_status row = PmRetryScheduled"
  shows "\<exists>row'. pm_at (stranded m token w) m = Some row' \<and> pm_status row' = PmCompleted \<and>
    pm_message_type row' = pm_message_type row \<and> pm_job_id row' = pm_job_id row"
  using assms lookup_key [OF assms(1)]
  by (simp add: stranded_def lookup_leased lookup_update [where key = pm_message_id] resume_pm_def holds_pm_def)

lemma handle_stale_quiet:
  assumes pm: "pm_at w (mg_message_id msg) = Some row" "pm_status row = PmRetryScheduled"
      "pm_message_type row = mg_type msg" "pm_job_id row = mg_job_id msg"
    and job: "job_at w (mg_job_id msg) = Some j" "jb_status j = StatusRetrying" "int (jb_attempt_count j) \<noteq> a"
  shows "run_state (handle_valid s token False msg a) (quiet w) =
    ((OutcomeAck, None), quiet (stranded (mg_message_id msg) token w))"
proof -
  let ?f = "resume_pm token (w_clock w + leaseTTL)"
  let ?m = "quiet (w\<lparr>w_pm := sql_update (\<lambda>r. pm_message_id r = mg_message_id msg \<and> pm_status r = PmRetryScheduled)
      ?f (w_pm w)\<rparr>)"
  have row: "pm_at (m_world ?m) (mg_message_id msg) = Some (?f row)"
    using pm lookup_key [OF pm(1)] by (simp add: quiet_def lookup_leased)
  have claim: "claim_tx token (mg_message_id msg) (mg_type msg) (mg_job_id msg) n (w_clock w) w =
      (Inr (token, ClaimResumed), m_world ?m)" for n
    using claim_quiet_resumes [OF pm(1,2)] pm(3,4) by (simp add: quiet_def)
  have "run_state (process_claimed s False msg a token) ?m =
      ((OutcomeAck, None), quiet (stranded (mg_message_id msg) token w))"
    using process_claimed_stale_quiet [OF _ job(2,3) row, of token s] job(1)
    by (simp add: quiet_def resume_pm_def stranded_def)
  then show ?thesis
    unfolding handle_valid_def claim_def by (simp add: claim quiet_def)
qed

section \<open>Properties\<close>

definition sample_message :: query_job_message where
  "sample_message = \<lparr>mg_message_id = ''m1'', mg_type = MessageTypeQueryExecutionRequested,
     mg_version = messageVersion, mg_occurred_at = 5, mg_job_id = 1\<rparr>"

definition sample_delivery :: delivery where
  "sample_delivery = \<lparr>dl_headers = None, dl_body = JsonBody sample_message\<rparr>"



text \<open>
  The attempt counter survives the broker exactly up to the sanity limit: what a worker
  publishes with attempt a is read back as b just when b is a (as a 32-bit integer) and between 0
  and 100; any other attempt is rejected.
\<close>

theorem attempt_header_roundtrip:
  "extractAttempt (pb_headers (buildWorkerPublishing k m a t)) = Inr b \<longleftrightarrow>
     b = int32_of a \<and> 0 \<le> int32_of a \<and> int32_of a \<le> maxSaneAttempt"
  by (auto simp: extractAttempt_def buildWorkerPublishing_def envelope_publishing_def)

text \<open>
  C20. How a job is lost: when a duplicate of an old attempt arrives after the next attempt was
  scheduled, the undisturbed handler acknowledges it and completes the message although the job is
  still retrying; from then on every delivery of the message, the valid retry included, is
  acknowledged and changes nothing.
\<close>

theorem stale_duplicate_strands_the_job:
  assumes "pm_at w (mg_message_id msg) = Some row" and "pm_status row = PmRetryScheduled"
    and "pm_message_type row = mg_type msg" and "pm_job_id row = mg_job_id msg"
    and "job_at w (mg_job_id msg) = Some j" and "jb_status j = StatusRetrying"
    and "int (jb_attempt_count j) \<noteq> a" and "extractAttempt (dl_headers d) = Inr a"
    and "mg_type msg = MessageTypeQueryExecutionRequested" and "mg_version msg = messageVersion"
    and "mg_job_id msg \<noteq> 0" and "dl_body d = JsonBody msg"
  shows "\<exists>w'. run_state (handle s token False d) (quiet w) = ((OutcomeAck, None), quiet w') \<and>
    job_at w' (mg_job_id msg) = Some j \<and>
    (\<forall>token' lost' h' b. extractAttempt h' = Inr b \<longrightarrow>
       run_state (handle s token' lost' \<lparr>dl_headers = h', dl_body = JsonBody msg\<rparr>) (quiet w') =
         ((OutcomeAck, None), quiet w'))"
proof -
  let ?w = "stranded (mg_message_id msg) token w"
  obtain row' where row': "pm_at ?w (mg_message_id msg) = Some row'" "pm_status row' = PmCompleted"
      "pm_message_type row' = mg_type msg" "pm_job_id row' = mg_job_id msg"
    using pm_at_stranded [OF assms(1,2), of token] assms(3,4) by auto
  have "run_state (handle_valid s token' lost' msg b) (quiet ?w) = ((OutcomeAck, None), quiet ?w)"
    for token' lost' b
    by (rule handle_done_quiet) (use row' in \<open>simp_all add: quiet_def\<close>)
  moreover have "job_at ?w (mg_job_id msg) = Some j" using assms(5) by (simp add: stranded_def)
  ultimately show ?thesis
    using handle_stale_quiet [OF assms(1-7), of s token] assms(8-12)
    by (intro exI [of _ ?w]) (simp add: handle_def)
qed

text \<open>The state after one failed attempt, whose delivery was not acknowledged in time.\<close>

definition retrying_world :: world where
  "retrying_world = ready_world\<lparr>
     w_jobs := map (\<lambda>j. j\<lparr>jb_status := StatusRetrying, jb_attempt_count := 1\<rparr>) (w_jobs ready_world),
     w_pm := [\<lparr>pm_message_id = ''m1'', pm_message_type = MessageTypeQueryExecutionRequested, pm_job_id = 1,
       pm_attempt = 0, pm_status = PmRetryScheduled, pm_lease_token = ''lease-0'', pm_lease_expires_at = 36,
       pm_completed_at = None\<rparr>]\<rparr>"

theorem stale_duplicate_strands_the_job_witness:
  "\<exists>w' j. run_state (handle sample_worker ''lease-1'' False sample_delivery) (quiet retrying_world) =
      ((OutcomeAck, None), quiet w') \<and> job_at w' 1 = Some j \<and> jb_status j = StatusRetrying \<and>
    run_state (handle sample_worker ''lease-2'' False
      \<lparr>dl_headers = Some [(HeaderAttempt, AmqpInt32 1)], dl_body = JsonBody sample_message\<rparr>) (quiet w') =
      ((OutcomeAck, None), quiet w')"
proof -
  let ?j = "sample_job\<lparr>jb_id := 1, jb_status := StatusRetrying, jb_updated_at := 6, jb_attempt_count := 1\<rparr>"
  let ?row = "\<lparr>pm_message_id = ''m1'', pm_message_type = MessageTypeQueryExecutionRequested, pm_job_id = 1,
       pm_attempt = 0, pm_status = PmRetryScheduled, pm_lease_token = ''lease-0'', pm_lease_expires_at = 36,
       pm_completed_at = None\<rparr>"
  have job: "job_at retrying_world 1 = Some ?j" by code_simp
  have h: "extractAttempt (dl_headers sample_delivery) = Inr 0"
      "extractAttempt (Some [(HeaderAttempt, AmqpInt32 1)]) = Inr 1"
    by code_simp+
  have "pm_at retrying_world (mg_message_id sample_message) = Some ?row"
    by (simp add: retrying_world_def sample_message_def)
  from stale_duplicate_strands_the_job [OF this, where j = "?j" and a = 0 and d = sample_delivery
      and s = sample_worker and token = "''lease-1''"] job h
  show ?thesis by (fastforce simp: sample_message_def sample_delivery_def)
qed

end
