(* ===== verification/Sql_Ast.thy ===== *)
theory Sql_Ast
  imports Go_Strings
begin

text \<open>
  The syntax trees the SQL guard walks: the node types of the TiDB parser (package ast, not under
  src/) that internal/sqlguard tells apart, with the fields it reads and, besides, those it holds
  expressions in without reading them (limits, window specifications, value lists, the tail of a set
  operation). Any other expression or clause node is \<open>OtherExpr\<close> with its children in visiting order.
  Names are the lower-case \<open>.L\<close> forms; a \<open>nil\<close> field is \<open>None\<close>.
\<close>

section \<open>Nodes\<close>

text \<open>What \<open>ValueExpr.GetValue\<close> holds: a \<open>uint64\<close>, an \<open>int64\<close> or anything else.\<close>

datatype literal = UintLit nat | IntLit int | OtherLit string

datatype lock_type = SelectLockNone | SelectLock string

datatype
  expr =
    ValueExpr literal
  | VariableExpr
  | ParamMarkerExpr
  | FuncCallExpr string "expr list"
  | AggregateFuncExpr string "expr list"
  | WindowFuncExpr "expr list"
  | SubqueryExpr "node option"
  | OtherExpr string "expr list"
and
  node =
    SelectNode select
  | SetOprNode set_opr
  | JoinNode "node option" "node option" "expr option"
  | TableSource node
  | TableName string string
  | OtherNode string
and
  limit = Limit (lim_count: "expr option") (lim_offset: "expr option")
and
  select = Select (sel_into: bool) (sel_lock: "lock_type option") (sel_with: "with_clause option")
    (sel_from: "node option") (sel_fields: "expr option") (sel_where: "expr option")
    (sel_group_by: "expr option") (sel_having: "expr option") (sel_order_by: "expr option")
    (sel_limit: "limit option") (sel_window_specs: "expr list") (sel_lists: "expr list")
and
  set_opr = SetOpr (so_with: "with_clause option") (so_list: "select_list option")
    (so_order_by: "expr option") (so_limit: "limit option")
and
  select_list = SelectList (sl_with: "with_clause option") (sl_selects: "branch list")
and
  branch = SelectBranch select | ListBranch select_list | OtherBranch string
and
  with_clause = WithClause (wi_recursive: bool) (wi_ctes: "cte list")
and
  cte = Cte (cte_name: string) (cte_recursive: bool) (cte_query: "node option option")

datatype stmt = SelectStmt select | SetOprStmt set_opr | OtherStmt string

section \<open>What a query mentions\<close>

text \<open>
  The items a query mentions in the places the guard looks at: tables with their qualifier,
  functions, forbidden expressions, clauses and constructs, and the names its WITH clauses declare.
\<close>

datatype item =
    TableRef string string
  | FunctionRef string
  | CteName string
  | Forbidden string

definition opt_items :: "item list option \<Rightarrow> item list" where
  "opt_items x = (case x of None \<Rightarrow> [] | Some is \<Rightarrow> is)"

lemma opt_items_simps [simp]: "opt_items None = []" "opt_items (Some is) = is"
  by (simp_all add: opt_items_def)

primrec
  expr_items :: "(string \<Rightarrow> string) \<Rightarrow> expr \<Rightarrow> item list" and
  node_items :: "(string \<Rightarrow> string) \<Rightarrow> node \<Rightarrow> item list" and
  select_items :: "(string \<Rightarrow> string) \<Rightarrow> select \<Rightarrow> item list" and
  set_opr_items :: "(string \<Rightarrow> string) \<Rightarrow> set_opr \<Rightarrow> item list" and
  select_list_items :: "(string \<Rightarrow> string) \<Rightarrow> select_list \<Rightarrow> item list" and
  branch_items :: "(string \<Rightarrow> string) \<Rightarrow> branch \<Rightarrow> item list" and
  with_items :: "(string \<Rightarrow> string) \<Rightarrow> with_clause \<Rightarrow> item list" and
  cte_items :: "(string \<Rightarrow> string) \<Rightarrow> cte \<Rightarrow> item list"
where
  "expr_items low (ValueExpr l) = []"
| "expr_items low VariableExpr = [Forbidden ''variable'']"
| "expr_items low ParamMarkerExpr = [Forbidden ''parameter'']"
| "expr_items low (FuncCallExpr f es) = FunctionRef f # concat (map (expr_items low) es)"
| "expr_items low (AggregateFuncExpr f es) = FunctionRef (low f) # concat (map (expr_items low) es)"
| "expr_items low (WindowFuncExpr es) = Forbidden ''window function'' # concat (map (expr_items low) es)"
| "expr_items low (SubqueryExpr q) = opt_items (map_option (node_items low) q)"
| "expr_items low (OtherExpr k es) = concat (map (expr_items low) es)"
| "node_items low (SelectNode s) = select_items low s"
| "node_items low (SetOprNode s) = set_opr_items low s"
| "node_items low (JoinNode l r c) = opt_items (map_option (node_items low) l) @
     opt_items (map_option (node_items low) r) @ opt_items (map_option (expr_items low) c)"
| "node_items low (TableSource n) = node_items low n"
| "node_items low (TableName s n) = [TableRef s n]"
| "node_items low (OtherNode k) = [Forbidden k]"
| "select_items low (Select into lk wi fr fl wh gb hv ob lim ws ls) =
     (if into then [Forbidden ''INTO''] else []) @
     (if lk = None \<or> lk = Some SelectLockNone then [] else [Forbidden ''lock'']) @
     opt_items (map_option (with_items low) wi) @ opt_items (map_option (node_items low) fr) @
     opt_items (map_option (expr_items low) fl) @ opt_items (map_option (expr_items low) wh) @
     opt_items (map_option (expr_items low) gb) @ opt_items (map_option (expr_items low) hv) @
     opt_items (map_option (expr_items low) ob)"
| "set_opr_items low (SetOpr wi sl ob lim) = opt_items (map_option (with_items low) wi) @
     opt_items (map_option (select_list_items low) sl)"
| "select_list_items low (SelectList wi bs) = opt_items (map_option (with_items low) wi) @
     concat (map (branch_items low) bs)"
| "branch_items low (SelectBranch s) = select_items low s"
| "branch_items low (ListBranch l) = select_list_items low l"
| "branch_items low (OtherBranch k) = [Forbidden k]"
| "with_items low (WithClause recursive ctes) =
     (if recursive then [Forbidden ''WITH RECURSIVE''] else []) @ concat (map (cte_items low) ctes)"
| "cte_items low (Cte nm rc q) = CteName nm # (if rc then [Forbidden ''WITH RECURSIVE''] else []) @
     opt_items (map_option opt_items (map_option (map_option (node_items low)) q))"

fun stmt_items :: "(string \<Rightarrow> string) \<Rightarrow> stmt \<Rightarrow> item list" where
  "stmt_items low (SelectStmt s) = select_items low s"
| "stmt_items low (SetOprStmt s) = set_opr_items low s"
| "stmt_items low (OtherStmt k) = [Forbidden k]"

end
