(* ===== verification/Sql_Guard.thy ===== *)
theory Sql_Guard
  imports Sql_Ast Result_Store "HOL-Library.List_Lexorder" "HOL-Library.Char_ord"
begin

text \<open>
  The SQL guard (internal/sqlguard): \<open>validator.go\<close> and \<open>visitor.go\<close> check the tree of a statement
  against the allowlists, \<open>rewrite.go\<close> bounds its outermost LIMIT, \<open>guard.go\<close> and \<open>parse.go\<close> put the
  steps together. The parser and the printer of the parser library are arguments of \<open>Validate\<close>. The
  tables seen so far are threaded through the checks as the code's map is mutated along the walk.
\<close>

section \<open>Rules\<close>

definition allowedFunctions :: "string list" where
  "allowedFunctions = [
     ''count'', ''sum'', ''avg'', ''min'', ''max'',
     ''abs'', ''round'', ''ceil'', ''ceiling'', ''floor'', ''mod'', ''greatest'', ''least'',
     ''coalesce'', ''ifnull'', ''nullif'', ''if'',
     ''length'', ''char_length'', ''character_length'', ''lower'', ''upper'', ''trim'', ''ltrim'', ''rtrim'',
     ''concat'', ''concat_ws'', ''substring'', ''substr'', ''left'', ''right'', ''replace'',
     ''year'', ''month'', ''day'', ''hour'', ''minute'', ''second'', ''date'', ''date_format'']"

text \<open>\<open>vd_lower\<close> is \<open>strings.ToLower\<close> on names outside ASCII.\<close>

record validator =
  vd_tables :: "string list"
  vd_schemas :: "string list"
  vd_lower :: "string \<Rightarrow> string"

definition newValidator :: "(string \<Rightarrow> string) \<Rightarrow> string \<Rightarrow> string list \<Rightarrow> validator" where
  "newValidator uni allowedDatabase allowedTables =
     \<lparr>vd_tables = map (to_lower uni) allowedTables,
      vd_schemas = (if allowedDatabase \<noteq> [] then [to_lower uni allowedDatabase] else []),
      vd_lower = uni\<rparr>"

text \<open>
  A check reads the validator and the CTE names in scope and extends the list of seen tables, or
  rejects with a reason. A WITH clause also yields the scope of what follows it.
\<close>

type_synonym check = "validator \<Rightarrow> string list \<Rightarrow> string list \<Rightarrow> string + string list"
type_synonym scoping = "validator \<Rightarrow> string list \<Rightarrow> string list \<Rightarrow> string + string list \<times> string list"

definition accept :: check where
  "accept v scope seen = Inr seen"

definition refuse_node :: "string \<Rightarrow> check" where
  "refuse_node reason v scope seen = Inl reason"

definition and_also :: "check \<Rightarrow> check \<Rightarrow> check" where
  "and_also c d v scope seen = (case c v scope seen of Inl e \<Rightarrow> Inl e | Inr seen' \<Rightarrow> d v scope seen')"

definition all_of :: "check list \<Rightarrow> check" where
  "all_of cs = foldr and_also cs accept"

definition if_any :: "check option \<Rightarrow> check" where
  "if_any c = (case c of None \<Rightarrow> accept | Some f \<Rightarrow> f)"

definition under :: "scoping option \<Rightarrow> check \<Rightarrow> check" where
  "under w c v scope seen = (case w of
       None \<Rightarrow> c v scope seen
     | Some f \<Rightarrow> (case f v scope seen of Inl e \<Rightarrow> Inl e | Inr (scope', seen') \<Rightarrow> c v scope' seen'))"

definition function_check :: "(validator \<Rightarrow> string) \<Rightarrow> check \<Rightarrow> check" where
  "function_check name c v scope seen =
     (if name v \<notin> set allowedFunctions then Inl ''function is not allowed'' else c v scope seen)"

definition checkTableName :: "string \<Rightarrow> string \<Rightarrow> check" where
  "checkTableName schema name v scope seen =
     (if schema = [] then
        (if name \<in> set scope then Inr seen
         else if name \<in> set (vd_tables v) then Inr (List.insert name seen)
         else Inl ''table is not allowed'')
      else if schema \<notin> set (vd_schemas v) then Inl ''database is not allowed''
      else if name \<notin> set (vd_tables v) then Inl ''table is not allowed''
      else Inr (List.insert name seen))"

text \<open>The first loop of \<open>checkWith\<close>: the names a WITH clause brings into scope.\<close>

fun declare_ctes :: "validator \<Rightarrow> (string \<times> bool) list \<Rightarrow> string list \<Rightarrow> string + string list" where
  "declare_ctes v [] scope = Inr scope"
| "declare_ctes v ((name, recursive) # ctes) scope =
     (if name \<in> set (vd_tables v) then Inl ''CTE name shadows a physical table''
      else if recursive then Inl ''WITH RECURSIVE is not allowed''
      else declare_ctes v ctes (name # scope))"

definition with_scope :: "bool \<Rightarrow> (string \<times> bool) list \<Rightarrow> check \<Rightarrow> scoping" where
  "with_scope recursive ctes bodies v parentScope seen =
     (if recursive then Inl ''WITH RECURSIVE is not allowed''
      else case declare_ctes v ctes parentScope of
          Inl e \<Rightarrow> Inl e
        | Inr childScope \<Rightarrow>
            (case bodies v childScope seen of Inl e \<Rightarrow> Inl e | Inr seen' \<Rightarrow> Inr (childScope, seen')))"

section \<open>The walk\<close>

text \<open>
  A node is checked by \<open>checkResultSet\<close>, by \<open>checkJoinNode\<close> or as the source of a table source; the
  three type switches differ in the node types they take, which is the \<open>position\<close> argument.
\<close>

datatype position = AsResultSet | InFrom | AsSource

definition unsupported :: "position \<Rightarrow> string" where
  "unsupported p = (case p of AsResultSet \<Rightarrow> ''unsupported query construct''
     | InFrom \<Rightarrow> ''unsupported table reference'' | AsSource \<Rightarrow> ''unsupported table source'')"

primrec
  checkExpr :: "expr \<Rightarrow> check" and
  checkNode :: "node \<Rightarrow> position \<Rightarrow> check" and
  checkSelect :: "select \<Rightarrow> check" and
  checkSetOpr :: "set_opr \<Rightarrow> check" and
  checkSetOprSelectList :: "select_list \<Rightarrow> check" and
  checkBranch :: "branch \<Rightarrow> check" and
  checkWith :: "with_clause \<Rightarrow> scoping" and
  checkCte :: "cte \<Rightarrow> check"
where
  "checkExpr (ValueExpr l) = accept"
| "checkExpr VariableExpr = refuse_node ''variables are not allowed''"
| "checkExpr ParamMarkerExpr = refuse_node ''parameter markers are not allowed''"
| "checkExpr (FuncCallExpr f es) = function_check (\<lambda>v. f) (all_of (map checkExpr es))"
| "checkExpr (AggregateFuncExpr f es) =
     function_check (\<lambda>v. to_lower (vd_lower v) f) (all_of (map checkExpr es))"
| "checkExpr (WindowFuncExpr es) = refuse_node ''window functions are not allowed''"
| "checkExpr (SubqueryExpr q) = if_any (map_option (\<lambda>n. checkNode n AsResultSet) q)"
| "checkExpr (OtherExpr k es) = all_of (map checkExpr es)"
| "checkNode (SelectNode s) p = checkSelect s"
| "checkNode (SetOprNode s) p = checkSetOpr s"
| "checkNode (JoinNode l r c) p = all_of [if_any (map_option (\<lambda>n. checkNode n InFrom) l),
     if_any (map_option (\<lambda>n. checkNode n InFrom) r), if_any (map_option checkExpr c)]"
| "checkNode (TableSource n) p = (if p = AsSource then refuse_node (unsupported p) else checkNode n AsSource)"
| "checkNode (TableName s n) p = (if p = AsResultSet then refuse_node (unsupported p) else checkTableName s n)"
| "checkNode (OtherNode k) p = refuse_node (unsupported p)"
| "checkSelect (Select into lk wi fr fl wh gb hv ob lim ws ls) =
     (if into then refuse_node ''SELECT ... INTO is not allowed''
      else if lk \<noteq> None \<and> lk \<noteq> Some SelectLockNone then refuse_node ''row locking clauses are not allowed''
      else under (map_option checkWith wi)
        (all_of [if_any (map_option (\<lambda>n. checkNode n InFrom) fr),
           if_any (map_option checkExpr fl), if_any (map_option checkExpr wh), if_any (map_option checkExpr gb),
           if_any (map_option checkExpr hv), if_any (map_option checkExpr ob)]))"
| "checkSetOpr (SetOpr wi sl ob lim) = under (map_option checkWith wi)
     (case map_option checkSetOprSelectList sl of
        None \<Rightarrow> refuse_node ''empty set operation'' | Some c \<Rightarrow> c)"
| "checkSetOprSelectList (SelectList wi bs) =
     under (map_option checkWith wi) (all_of (map checkBranch bs))"
| "checkBranch (SelectBranch s) = checkSelect s"
| "checkBranch (ListBranch l) = checkSetOprSelectList l"
| "checkBranch (OtherBranch k) = refuse_node ''unsupported set operation branch''"
| "checkWith (WithClause recursive ctes) =
     with_scope recursive (map (\<lambda>c. (cte_name c, cte_recursive c)) ctes) (all_of (map checkCte ctes))"
| "checkCte (Cte nm rc q) = (case map_option (map_option (\<lambda>n. checkNode n AsResultSet)) q of
     Some (Some c) \<Rightarrow> c | _ \<Rightarrow> refuse_node ''invalid CTE definition'')"

definition check_stmt :: "stmt \<Rightarrow> check" where
  "check_stmt s = (case s of
       SelectStmt sel \<Rightarrow> checkSelect sel
     | SetOprStmt so \<Rightarrow> checkSetOpr so
     | OtherStmt k \<Rightarrow> refuse_node ''only SELECT statements are allowed'')"

text \<open>\<open>tableList\<close>: the distinct tables, sorted as byte strings.\<close>

definition tableList :: "string list \<Rightarrow> string list" where
  "tableList seen = sort seen"

section \<open>The outermost LIMIT\<close>

definition literalUint :: "expr \<Rightarrow> nat option" where
  "literalUint e = (case e of
       ValueExpr (UintLit n) \<Rightarrow> Some n
     | ValueExpr (IntLit i) \<Rightarrow> (if i < 0 then None else Some (nat i))
     | _ \<Rightarrow> None)"

definition newLimit :: "int \<Rightarrow> limit" where
  "newLimit count = Limit (Some (ValueExpr (UintLit (nat count)))) None"

fun outermost_limit :: "stmt \<Rightarrow> string + limit option" where
  "outermost_limit (SelectStmt s) = Inr (sel_limit s)"
| "outermost_limit (SetOprStmt s) = Inr (so_limit s)"
| "outermost_limit (OtherStmt k) = Inl ''unsupported statement for LIMIT rewrite''"

fun put_limit :: "limit option \<Rightarrow> stmt \<Rightarrow> stmt" where
  "put_limit l (SelectStmt (Select into lk wi fr fl wh gb hv ob lim ws ls)) =
     SelectStmt (Select into lk wi fr fl wh gb hv ob l ws ls)"
| "put_limit l (SetOprStmt (SetOpr wi sl ob lim)) = SetOprStmt (SetOpr wi sl ob l)"
| "put_limit l (OtherStmt k) = OtherStmt k"

definition offset_ok :: "expr option \<Rightarrow> int \<Rightarrow> string option" where
  "offset_ok offset maxRows = (case offset of
       None \<Rightarrow> None
     | Some e \<Rightarrow> (case literalUint e of
           None \<Rightarrow> Some ''unsupported LIMIT offset expression''
         | Some n \<Rightarrow> (if maxRows < int n then Some ''LIMIT offset exceeds the maximum'' else None)))"

definition rewriteLimit :: "stmt \<Rightarrow> int \<Rightarrow> string + int \<times> stmt" where
  "rewriteLimit s maxRows = (case outermost_limit s of
       Inl e \<Rightarrow> Inl e
     | Inr None \<Rightarrow> Inr (maxRows, put_limit (Some (newLimit maxRows)) s)
     | Inr (Some (Limit count offset)) \<Rightarrow> (case offset_ok offset maxRows of
           Some e \<Rightarrow> Inl e
         | None \<Rightarrow> (case count of
               None \<Rightarrow> Inl ''unsupported LIMIT expression''
             | Some c \<Rightarrow> (case literalUint c of
                   None \<Rightarrow> Inl ''unsupported LIMIT count expression''
                 | Some n \<Rightarrow>
                     (if maxRows < int n
                      then Inr (maxRows, put_limit (Some (Limit (Some (ValueExpr (UintLit (nat maxRows)))) offset)) s)
                      else Inr (int n, s))))))"

definition verifyOutermostLimit :: "stmt \<Rightarrow> int \<Rightarrow> string option" where
  "verifyOutermostLimit s maxRows = (case outermost_limit s of
       Inl e \<Rightarrow> Some e
     | Inr (Some (Limit (Some c) offset)) \<Rightarrow> (case literalUint c of
           None \<Rightarrow> Some ''normalized SQL has a non-literal LIMIT''
         | Some n \<Rightarrow> (if n = 0 \<or> maxRows < int n then Some ''normalized SQL LIMIT is out of range'' else None))
     | Inr _ \<Rightarrow> Some ''normalized SQL is missing a LIMIT'')"

section \<open>Validate\<close>

text \<open>The parser library: parsing may fail or yield any number of statements; printing may fail.\<close>

record parser =
  ps_parse :: "string \<Rightarrow> stmt list option"
  ps_restore :: "stmt \<Rightarrow> string option"
  ps_lower :: "string \<Rightarrow> string"

definition rejected :: "string \<Rightarrow> go_error" where
  "rejected why = Wrap '''' (Sentinel ErrRejected) ('': '' @ why)"

definition parseSingle :: "parser \<Rightarrow> string \<Rightarrow> go_error + stmt" where
  "parseSingle p sql =
     (if trim_space sql = [] then Inl (rejected ''empty statement'')
      else case ps_parse p sql of
          None \<Rightarrow> Inl (rejected ''parse error'')
        | Some [OtherStmt k] \<Rightarrow> Inl (rejected ''root node is not a SELECT'')
        | Some [s] \<Rightarrow> Inr s
        | Some stmts \<Rightarrow> Inl (rejected (''expected exactly one statement, got '' @ format_uint (length stmts))))"

definition restoreSQL :: "parser \<Rightarrow> stmt \<Rightarrow> go_error + string" where
  "restoreSQL p s = (case ps_restore p s of None \<Rightarrow> Inl (rejected ''restore failed'') | Some sql \<Rightarrow> Inr sql)"

definition statementType :: "stmt \<Rightarrow> string" where
  "statementType s = (case s of SetOprStmt _ \<Rightarrow> ''UNION'' | _ \<Rightarrow> ''SELECT'')"

text \<open>The second pass over the printed statement.\<close>

definition recheck :: "parser \<Rightarrow> validate_input \<Rightarrow> string \<Rightarrow> go_error option" where
  "recheck p input normalized = (case parseSingle p normalized of
       Inl e \<Rightarrow> Some e
     | Inr s \<Rightarrow> (case check_stmt s (newValidator (ps_lower p) (vi_allowed_database input) (vi_allowed_tables input)) [] [] of
           Inl why \<Rightarrow> Some (GuardError why)
         | Inr _ \<Rightarrow> map_option GuardError (verifyOutermostLimit s (vi_max_rows input))))"

definition Validate :: "parser \<Rightarrow> go_error option \<Rightarrow> validate_input \<Rightarrow> go_error + validate_result" where
  "Validate p ctx_err input = (case ctx_err of
       Some e \<Rightarrow> Inl e
     | None \<Rightarrow>
       (if vi_max_rows input \<le> 0 then Inl (rejected ''invalid MaxRows'')
        else case parseSingle p (vi_sql input) of
          Inl e \<Rightarrow> Inl e
        | Inr s \<Rightarrow>
          (case check_stmt s (newValidator (ps_lower p) (vi_allowed_database input) (vi_allowed_tables input)) [] [] of
             Inl why \<Rightarrow> Inl (GuardError why)
           | Inr seen \<Rightarrow>
             (case rewriteLimit s (vi_max_rows input) of
                Inl why \<Rightarrow> Inl (GuardError why)
              | Inr (limit, s') \<Rightarrow>
                (case restoreSQL p s' of
                   Inl e \<Rightarrow> Inl e
                 | Inr normalized \<Rightarrow>
                   (case recheck p input normalized of
                      Some e \<Rightarrow> Inl e
                    | None \<Rightarrow> Inr \<lparr>vr_normalized_sql = normalized, vr_statement_type = statementType s,
                        vr_tables = tableList seen, vr_limit = limit\<rparr>))))))"

end
