(* ===== verification/Sql_Guard_Sound.thy ===== *)
theory Sql_Guard_Sound
  imports Sql_Guard
begin

text \<open>
  What the guard guarantees. A checker is \<open>sound\<close> for a list of items (theory Sql_Ast) when, if it
  accepts, every item is allowed and the seen tables grow by exactly the physical tables mentioned;
  soundness is closed under the combinators of the walk, so it holds of every check by induction on
  the tree. The properties are about \<open>Validate\<close>.
\<close>

section \<open>Soundness of a check\<close>

definition cte_names :: "item list \<Rightarrow> string set" where
  "cte_names is = {n. CteName n \<in> set is}"

definition physical :: "validator \<Rightarrow> item list \<Rightarrow> string set" where
  "physical v is = {n \<in> set (vd_tables v). \<exists>s. TableRef s n \<in> set is}"

fun item_ok :: "validator \<Rightarrow> string set \<Rightarrow> item \<Rightarrow> bool" where
  "item_ok v names (TableRef s n) =
     (if s = [] then n \<in> names \<or> n \<in> set (vd_tables v) else s \<in> set (vd_schemas v) \<and> n \<in> set (vd_tables v))"
| "item_ok v names (FunctionRef f) = (f \<in> set allowedFunctions)"
| "item_ok v names (CteName n) = (n \<notin> set (vd_tables v))"
| "item_ok v names (Forbidden k) = False"

definition items_ok :: "validator \<Rightarrow> string set \<Rightarrow> item list \<Rightarrow> bool" where
  "items_ok v names is = (\<forall>i \<in> set is. item_ok v (names \<union> cte_names is) i)"

abbreviation lowered :: "validator \<Rightarrow> string \<Rightarrow> string" where
  "lowered v \<equiv> to_lower (vd_lower v)"

definition grown :: "validator \<Rightarrow> item list \<Rightarrow> string list \<Rightarrow> string list \<Rightarrow> bool" where
  "grown v is seen seen' = (set seen' = set seen \<union> physical v is \<and> (distinct seen \<longrightarrow> distinct seen'))"

definition sound :: "check \<Rightarrow> ((string \<Rightarrow> string) \<Rightarrow> item list) \<Rightarrow> bool" where
  "sound c is = (\<forall>v scope seen seen'. set scope \<inter> set (vd_tables v) = {} \<longrightarrow> c v scope seen = Inr seen' \<longrightarrow>
     items_ok v (set scope) (is (lowered v)) \<and> grown v (is (lowered v)) seen seen')"

definition sound_scoping :: "scoping \<Rightarrow> ((string \<Rightarrow> string) \<Rightarrow> item list) \<Rightarrow> bool" where
  "sound_scoping w is = (\<forall>v scope seen scope' seen'. set scope \<inter> set (vd_tables v) = {} \<longrightarrow>
     w v scope seen = Inr (scope', seen') \<longrightarrow>
     items_ok v (set scope) (is (lowered v)) \<and> grown v (is (lowered v)) seen seen' \<and>
     set scope' \<inter> set (vd_tables v) = {} \<and> set scope' \<subseteq> set scope \<union> cte_names (is (lowered v)))"

lemma soundI:
  "(\<And>v scope seen seen'. set scope \<inter> set (vd_tables v) = {} \<Longrightarrow> c v scope seen = Inr seen' \<Longrightarrow>
     items_ok v (set scope) (is (lowered v)) \<and> grown v (is (lowered v)) seen seen') \<Longrightarrow> sound c is"
  by (simp add: sound_def)

lemma soundD:
  "sound c is \<Longrightarrow> set scope \<inter> set (vd_tables v) = {} \<Longrightarrow> c v scope seen = Inr seen' \<Longrightarrow>
     items_ok v (set scope) (is (lowered v)) \<and> grown v (is (lowered v)) seen seen'"
  by (simp add: sound_def)

section \<open>Items of a sequence\<close>

lemma cte_names_simps [simp]: "cte_names [] = {}" "cte_names (xs @ ys) = cte_names xs \<union> cte_names ys"
    "cte_names (CteName n # xs) = insert n (cte_names xs)" "cte_names (TableRef s t # xs) = cte_names xs"
    "cte_names (FunctionRef f # xs) = cte_names xs" "cte_names (Forbidden k # xs) = cte_names xs"
  by (auto simp: cte_names_def)

lemma physical_simps [simp]: "physical v [] = {}" "physical v (xs @ ys) = physical v xs \<union> physical v ys"
    "physical v (CteName n # xs) = physical v xs" "physical v (FunctionRef f # xs) = physical v xs"
    "physical v (Forbidden k # xs) = physical v xs"
  by (auto simp: physical_def)

lemma item_ok_mono: "item_ok v names i \<Longrightarrow> names \<subseteq> names' \<Longrightarrow> item_ok v names' i"
  by (cases i) (auto split: if_splits)

lemma items_ok_mono: "items_ok v names is \<Longrightarrow> names \<subseteq> names' \<Longrightarrow> items_ok v names' is"
  unfolding items_ok_def by (blast intro: item_ok_mono)

lemma items_ok_append:
  assumes "items_ok v names xs" and "items_ok v (names \<union> cte_names xs) ys"
  shows "items_ok v names (xs @ ys)"
  using assms item_ok_mono unfolding items_ok_def cte_names_simps set_append
  by (metis (no_types, lifting) Un_assoc Un_iff Un_upper1)

lemma items_ok_Nil [simp]: "items_ok v names []"
  by (simp add: items_ok_def)

lemma grown_Nil [simp]: "grown v [] seen seen"
  by (simp add: grown_def)

lemma grown_append: "grown v xs s1 s2 \<Longrightarrow> grown v ys s2 s3 \<Longrightarrow> grown v (xs @ ys) s1 s3"
  by (auto simp: grown_def)

section \<open>The combinators\<close>

lemma sound_accept: "sound accept (\<lambda>low. [])"
  by (rule soundI) (simp add: accept_def)

lemma sound_refuse: "sound (refuse_node why) is"
  by (rule soundI) (simp add: refuse_node_def)

lemma sound_and_also:
  assumes "sound c is" and "sound d js"
  shows "sound (and_also c d) (\<lambda>low. is low @ js low)"
proof (rule soundI)
  fix v scope seen seen'
  assume fresh: "set scope \<inter> set (vd_tables v) = {}" and run: "and_also c d v scope seen = Inr seen'"
  obtain mid where mid: "c v scope seen = Inr mid" "d v scope mid = Inr seen'"
    using run by (auto simp: and_also_def split: sum.splits)
  have c: "items_ok v (set scope) (is (lowered v))" "grown v (is (lowered v)) seen mid"
    using soundD [OF assms(1) fresh mid(1)] by auto
  have d: "items_ok v (set scope) (js (lowered v))" "grown v (js (lowered v)) mid seen'"
    using soundD [OF assms(2) fresh mid(2)] by auto
  have "items_ok v (set scope \<union> cte_names (is (lowered v))) (js (lowered v))"
    by (rule items_ok_mono [OF d(1)]) simp
  then show "items_ok v (set scope) (is (lowered v) @ js (lowered v)) \<and>
      grown v (is (lowered v) @ js (lowered v)) seen seen'"
    using items_ok_append [OF c(1)] grown_append [OF c(2) d(2)] by simp
qed

lemma all_of_simps [simp]: "all_of [] = accept" "all_of (c # cs) = and_also c (all_of cs)"
  by (simp_all add: all_of_def)

lemma sound_all_of:
  "(\<And>x. x \<in> set xs \<Longrightarrow> sound (f x) (\<lambda>low. g low x)) \<Longrightarrow>
     sound (all_of (map f xs)) (\<lambda>low. concat (map (g low) xs))"
proof (induction xs)
  case Nil
  show ?case using sound_accept by simp
next
  case (Cons x xs)
  then show ?case using sound_and_also [of "f x" "\<lambda>low. g low x"] by simp
qed

lemma sound_if_any:
  "(\<And>x. x \<in> set_option p \<Longrightarrow> sound (f x) (\<lambda>low. g low x)) \<Longrightarrow>
     sound (if_any (map_option f p)) (\<lambda>low. opt_items (map_option (g low) p))"
  by (cases p) (simp_all add: if_any_def sound_accept)

lemma sound_function:
  assumes "sound c is"
  shows "sound (function_check (\<lambda>v. h (lowered v)) c) (\<lambda>low. FunctionRef (h low) # is low)"
proof (rule soundI)
  fix v scope seen seen'
  assume fresh: "set scope \<inter> set (vd_tables v) = {}"
    and run: "function_check (\<lambda>v. h (lowered v)) c v scope seen = Inr seen'"
  then have "h (lowered v) \<in> set allowedFunctions" "c v scope seen = Inr seen'"
    by (auto simp: function_check_def split: if_splits)
  with soundD [OF assms fresh this(2)]
  show "items_ok v (set scope) (FunctionRef (h (lowered v)) # is (lowered v)) \<and>
      grown v (FunctionRef (h (lowered v)) # is (lowered v)) seen seen'"
    by (auto simp: items_ok_def grown_def)
qed

lemma sound_table: "sound (checkTableName s n) (\<lambda>low. [TableRef s n])"
proof (rule soundI)
  fix v scope seen seen'
  assume "set scope \<inter> set (vd_tables v) = {}" and "checkTableName s n v scope seen = Inr seen'"
  then show "items_ok v (set scope) [TableRef s n] \<and> grown v [TableRef s n] seen seen'"
    by (auto simp: checkTableName_def items_ok_def grown_def physical_def cte_names_def split: if_splits)
qed

lemma sound_under:
  assumes w: "\<And>x. x \<in> set_option wi \<Longrightarrow> sound_scoping (f x) (\<lambda>low. g low x)" and c: "sound c is"
  shows "sound (under (map_option f wi) c) (\<lambda>low. opt_items (map_option (g low) wi) @ is low)"
proof (cases wi)
  case None
  with c show ?thesis by (simp add: under_def sound_def)
next
  case (Some x)
  show ?thesis
  proof (rule soundI)
    fix v scope seen seen'
    assume fresh: "set scope \<inter> set (vd_tables v) = {}"
      and run: "under (map_option f wi) c v scope seen = Inr seen'"
    obtain scope' mid where mid: "f x v scope seen = Inr (scope', mid)" "c v scope' mid = Inr seen'"
      using run Some by (auto simp: under_def split: sum.splits)
    have h: "items_ok v (set scope) (g (lowered v) x)" "grown v (g (lowered v) x) seen mid"
        "set scope' \<inter> set (vd_tables v) = {}" "set scope' \<subseteq> set scope \<union> cte_names (g (lowered v) x)"
      using w [of x] Some fresh mid(1) unfolding sound_scoping_def by auto
    from soundD [OF c h(3) mid(2)]
    have d: "items_ok v (set scope \<union> cte_names (g (lowered v) x)) (is (lowered v))"
        "grown v (is (lowered v)) mid seen'"
      using items_ok_mono [OF _ h(4)] by auto
    show "items_ok v (set scope) (opt_items (map_option (g (lowered v)) wi) @ is (lowered v)) \<and>
        grown v (opt_items (map_option (g (lowered v)) wi) @ is (lowered v)) seen seen'"
      using items_ok_append [OF h(1) d(1)] grown_append [OF h(2) d(2)] Some by simp
  qed
qed

text \<open>A WITH clause: the names it declares, and the bodies checked under all of them.\<close>

lemma declare_ctes_Inr:
  "declare_ctes v cs scope = Inr scope' \<Longrightarrow>
     set scope' = set scope \<union> fst ` set cs \<and> fst ` set cs \<inter> set (vd_tables v) = {} \<and> (\<forall>c \<in> set cs. \<not> snd c)"
  by (induction v cs scope rule: declare_ctes.induct) (auto split: if_splits)

primrec cte_body :: "(string \<Rightarrow> string) \<Rightarrow> cte \<Rightarrow> item list" where
  "cte_body low (Cte nm rc q) = opt_items (map_option opt_items (map_option (map_option (node_items low)) q))"

lemma cte_items_body:
  "cte_items low c =
     CteName (cte_name c) # (if cte_recursive c then [Forbidden ''WITH RECURSIVE''] else []) @ cte_body low c"
  by (cases c) simp

lemma cte_items_names: "cte_names (concat (map (cte_items low) ctes)) =
    cte_name ` set ctes \<union> cte_names (concat (map (cte_body low) ctes))"
  by (induction ctes) (auto simp: cte_items_body)

lemma cte_items_physical:
  "physical v (concat (map (cte_items low) ctes)) = physical v (concat (map (cte_body low) ctes))"
  by (induction ctes) (auto simp: cte_items_body)

lemma in_cte_items:
  assumes "i \<in> set (concat (map (cte_items low) ctes))" and "\<forall>c \<in> set ctes. \<not> cte_recursive c"
  shows "i \<in> CteName ` cte_name ` set ctes \<or> i \<in> set (concat (map (cte_body low) ctes))"
  using assms by (auto simp: cte_items_body)

lemma sound_with:
  assumes "\<And>c. c \<in> set ctes \<Longrightarrow> sound (checkCte c) (\<lambda>low. cte_body low c)"
  shows "sound_scoping (checkWith (WithClause recursive ctes)) (\<lambda>low. with_items low (WithClause recursive ctes))"
  unfolding sound_scoping_def
proof (intro allI impI)
  fix v scope seen scope' seen'
  assume fresh: "set scope \<inter> set (vd_tables v) = {}"
    and run: "checkWith (WithClause recursive ctes) v scope seen = Inr (scope', seen')"
  let ?is = "concat (map (cte_items (lowered v)) ctes)" and ?bs = "concat (map (cte_body (lowered v)) ctes)"
  have plain: "\<not> recursive" and decl: "declare_ctes v (map (\<lambda>c. (cte_name c, cte_recursive c)) ctes) scope = Inr scope'"
    and bodies: "all_of (map checkCte ctes) v scope' seen = Inr seen'"
    using run by (auto simp: with_scope_def split: if_splits sum.splits)
  have d: "set scope' = set scope \<union> cte_name ` set ctes" "cte_name ` set ctes \<inter> set (vd_tables v) = {}"
      "\<forall>c \<in> set ctes. \<not> cte_recursive c"
    using declare_ctes_Inr [OF decl] by (auto simp: image_image)
  have fresh': "set scope' \<inter> set (vd_tables v) = {}" using d fresh by auto
  from soundD [OF sound_all_of [where f = checkCte and g = cte_body, OF assms] fresh' bodies]
  have b: "items_ok v (set scope') ?bs" "grown v ?bs seen seen'" by auto
  have "items_ok v (set scope) ?is"
    unfolding items_ok_def
  proof
    fix i assume "i \<in> set ?is"
    then consider "i \<in> CteName ` cte_name ` set ctes" | "i \<in> set ?bs" using in_cte_items [OF _ d(3)] by blast
    then show "item_ok v (set scope \<union> cte_names ?is) i"
    proof cases
      case 1
      then show ?thesis using d(2) by auto
    next
      case 2
      with b(1) have "item_ok v (set scope' \<union> cte_names ?bs) i" by (auto simp: items_ok_def)
      then show ?thesis by (rule item_ok_mono) (auto simp: cte_items_names d(1))
    qed
  qed
  moreover have "grown v ?is seen seen'" using b(2) by (simp add: grown_def cte_items_physical)
  moreover have "set scope' \<subseteq> set scope \<union> cte_names ?is" by (auto simp: d(1) cte_items_names)
  ultimately show "items_ok v (set scope) (with_items (lowered v) (WithClause recursive ctes)) \<and>
      grown v (with_items (lowered v) (WithClause recursive ctes)) seen seen' \<and>
      set scope' \<inter> set (vd_tables v) = {} \<and>
      set scope' \<subseteq> set scope \<union> cte_names (with_items (lowered v) (WithClause recursive ctes))"
    using plain fresh' by simp
qed

section \<open>Every check is sound\<close>

lemma sound_three:
  "sound a is \<Longrightarrow> sound b js \<Longrightarrow> sound c ks \<Longrightarrow> sound (all_of [a, b, c]) (\<lambda>low. is low @ js low @ ks low)"
  using sound_and_also [OF _ sound_and_also [OF _ sound_and_also [OF _ sound_accept]]] by fastforce

lemma sound_clauses:
  assumes "sound a is" and "sound b js" and "sound c ks" and "sound d ls" and "sound e ms" and "sound f ns"
  shows "sound (all_of [a, b, c, d, e, f]) (\<lambda>low. is low @ js low @ ks low @ ls low @ ms low @ ns low)"
  using sound_and_also [OF assms(1) sound_and_also [OF assms(2) sound_and_also [OF assms(3)
        sound_and_also [OF assms(4) sound_and_also [OF assms(5) sound_and_also [OF assms(6) sound_accept]]]]]]
  by simp

lemma sound_nonempty:
  "(\<And>x. x \<in> set_option p \<Longrightarrow> sound (f x) (\<lambda>low. g low x)) \<Longrightarrow>
     sound (case map_option f p of None \<Rightarrow> refuse_node why | Some c \<Rightarrow> c) (\<lambda>low. opt_items (map_option (g low) p))"
  by (cases p) (simp_all add: sound_refuse)

lemma sound_select:
  assumes wi: "\<And>x. x \<in> set_option wi \<Longrightarrow> sound_scoping (checkWith x) (\<lambda>low. with_items low x)"
    and fr: "\<And>x. x \<in> set_option fr \<Longrightarrow> sound (checkNode x InFrom) (\<lambda>low. node_items low x)"
    and e: "\<And>p x. p \<in> {fl, wh, gb, hv, ob} \<Longrightarrow> x \<in> set_option p \<Longrightarrow> sound (checkExpr x) (\<lambda>low. expr_items low x)"
  shows "sound (checkSelect (Select into lk wi fr fl wh gb hv ob lim ws ls))
    (\<lambda>low. select_items low (Select into lk wi fr fl wh gb hv ob lim ws ls))"
proof (cases "into \<or> \<not> (lk = None \<or> lk = Some SelectLockNone)")
  case True
  then show ?thesis by (auto simp: sound_refuse)
next
  case False
  have x: "sound (if_any (map_option checkExpr p)) (\<lambda>low. opt_items (map_option (expr_items low) p))"
    if "p \<in> {fl, wh, gb, hv, ob}" for p
    using sound_if_any [where f = checkExpr and g = expr_items] e [OF that] by blast
  have n: "sound (if_any (map_option (\<lambda>n. checkNode n InFrom) fr)) (\<lambda>low. opt_items (map_option (node_items low) fr))"
    using sound_if_any [where f = "\<lambda>n. checkNode n InFrom" and g = node_items] fr by blast
  from sound_under [where f = checkWith and g = with_items, OF wi sound_clauses [OF n x x x x x]]
  show ?thesis using False by auto
qed

lemma sound_join:
  assumes "\<And>x. x \<in> set_option l \<Longrightarrow> sound (checkNode x InFrom) (\<lambda>low. node_items low x)"
    and "\<And>x. x \<in> set_option r \<Longrightarrow> sound (checkNode x InFrom) (\<lambda>low. node_items low x)"
    and "\<And>x. x \<in> set_option c \<Longrightarrow> sound (checkExpr x) (\<lambda>low. expr_items low x)"
  shows "sound (checkNode (JoinNode l r c) p) (\<lambda>low. node_items low (JoinNode l r c))"
  using sound_three [OF sound_if_any [where f = "\<lambda>n. checkNode n InFrom" and g = node_items and p = l]
      sound_if_any [where f = "\<lambda>n. checkNode n InFrom" and g = node_items and p = r]
      sound_if_any [where f = checkExpr and g = expr_items and p = c]] assms
  by simp

lemma sound_cte:
  assumes "\<And>q x. q \<in> set_option p \<Longrightarrow> x \<in> set_option q \<Longrightarrow> sound (checkNode x AsResultSet) (\<lambda>low. node_items low x)"
  shows "sound (checkCte (Cte nm rc p)) (\<lambda>low. cte_body low (Cte nm rc p))"
proof (cases p)
  case None
  then show ?thesis by (simp add: sound_refuse)
next
  case (Some q)
  then show ?thesis using assms [of q] by (cases q) (simp_all add: sound_refuse)
qed

lemma sound_exprs:
  "(\<And>x. x \<in> set es \<Longrightarrow> sound (checkExpr x) (\<lambda>low. expr_items low x)) \<Longrightarrow>
     sound (all_of (map checkExpr es)) (\<lambda>low. concat (map (expr_items low) es))"
  using sound_all_of [where f = checkExpr and g = expr_items] by blast

lemma sound_checks:
  "sound (checkExpr e) (\<lambda>low. expr_items low e)"
  "\<forall>p. sound (checkNode n p) (\<lambda>low. node_items low n)"
  "(l :: limit) = l"
  "sound (checkSelect s) (\<lambda>low. select_items low s)"
  "sound (checkSetOpr u) (\<lambda>low. set_opr_items low u)"
  "sound (checkSetOprSelectList sl) (\<lambda>low. select_list_items low sl)"
  "sound (checkBranch b) (\<lambda>low. branch_items low b)"
  "sound_scoping (checkWith w) (\<lambda>low. with_items low w)"
  "sound (checkCte c) (\<lambda>low. cte_body low c)"
proof (induct e and n and l and s and u and sl and b and w and c
    rule: expr.induct node.induct limit.induct select.induct set_opr.induct select_list.induct branch.induct
      with_clause.induct cte.induct)
  case (FuncCallExpr f es)
  then show ?case using sound_function [OF sound_exprs, where h = "\<lambda>low. f"] by simp
next
  case (AggregateFuncExpr f es)
  then show ?case using sound_function [OF sound_exprs, where h = "\<lambda>low. low f"] by simp
next
  case (SubqueryExpr q)
  then show ?case using sound_if_any [where f = "\<lambda>n. checkNode n AsResultSet" and g = node_items] by simp
next
  case (OtherExpr k es)
  then show ?case using sound_exprs by simp
next
  case (JoinNode l r c)
  then show ?case using sound_join by blast
next
  case (Select x1 x2 x3 x4 x5 x6 x7 x8 x9 x10 x11 x12)
  then show ?case by (intro sound_select) auto
next
  case (SetOpr wi sl ob lim)
  from sound_under [where f = checkWith and g = with_items, OF SetOpr(1)
      sound_nonempty [where f = checkSetOprSelectList and g = select_list_items, OF SetOpr(2)]]
  show ?case by simp
next
  case (SelectList wi bs)
  from sound_under [where f = checkWith and g = with_items, OF SelectList(1)
      sound_all_of [where f = checkBranch and g = branch_items, OF SelectList(2)]]
  show ?case by simp
next
  case (WithClause recursive ctes)
  then show ?case by (rule sound_with)
next
  case (Cte nm rc p)
  then show ?case by (intro sound_cte) blast
qed (simp_all add: sound_accept sound_refuse sound_table)

lemma check_stmt_sound:
  assumes "check_stmt s v [] [] = Inr seen"
  shows "items_ok v {} (stmt_items (lowered v) s) \<and> set seen = physical v (stmt_items (lowered v) s) \<and> distinct seen"
proof (cases s)
  case (SelectStmt sel)
  with assms soundD [OF sound_checks(4), of "[]" v sel "[]" seen] show ?thesis
    by (simp add: check_stmt_def grown_def)
next
  case (SetOprStmt u)
  with assms soundD [OF sound_checks(5), of "[]" v u "[]" seen] show ?thesis
    by (simp add: check_stmt_def grown_def)
next
  case (OtherStmt k)
  with assms show ?thesis by (simp add: check_stmt_def refuse_node_def)
qed

end
