(* ===== verification/Guard_Properties.thy ===== *)
theory Guard_Properties
  imports Sql_Guard_Sound
begin

text \<open>
  The guard's guarantees about \<open>Validate\<close> (internal/sqlguard/guard.go): what the SQL it returns may
  mention, how its outermost LIMIT is bounded, which tables it reports, how it fails; and the places
  of a query it does not look at.
\<close>

section \<open>The passes of Validate\<close>

definition policy :: "parser \<Rightarrow> validate_input \<Rightarrow> validator" where
  "policy p input = newValidator (ps_lower p) (vi_allowed_database input) (vi_allowed_tables input)"

lemma policy_lower [simp]: "vd_lower (policy p input) = ps_lower p"
  by (simp add: policy_def newValidator_def)

lemma parseSingle_Inr:
  "parseSingle p sql = Inr s \<Longrightarrow> ps_parse p sql = Some [s] \<and> (\<forall>k. s \<noteq> OtherStmt k)"
  by (auto simp: parseSingle_def split: if_splits option.splits list.splits stmt.splits)

lemma parseSingle_rejects: "parseSingle p sql = Inl e \<Longrightarrow> \<exists>why. e = rejected why"
  by (auto simp: parseSingle_def split: if_splits option.splits list.splits stmt.splits)

lemma recheck_None:
  assumes "recheck p input sql = None"
  obtains s seen where "ps_parse p sql = Some [s]" and "check_stmt s (policy p input) [] [] = Inr seen"
    and "verifyOutermostLimit s (vi_max_rows input) = None"
  using assms parseSingle_Inr [of p sql]
  by (auto simp: recheck_def policy_def split: sum.splits)

lemma Validate_Inr:
  assumes "Validate p ctx input = Inr r"
  obtains s seen limit s' where "ctx = None" and "0 < vi_max_rows input" and "ps_parse p (vi_sql input) = Some [s]"
    and "check_stmt s (policy p input) [] [] = Inr seen"
    and "rewriteLimit s (vi_max_rows input) = Inr (limit, s')"
    and "ps_restore p s' = Some (vr_normalized_sql r)" and "recheck p input (vr_normalized_sql r) = None"
    and "vr_statement_type r = statementType s" and "vr_tables r = tableList seen" and "vr_limit r = limit"
  using assms parseSingle_Inr [of p "vi_sql input"]
  by (auto simp: Validate_def policy_def restoreSQL_def split: option.splits if_splits sum.splits prod.splits)

lemma recheck_rejects: "recheck p input sql = Some e \<Longrightarrow> errors_is e ErrRejected"
  using parseSingle_rejects [of p sql]
  by (fastforce simp: recheck_def rejected_def split: sum.splits)

section \<open>The outermost LIMIT\<close>

lemma verify_None:
  assumes "verifyOutermostLimit s n = None"
  shows "\<exists>c offset k. outermost_limit s = Inr (Some (Limit (Some c) offset)) \<and> literalUint c = Some k \<and>
    0 < k \<and> int k \<le> n"
  using assms by (auto simp: verifyOutermostLimit_def split: sum.splits option.splits limit.splits if_splits)

lemma outermost_put: "(\<forall>k. s \<noteq> OtherStmt k) \<Longrightarrow> outermost_limit (put_limit l s) = Inr l"
  by (cases "(l, s)" rule: put_limit.cases) auto

definition limit_count :: "stmt \<Rightarrow> nat option" where
  "limit_count s = (case outermost_limit s of
       Inr (Some (Limit (Some c) offset)) \<Rightarrow> literalUint c | _ \<Rightarrow> None)"

lemma rewrite_count:
  assumes "rewriteLimit s n = Inr (k, s')" and "0 < n"
  shows "limit_count s' = Some (nat k) \<and> 0 \<le> k \<and> k \<le> n"
proof -
  have s: "\<forall>j. s \<noteq> OtherStmt j" using assms(1) by (cases s) (auto simp: rewriteLimit_def)
  show ?thesis
    using assms
    by (auto simp: rewriteLimit_def limit_count_def outermost_put [OF s] newLimit_def literalUint_def
        split: sum.splits option.splits limit.splits if_splits)
qed

section \<open>A sample parser\<close>

definition sample_select :: "limit option \<Rightarrow> stmt" where
  "sample_select lim = SelectStmt (Select False None None
     (Some (JoinNode (Some (TableSource (TableName '''' ''products''))) None None))
     (Some (OtherExpr ''FieldList'' [AggregateFuncExpr ''COUNT'' [ValueExpr (IntLit 1)]])) None None None None lim [] [])"

definition sample_sql :: string where "sample_sql = ''select count(1) from products''"
definition sample_normalized :: string where "sample_normalized = ''SELECT COUNT(1) FROM `products` LIMIT 100''"

definition sample_limit :: limit where
  "sample_limit = Limit (Some (ValueExpr (UintLit 100))) None"

definition sample_parser :: parser where
  "sample_parser = \<lparr>ps_parse = (\<lambda>sql. if sql = sample_sql then Some [sample_select None]
       else if sql = sample_normalized then Some [sample_select (Some sample_limit)] else None),
     ps_restore = (\<lambda>s. if s = sample_select (Some sample_limit) then Some sample_normalized else None),
     ps_lower = (\<lambda>s. s)\<rparr>"

definition sample_input :: validate_input where
  "sample_input = \<lparr>vi_sql = sample_sql, vi_allowed_database = ''askdb_demo'',
     vi_allowed_tables = [''Products'', ''orders''], vi_max_rows = 100\<rparr>"

lemma sample_lower: "to_lower uni ''COUNT'' = ''count''" "to_lower uni ''Products'' = ''products''"
    "to_lower uni ''orders'' = ''orders''" "to_lower uni ''askdb_demo'' = ''askdb_demo''"
  by code_simp+

lemma sample_validates:
  "Validate sample_parser None sample_input = Inr \<lparr>vr_normalized_sql = sample_normalized,
     vr_statement_type = ''SELECT'', vr_tables = [''products''], vr_limit = 100\<rparr>"
proof -
  have parse: "parseSingle sample_parser sample_sql = Inr (sample_select None)"
      "parseSingle sample_parser sample_normalized = Inr (sample_select (Some sample_limit))"
    by (simp_all add: parseSingle_def sample_parser_def sample_sql_def sample_normalized_def sample_select_def
        byte_def is_space_def)
  have check: "check_stmt (sample_select lim) (policy sample_parser sample_input) [] [] = Inr [''products'']" for lim
    by (simp add: check_stmt_def sample_select_def policy_def newValidator_def sample_input_def sample_parser_def
        under_def if_any_def and_also_def accept_def checkTableName_def function_check_def sample_lower
        allowedFunctions_def)
  have input: "vi_sql sample_input = sample_sql" "vi_max_rows sample_input = 100"
    by (simp_all add: sample_input_def)
  have limit: "rewriteLimit (sample_select None) 100 = Inr (100, sample_select (Some sample_limit))"
      "verifyOutermostLimit (sample_select (Some sample_limit)) 100 = None"
      "ps_restore sample_parser (sample_select (Some sample_limit)) = Some sample_normalized"
      "statementType (sample_select None) = ''SELECT''"
    by (simp_all add: rewriteLimit_def sample_select_def newLimit_def sample_limit_def verifyOutermostLimit_def
        literalUint_def sample_parser_def statementType_def)
  have "recheck sample_parser sample_input sample_normalized = None"
    using parse(2) check limit(2) by (simp add: recheck_def policy_def input)
  then show ?thesis
    using parse(1) check limit by (simp add: Validate_def restoreSQL_def policy_def input tableList_def)
qed

text \<open>
  SQL as the guard returns it for a database, tables and a row limit: a single statement with a literal
  outermost LIMIT in range, confined to the tables and functions allowed.
\<close>

definition guarded_sql :: "parser \<Rightarrow> string list \<Rightarrow> int \<Rightarrow> string \<Rightarrow> string \<Rightarrow> bool" where
  "guarded_sql p tables maxRows db sql = (\<exists>s k. ps_parse p sql = Some [s] \<and>
     limit_count s = Some k \<and> 0 < k \<and> int k \<le> maxRows \<and>
     (\<forall>i \<in> set (stmt_items (to_lower (ps_lower p)) s). case i of
        TableRef schema table \<Rightarrow>
          schema = [] \<and> CteName table \<in> set (stmt_items (to_lower (ps_lower p)) s) \<and> table \<notin> to_lower (ps_lower p) ` set tables \<or>
          (schema = [] \<or> db \<noteq> [] \<and> schema = to_lower (ps_lower p) db) \<and> table \<in> to_lower (ps_lower p) ` set tables
      | FunctionRef f \<Rightarrow> f \<in> set allowedFunctions
      | CteName n \<Rightarrow> n \<notin> to_lower (ps_lower p) ` set tables
      | Forbidden k \<Rightarrow> False))"

lemma Validate_guarded:
  assumes "Validate p ctx input = Inr r"
  shows "guarded_sql p (vi_allowed_tables input) (vi_max_rows input) (vi_allowed_database input) (vr_normalized_sql r)"
proof -
  obtain s seen where s: "ps_parse p (vr_normalized_sql r) = Some [s]"
      "check_stmt s (policy p input) [] [] = Inr seen" "verifyOutermostLimit s (vi_max_rows input) = None"
    using Validate_Inr [OF assms] recheck_None by metis
  have "items_ok (policy p input) {} (stmt_items (to_lower (ps_lower p)) s)"
    using check_stmt_sound [OF s(2)] by simp
  then have "\<forall>i \<in> set (stmt_items (to_lower (ps_lower p)) s).
      item_ok (policy p input) (cte_names (stmt_items (to_lower (ps_lower p)) s)) i"
    by (simp add: items_ok_def)
  moreover have "vd_tables (policy p input) = map (to_lower (ps_lower p)) (vi_allowed_tables input)"
      "set (vd_schemas (policy p input)) = {x. vi_allowed_database input \<noteq> [] \<and> x = to_lower (ps_lower p) (vi_allowed_database input)}"
    by (auto simp: policy_def newValidator_def)
  moreover obtain k where "limit_count s = Some k" "0 < k" "int k \<le> vi_max_rows input"
    using verify_None [OF s(3)] by (auto simp: limit_count_def)
  ultimately show ?thesis
    unfolding guarded_sql_def using s(1)
    by (intro exI [of _ s] exI [of _ k] conjI ballI) (auto split: item.splits if_splits simp: cte_names_def)
qed

section \<open>Properties\<close>



text \<open>
  C13. The number of rows is bounded: the returned SQL is a single statement whose outermost LIMIT is a
  literal between 1 and the configured maximum; the limit reported lies between 0 and the maximum,
  and when the parser reads back what it printed it is exactly the limit of the returned SQL.
\<close>

theorem returned_limit_is_bounded:
  assumes "Validate p ctx input = Inr r"
  shows "\<exists>s k. ps_parse p (vr_normalized_sql r) = Some [s] \<and> limit_count s = Some k \<and> 0 < k \<and>
    int k \<le> vi_max_rows input \<and> 0 \<le> vr_limit r \<and> vr_limit r \<le> vi_max_rows input \<and>
    ((\<forall>t sql. ps_restore p t = Some sql \<longrightarrow> ps_parse p sql = Some [t]) \<longrightarrow> vr_limit r = int k)"
proof -
  obtain s seen limit s' where v: "0 < vi_max_rows input" "rewriteLimit s (vi_max_rows input) = Inr (limit, s')"
      "ps_restore p s' = Some (vr_normalized_sql r)" "recheck p input (vr_normalized_sql r) = None"
      "vr_limit r = limit"
    using Validate_Inr [OF assms] by metis
  obtain u seen' where u: "ps_parse p (vr_normalized_sql r) = Some [u]"
      "verifyOutermostLimit u (vi_max_rows input) = None"
    using recheck_None [OF v(4)] by metis
  obtain k where k: "limit_count u = Some k" "0 < k" "int k \<le> vi_max_rows input"
    using verify_None [OF u(2)] by (auto simp: limit_count_def)
  have c: "limit_count s' = Some (nat limit)" "0 \<le> limit" "limit \<le> vi_max_rows input"
    using rewrite_count [OF v(2,1)] by auto
  have "u = s'" if "\<forall>t sql. ps_restore p t = Some sql \<longrightarrow> ps_parse p sql = Some [t]"
    using that v(3) u(1) by auto
  with c k u(1) v(5) show ?thesis by auto
qed

theorem returned_limit_is_bounded_witness:
  "\<exists>s k. ps_parse sample_parser sample_normalized = Some [s] \<and> limit_count s = Some k \<and> 0 < k \<and> k \<le> 100"
  using returned_limit_is_bounded [OF sample_validates] by (auto simp: sample_input_def)

text \<open>
  C21. The reported tables are exactly the allowed tables the submitted statement mentions where the
  guard looks, in lower case, sorted and without repetition.
\<close>

theorem reported_tables_are_exact:
  assumes "Validate p ctx input = Inr r" and "ps_parse p (vi_sql input) = Some [s]"
  shows "sorted (vr_tables r) \<and> distinct (vr_tables r) \<and>
    set (vr_tables r) = {n. n \<in> to_lower (ps_lower p) ` set (vi_allowed_tables input) \<and>
      (\<exists>schema. TableRef schema n \<in> set (stmt_items (to_lower (ps_lower p)) s))}"
proof -
  obtain seen where seen: "check_stmt s (policy p input) [] [] = Inr seen" "vr_tables r = tableList seen"
    using Validate_Inr [OF assms(1)] assms(2) by (metis list.inject option.inject)
  show ?thesis
    using check_stmt_sound [OF seen(1)]
    by (auto simp: seen(2) tableList_def physical_def policy_def newValidator_def)
qed

theorem reported_tables_are_exact_witness:
  "\<exists>schema. TableRef schema ''products'' \<in> set (stmt_items (to_lower (\<lambda>s. s)) (sample_select None))"
proof -
  have "ps_parse sample_parser (vi_sql sample_input) = Some [sample_select None]"
      "ps_lower sample_parser = (\<lambda>s. s)"
    by (simp_all add: sample_parser_def sample_input_def)
  from reported_tables_are_exact [OF sample_validates this(1)] this(2)
  have "{''products''} = {n. n \<in> to_lower (\<lambda>s. s) ` set (vi_allowed_tables sample_input) \<and>
      (\<exists>schema. TableRef schema n \<in> set (stmt_items (to_lower (\<lambda>s. s)) (sample_select None)))}"
    by simp
  then show ?thesis by blast
qed

text \<open>
  Failures are classified: a cancelled context is reported as it is, and every other failure is a
  deterministic rejection (\<open>errors.Is(err, ErrRejected)\<close>) and never looks like a cancellation.
\<close>

theorem validation_errors_are_rejections:
  "case Validate p ctx input of
     Inr r \<Rightarrow> ctx = None
   | Inl e \<Rightarrow> (case ctx of Some c \<Rightarrow> e = c
       | None \<Rightarrow> errors_is e ErrRejected \<and> \<not> errors_is e ContextCanceled \<and> \<not> errors_is e ContextDeadlineExceeded)"
proof -
  have "errors_is e ErrRejected" if "Validate p None input = Inl e" for e
    using that parseSingle_rejects [of p "vi_sql input"] recheck_rejects
    by (fastforce simp: Validate_def restoreSQL_def rejected_def split: if_splits sum.splits option.splits prod.splits)
  moreover have "Validate p (Some c) input = Inl c" for c by (simp add: Validate_def)
  moreover have "ctx = None" if "Validate p ctx input = Inr r" for r
    using that by (auto simp: Validate_def split: option.splits)
  ultimately show ?thesis
    using errors_is_unique by (auto split: sum.splits option.splits) blast+
qed

text \<open>
  Where the guard does not look: the ORDER BY and the LIMIT of a set operation, the LIMIT, the
  window specifications and the value lists of a SELECT have no influence on the verdict - whatever
  functions, variables or subqueries over other tables they contain.
\<close>

theorem unchecked_places:
  "check_stmt (SetOprStmt (SetOpr wi sl ob lim)) = check_stmt (SetOprStmt (SetOpr wi sl ob' lim')) \<and>
   check_stmt (SelectStmt (Select into lk wi fr fl wh gb hv order lim ws ls)) =
     check_stmt (SelectStmt (Select into lk wi fr fl wh gb hv order lim' ws' ls'))"
  by (simp add: check_stmt_def fun_eq_iff)

text \<open>A WITH entry whose body names itself.\<close>

definition self_cte :: "string \<Rightarrow> limit option \<Rightarrow> stmt" where
  "self_cte t lim = SelectStmt (Select False None
     (Some (WithClause False [Cte t False (Some (Some (SelectNode (Select False None None
        (Some (JoinNode (Some (TableSource (TableName [] t))) None None))
        (Some (OtherExpr ''FieldList'' [])) None None None None None [] []))))]))
     (Some (JoinNode (Some (TableSource (TableName [] t))) None None))
     (Some (OtherExpr ''FieldList'' [])) None None None None lim [] [])"

text \<open>
  C23. A WITH clause can smuggle any table: \<open>WITH t AS (SELECT * FROM t) SELECT * FROM t\<close> is accepted for
  every name t outside the allowlist, because the body of a WITH entry is checked with its own name in
  scope - while in MySQL the body of a non-recursive entry names the base table.
\<close>

theorem with_clause_smuggles_a_table:
  assumes "t \<notin> to_lower (ps_lower p) ` set (vi_allowed_tables input)" and "0 < vi_max_rows input"
    and "trim_space (vi_sql input) \<noteq> []" and "ps_parse p (vi_sql input) = Some [self_cte t None]"
    and "ps_restore p (self_cte t (Some (newLimit (vi_max_rows input)))) = Some sql"
    and "trim_space sql \<noteq> []" and "ps_parse p sql = Some [self_cte t (Some (newLimit (vi_max_rows input)))]"
  shows "\<exists>r. Validate p None input = Inr r \<and> vr_normalized_sql r = sql \<and> vr_tables r = []"
proof -
  have check: "check_stmt (self_cte t lim) (policy p input) [] [] = Inr []" for lim
    using assms(1)
    by (simp add: check_stmt_def self_cte_def policy_def newValidator_def under_def with_scope_def if_any_def
        and_also_def accept_def checkTableName_def)
  have parse: "parseSingle p (vi_sql input) = Inr (self_cte t None)"
      "parseSingle p sql = Inr (self_cte t (Some (newLimit (vi_max_rows input))))"
    using assms(3,4,6,7) by (simp_all add: parseSingle_def self_cte_def)
  have limit: "rewriteLimit (self_cte t None) (vi_max_rows input) =
        Inr (vi_max_rows input, self_cte t (Some (newLimit (vi_max_rows input))))"
      "verifyOutermostLimit (self_cte t (Some (newLimit (vi_max_rows input)))) (vi_max_rows input) = None"
    using assms(2) by (simp_all add: rewriteLimit_def self_cte_def verifyOutermostLimit_def newLimit_def literalUint_def)
  have "recheck p input sql = None"
    using parse(2) check limit(2) by (simp add: recheck_def policy_def)
  then show ?thesis
    using parse(1) check limit assms(2,5) by (simp add: Validate_def restoreSQL_def policy_def tableList_def)
qed

text \<open>A parser that knows one such statement, over a table of the application's own database.\<close>

definition smuggling_parser :: parser where
  "smuggling_parser = \<lparr>ps_parse = (\<lambda>sql. if sql = ''in'' then Some [self_cte ''users'' None]
       else if sql = ''out'' then Some [self_cte ''users'' (Some (newLimit 100))] else None),
     ps_restore = (\<lambda>s. Some ''out''), ps_lower = (\<lambda>s. s)\<rparr>"

theorem with_clause_smuggles_a_table_witness:
  "\<exists>r. Validate smuggling_parser None \<lparr>vi_sql = ''in'', vi_allowed_database = ''askdb_demo'',
     vi_allowed_tables = [''products''], vi_max_rows = 100\<rparr> = Inr r \<and> vr_normalized_sql r = ''out''"
proof -
  let ?input = "\<lparr>vi_sql = ''in'', vi_allowed_database = ''askdb_demo'',
     vi_allowed_tables = [''products''], vi_max_rows = 100\<rparr>"
  have lower: "to_lower (\<lambda>s. s) ''products'' = ''products''" by code_simp
  have "trim_space ''in'' \<noteq> []" "trim_space ''out'' \<noteq> []" by (simp_all add: byte_def is_space_def)
  then show ?thesis
    using with_clause_smuggles_a_table [of "''users''" smuggling_parser ?input "''out''"]
    by (auto simp: smuggling_parser_def lower)
qed

end
