(* ===== verification/Net_Addr.thy ===== *)
theory Net_Addr
  imports Go_Strings "HOL-Library.Word"
begin

unbundle bit_operations_syntax

text \<open>
  What the program uses of Go's package \<open>net\<close>: addresses as byte slices of length 4 or 16, the parser
  of addresses (\<open>netip.ParseAddr\<close> without a zone), CIDR networks with their masks and \<open>Contains\<close>, the
  text of an address and \<open>JoinHostPort\<close>. The lemmas relate masks to leading bits.
\<close>

section \<open>Addresses\<close>

type_synonym ip = "8 word list"

definition v4_prefix :: ip where
  "v4_prefix = replicate 10 0 @ [255, 255]"

definition to4 :: "ip \<Rightarrow> ip option" where
  "to4 ip = (if length ip = 4 then Some ip
     else if length ip = 16 \<and> take 12 ip = v4_prefix then Some (drop 12 ip) else None)"

definition canonical :: "ip \<Rightarrow> ip" where
  "canonical ip = (case to4 ip of Some x \<Rightarrow> x | None \<Rightarrow> ip)"

section \<open>Parsing\<close>

text \<open>An octet of a dotted address: digits without a leading zero, at most 255.\<close>

definition parse_octet :: "string \<Rightarrow> 8 word option" where
  "parse_octet s =
     (if s = [] \<or> \<not> list_all is_digit s \<or> (2 \<le> length s \<and> hd s = CHR ''0'') \<or> 255 < digits_value s
      then None else Some (of_nat (digits_value s)))"

fun all_some :: "'a option list \<Rightarrow> 'a list option" where
  "all_some [] = Some []"
| "all_some (None # xs) = None"
| "all_some (Some x # xs) = map_option ((#) x) (all_some xs)"

definition parse_ipv4 :: "string \<Rightarrow> ip option" where
  "parse_ipv4 s = (let parts = split_on CHR ''.'' s in
     if length parts = 4 then all_some (map parse_octet parts) else None)"

definition is_hex :: "char \<Rightarrow> bool" where
  "is_hex c = (is_digit c \<or> (97 \<le> byte c \<and> byte c \<le> 102) \<or> (65 \<le> byte c \<and> byte c \<le> 70))"

definition hex_val :: "char \<Rightarrow> nat" where
  "hex_val c = (if is_digit c then byte c - 48 else if 97 \<le> byte c then byte c - 87 else byte c - 55)"

definition hex_value :: "string \<Rightarrow> nat" where
  "hex_value s = foldl (\<lambda>v c. 16 * v + hex_val c) 0 s"

definition group_bytes :: "nat \<Rightarrow> ip" where
  "group_bytes n = [of_nat (n div 256), of_nat (n mod 256)]"

text \<open>
  The loop over the groups of an IPv6 text: \<open>done\<close> are the bytes read, \<open>gap\<close> the position of the
  ellipsis. A group takes up to four hex digits; the last four bytes may be dotted.
\<close>

function v6_groups :: "string \<Rightarrow> ip \<Rightarrow> nat option \<Rightarrow> (ip \<times> nat option) option" where
  "v6_groups s read gap =
     (if 16 \<le> length read then (if s = [] then Some (read, gap) else None)
      else let digits = takeWhile is_hex s; rest = dropWhile is_hex s in
        if digits = [] \<or> 4 < length digits then None
        else if rest \<noteq> [] \<and> hd rest = CHR ''.'' then
          (if (gap = None \<and> length read \<noteq> 12) \<or> 12 < length read then None
           else map_option (\<lambda>tail. (read @ tail, gap)) (parse_ipv4 s))
        else let read' = read @ group_bytes (hex_value digits) in
          (case rest of
             [] \<Rightarrow> Some (read', gap)
           | c # rest' \<Rightarrow>
               if c \<noteq> CHR '':'' \<or> rest' = [] then None
               else if hd rest' = CHR '':'' then
                 (if gap \<noteq> None then None
                  else if tl rest' = [] then Some (read', Some (length read'))
                  else v6_groups (tl rest') read' (Some (length read')))
               else v6_groups rest' read' gap))"
  by auto
termination
  by (relation "measure (\<lambda>(s, read, gap). 16 - length read)") (auto simp: group_bytes_def)

declare v6_groups.simps [simp del]

definition expand_gap :: "ip \<Rightarrow> nat option \<Rightarrow> ip option" where
  "expand_gap read gap = (case gap of
       None \<Rightarrow> (if length read = 16 then Some read else None)
     | Some g \<Rightarrow> (if length read < 16 then Some (take g read @ replicate (16 - length read) 0 @ drop g read)
                 else None))"

definition parse_ipv6 :: "string \<Rightarrow> ip option" where
  "parse_ipv6 s =
     (if CHR ''%'' \<in> set s then None
      else if take 2 s = '':''@'':'' then
        (if drop 2 s = [] then Some (replicate 16 0)
         else Option.bind (v6_groups (drop 2 s) [] (Some 0)) (\<lambda>(read, gap). expand_gap read gap))
      else Option.bind (v6_groups s [] None) (\<lambda>(read, gap). expand_gap read gap))"

text \<open>\<open>netip.ParseAddr\<close> without zones: the first dot or colon decides.\<close>

definition parse_addr :: "string \<Rightarrow> ip option" where
  "parse_addr s = (case find (\<lambda>c. c \<in> {CHR ''.'', CHR '':'', CHR ''%''}) s of
       Some c \<Rightarrow> (if c = CHR ''.'' then parse_ipv4 s else if c = CHR '':'' then parse_ipv6 s else None)
     | None \<Rightarrow> None)"

text \<open>\<open>net.ParseIP\<close>: always 16 bytes.\<close>

definition ParseIP :: "string \<Rightarrow> ip option" where
  "ParseIP s = map_option (\<lambda>a. if length a = 4 then v4_prefix @ a else a) (parse_addr s)"

section \<open>Networks\<close>

record ipnet =
  in_ip :: ip
  in_mask :: ip

text \<open>\<open>net.CIDRMask(ones, 8 * l)\<close>\<close>

definition mask_byte :: "nat \<Rightarrow> 8 word" where
  "mask_byte n = NOT (Bit_Operations.mask (8 - n))"

fun cidr_mask :: "nat \<Rightarrow> nat \<Rightarrow> ip" where
  "cidr_mask ones 0 = []"
| "cidr_mask ones (Suc l) = mask_byte (min ones 8) # cidr_mask (ones - 8) l"

definition mask_ip :: "ip \<Rightarrow> ip \<Rightarrow> ip" where
  "mask_ip ip m = map2 (AND) ip m"

fun split_first :: "char \<Rightarrow> string \<Rightarrow> (string \<times> string) option" where
  "split_first c [] = None"
| "split_first c (d # s) = (if d = c then Some ([], s) else map_option (\<lambda>(a, b). (d # a, b)) (split_first c s))"

text \<open>\<open>net.ParseCIDR\<close>, split at the first slash; the prefix length in plain digits.\<close>

definition ParseCIDR :: "string \<Rightarrow> ipnet option" where
  "ParseCIDR s = (case split_first CHR ''/'' s of
       None \<Rightarrow> None
     | Some (addr, ones) \<Rightarrow> (case parse_addr addr of
           None \<Rightarrow> None
         | Some a \<Rightarrow> (if ones = [] \<or> \<not> list_all is_digit ones \<or> 8 * length a < digits_value ones then None
             else let m = cidr_mask (digits_value ones) (length a) in
               Some \<lparr>in_ip = mask_ip a m, in_mask = m\<rparr>)))"

definition network_number_and_mask :: "ipnet \<Rightarrow> (ip \<times> ip) option" where
  "network_number_and_mask n =
     (let ip = canonical (in_ip n); m = in_mask n in
      if length m = length ip then Some (ip, m)
      else if length m = 16 \<and> length ip = 4 then Some (ip, drop 12 m)
      else None)"

definition contains_ip :: "ipnet \<Rightarrow> ip \<Rightarrow> bool" where
  "contains_ip n ip = (case network_number_and_mask n of
       None \<Rightarrow> False
     | Some (nn, m) \<Rightarrow> (let x = canonical ip in length x = length nn \<and> mask_ip nn m = mask_ip x m))"

section \<open>Text\<close>

definition ipv4_text :: "ip \<Rightarrow> string" where
  "ipv4_text a = join_with ''.'' (map (\<lambda>b. format_uint (unat b)) a)"

definition hex_digit :: "nat \<Rightarrow> char" where
  "hex_digit d = (if d < 10 then digit_char d else char_of (87 + d))"

fun format_hex :: "nat \<Rightarrow> string" where
  "format_hex n = (if n < 16 then [hex_digit n] else format_hex (n div 16) @ [hex_digit (n mod 16)])"

declare format_hex.simps [simp del]

fun v6_fields :: "ip \<Rightarrow> nat list" where
  "v6_fields (a # b # bs) = (unat a * 256 + unat b) # v6_fields bs"
| "v6_fields _ = []"

text \<open>The first longest run of at least two zero fields: its start and length.\<close>

definition zero_run :: "nat list \<Rightarrow> nat \<times> nat" where
  "zero_run fs = foldl (\<lambda>(start, len) i. let l = length (takeWhile (\<lambda>f. f = 0) (drop i fs)) in
       if 2 \<le> l \<and> len < l then (i, l) else (start, len)) (0, 0) [0..<length fs]"

definition ipv6_text :: "ip \<Rightarrow> string" where
  "ipv6_text a = (let fs = v6_fields a; (start, len) = zero_run fs; text = (\<lambda>gs. join_with '':'' (map format_hex gs)) in
     if len = 0 then text fs else text (take start fs) @ ''::'' @ text (drop (start + len) fs))"

definition ip_text :: "ip \<Rightarrow> string" where
  "ip_text a = (case to4 a of Some b \<Rightarrow> ipv4_text b | None \<Rightarrow> ipv6_text a)"

definition JoinHostPort :: "string \<Rightarrow> string \<Rightarrow> string" where
  "JoinHostPort host port =
     (if CHR '':'' \<in> set host \<or> CHR ''%'' \<in> set host then ''['' @ host @ '']:'' @ port else host @ '':'' @ port)"

section \<open>Masks and leading bits\<close>

definition ip_value :: "ip \<Rightarrow> nat" where
  "ip_value a = foldl (\<lambda>v b. v * 256 + unat b) 0 a"

lemma ip_value_snoc: "ip_value (a @ [b]) = ip_value a * 256 + unat b"
  by (simp add: ip_value_def)

lemma ip_value_Nil [simp]: "ip_value [] = 0"
  by (simp add: ip_value_def)

lemma ip_value_Cons: "ip_value (b # a) = unat b * 256 ^ length a + ip_value a"
proof (induction a rule: rev_induct)
  case Nil
  then show ?case by (simp add: ip_value_def)
next
  case (snoc x xs)
  have "ip_value (b # xs @ [x]) = ip_value (b # xs) * 256 + unat x"
    using ip_value_snoc [of "b # xs" x] by simp
  with snoc show ?case by (simp add: ip_value_snoc algebra_simps)
qed

lemma ip_value_bound: "ip_value a < 256 ^ length a"
proof (induction a)
  case (Cons b a)
  have "unat b < 256" using unsigned_less [of b] by simp
  then have "unat b * 256 ^ length a + 256 ^ length a \<le> 256 * 256 ^ length a"
    by (metis Suc_leI add.commute mult_Suc mult_le_mono1)
  with Cons show ?case unfolding ip_value_Cons length_Cons power_Suc by linarith
qed simp

lemma mask_byte_eq:
  assumes "k \<le> 8"
  shows "a AND mask_byte k = b AND mask_byte k \<longleftrightarrow> unat a div 2 ^ (8 - k) = unat b div 2 ^ (8 - k)"
proof -
  have "a AND mask_byte k = b AND mask_byte k \<longleftrightarrow> drop_bit (8 - k) a = drop_bit (8 - k) b"
  proof
    assume eq: "a AND mask_byte k = b AND mask_byte k"
    have "bit a (8 - k + n) = bit b (8 - k + n)" for n
      using arg_cong [OF eq, of "\<lambda>w. bit w (8 - k + n)"]
      by (cases "8 - k + n < 8") (auto simp: mask_byte_def bit_simps dest: bit_imp_le_length)
    then show "drop_bit (8 - k) a = drop_bit (8 - k) b"
      by (auto simp: bit_eq_iff bit_drop_bit_eq)
  next
    assume eq: "drop_bit (8 - k) a = drop_bit (8 - k) b"
    have "8 - k \<le> n \<Longrightarrow> bit a n = bit b n" for n
      using arg_cong [OF eq, of "\<lambda>w. bit w (n - (8 - k))"] by (simp add: bit_drop_bit_eq)
    then show "a AND mask_byte k = b AND mask_byte k"
      by (auto simp: bit_eq_iff mask_byte_def bit_simps)
  qed
  also have "\<dots> \<longleftrightarrow> unat (drop_bit (8 - k) a) = unat (drop_bit (8 - k) b)"
    by (simp add: unsigned_word_eqI word_unat_eq_iff)
  finally show ?thesis by (simp only: unat_drop_bit_eq) (simp only: drop_bit_eq_div)
qed

lemma mask_ip_Cons [simp]: "mask_ip (x # xs) (m # ms) = (x AND m) # mask_ip xs ms"
  by (simp add: mask_ip_def)

lemma mask_byte_0 [simp]: "mask_byte 0 = 0"
  by (rule bit_word_eqI) (simp add: mask_byte_def bit_simps)

lemma mask_ip_zero: "length xs = length ys \<Longrightarrow> mask_ip xs (cidr_mask 0 l) = mask_ip ys (cidr_mask 0 l)"
proof (induction xs ys arbitrary: l rule: list_induct2)
  case (Cons x xs y ys)
  then show ?case by (cases l) (simp_all add: mask_ip_def)
qed (simp add: mask_ip_def)

lemma div_split: "t < 2 ^ m \<Longrightarrow> k \<le> m \<Longrightarrow> (h * 2 ^ m + t) div 2 ^ k = h * 2 ^ (m - k) + t div 2 ^ k" for h t :: nat
proof -
  assume "t < 2 ^ m" "k \<le> m"
  then have "h * 2 ^ m + t = t + (h * 2 ^ (m - k)) * 2 ^ k"
    by (simp add: power_add [symmetric] mult.assoc)
  then show ?thesis by (metis add.commute div_mult_self1 power_not_zero zero_neq_numeral)
qed

lemma div_unique: "t < 2 ^ m \<Longrightarrow> u < 2 ^ m \<Longrightarrow> h * 2 ^ m + t = g * 2 ^ m + u \<longleftrightarrow> h = g \<and> t = u" for h g t u :: nat
  by (metis add.commute add_left_cancel div_less div_mult_self1 add_0 power_not_zero zero_neq_numeral)

text \<open>Two addresses agree under a prefix mask just when their leading bits agree as numbers.\<close>

lemma mask_ip_eq:
  "length xs = length ys \<Longrightarrow> n \<le> 8 * length xs \<Longrightarrow>
     mask_ip xs (cidr_mask n (length xs)) = mask_ip ys (cidr_mask n (length xs)) \<longleftrightarrow>
     ip_value xs div 2 ^ (8 * length xs - n) = ip_value ys div 2 ^ (8 * length xs - n)"
proof (induction xs ys arbitrary: n rule: list_induct2)
  case Nil
  then show ?case by (simp add: mask_ip_def)
next
  case (Cons x xs y ys)
  let ?m = "8 * length xs"
  have b: "ip_value xs < 2 ^ ?m" "ip_value ys < 2 ^ ?m"
    using ip_value_bound [of xs] ip_value_bound [of ys] Cons.hyps by (simp_all add: power_mult)
  have v: "ip_value (x # xs) = unat x * 2 ^ ?m + ip_value xs" "ip_value (y # ys) = unat y * 2 ^ ?m + ip_value ys"
    using Cons.hyps by (simp_all add: ip_value_Cons power_mult)
  show ?case
  proof (cases "8 \<le> n")
    case True
    let ?k = "?m - (n - 8)"
    have k: "8 * length (x # xs) - n = ?k" "?k \<le> ?m" using True by auto
    have lt: "ip_value xs div 2 ^ ?k < 2 ^ (?m - ?k)" "ip_value ys div 2 ^ ?k < 2 ^ (?m - ?k)"
      using b k(2) by (simp_all add: less_mult_imp_div_less power_add [symmetric])
    have "unat x * 2 ^ (?m - ?k) + ip_value xs div 2 ^ ?k = unat y * 2 ^ (?m - ?k) + ip_value ys div 2 ^ ?k \<longleftrightarrow>
        unat x = unat y \<and> ip_value xs div 2 ^ ?k = ip_value ys div 2 ^ ?k"
      by (rule div_unique [OF lt])
    then have "ip_value (x # xs) div 2 ^ ?k = ip_value (y # ys) div 2 ^ ?k \<longleftrightarrow>
        unat x = unat y \<and> ip_value xs div 2 ^ ?k = ip_value ys div 2 ^ ?k"
      unfolding v div_split [OF b(1) k(2)] div_split [OF b(2) k(2)] .
    moreover have "n - 8 \<le> 8 * length xs" using Cons.prems by simp
    ultimately show ?thesis
      using Cons.IH [of "n - 8"] mask_byte_eq [of 8 x y] True k(1) by simp
  next
    case False
    have k: "8 * length (x # xs) - n = ?m + (8 - n)" using False by simp
    have "(unat x * 2 ^ ?m + ip_value xs) div 2 ^ (?m + (8 - n)) = unat x div 2 ^ (8 - n)"
        "(unat y * 2 ^ ?m + ip_value ys) div 2 ^ (?m + (8 - n)) = unat y div 2 ^ (8 - n)"
      using b by (simp_all add: power_add div_mult2_eq)
    then show ?thesis
      using mask_byte_eq [of n x y] mask_ip_zero [OF Cons.hyps] False unfolding k v by simp
  qed
qed

lemma mask_ip_idem: "mask_ip (mask_ip x m) m = mask_ip x m"
proof (induction x m rule: list_induct2')
  case (4 x xs m ms)
  then show ?case by (simp add: bit_eq_iff bit_simps)
qed (simp_all add: mask_ip_def)

lemma mask_ip_length [simp]: "length (mask_ip x m) = min (length x) (length m)"
  by (simp add: mask_ip_def)

lemma cidr_mask_length [simp]: "length (cidr_mask n l) = l"
  by (induction n l rule: cidr_mask.induct) simp_all

section \<open>Evaluation\<close>

lemma mask_ip_Nil [simp]: "mask_ip [] m = []"
  by (simp add: mask_ip_def)

lemma mask_byte_numeral: "mask_byte 8 = 255" "mask_byte 7 = 254" "mask_byte 4 = 240" "mask_byte 2 = 192"
  by (simp_all add: mask_byte_def mask_eq_exp_minus_1 not_eq_complement)

lemma cidr_mask_numeral: "cidr_mask n (numeral k) = mask_byte (min n 8) # cidr_mask (n - 8) (pred_numeral k)"
  by (simp add: numeral_eq_Suc)

lemma replicate_numeral: "replicate (numeral k) x = x # replicate (pred_numeral k) x"
  by (simp add: numeral_eq_Suc)

lemmas addr_simps = ParseCIDR_def parse_addr_def parse_ipv4_def parse_octet_def is_digit_def digit_val_def
  digits_value_def Let_def cidr_mask_numeral mask_byte_numeral replicate_numeral parse_ipv6_def
  v6_groups.simps [of "c # s" for c s] is_hex_def byte_def group_bytes_def hex_value_def hex_val_def expand_gap_def

lemma and_255 [simp]: "x AND 255 = (x :: 8 word)" "255 AND x = (x :: 8 word)"
proof -
  have "(255 :: 8 word) = - 1" by simp
  then show "x AND 255 = x" "255 AND x = x" by (simp_all only: and.right_neutral and.left_neutral)
qed

text \<open>A byte under a partial mask, as a range.\<close>

lemma byte_ranges:
  "b AND 240 = 16 \<longleftrightarrow> 16 \<le> b \<and> b \<le> (31 :: 8 word)" "b AND 240 = 224 \<longleftrightarrow> 224 \<le> b \<and> b \<le> (239 :: 8 word)"
  "b AND 192 = 128 \<longleftrightarrow> 128 \<le> b \<and> b \<le> (191 :: 8 word)" "b AND 254 = 252 \<longleftrightarrow> b = 252 \<or> b = (253 :: 8 word)"
proof -
  have u: "unat b < 256" using unsigned_less [of b] by simp
  show "b AND 240 = 16 \<longleftrightarrow> 16 \<le> b \<and> b \<le> 31"
    using mask_byte_eq [of 4 b 16] u by (auto simp: mask_byte_numeral word_le_nat_alt)
  show "b AND 240 = 224 \<longleftrightarrow> 224 \<le> b \<and> b \<le> 239"
    using mask_byte_eq [of 4 b 224] u by (auto simp: mask_byte_numeral word_le_nat_alt)
  show "b AND 192 = 128 \<longleftrightarrow> 128 \<le> b \<and> b \<le> 191"
    using mask_byte_eq [of 2 b 128] u by (auto simp: mask_byte_numeral word_le_nat_alt)
  show "b AND 254 = 252 \<longleftrightarrow> b = 252 \<or> b = 253"
    using mask_byte_eq [of 7 b 252] u by (auto simp: mask_byte_numeral word_unat_eq_iff)
qed

end
