(* ===== verification/Net_Guard.thy ===== *)
theory Net_Guard
  imports Net_Addr
begin

text \<open>
  The address guard (internal/netguard/validator.go): which hosts, ports and resolved addresses the
  program may connect to, the pinned dialler, and the parsers of its configuration. Name resolution
  and dialling are arguments. The text of error messages is kept up to the escaping of \<open>%q\<close>.
\<close>

section \<open>Policy\<close>

text \<open>\<open>mustParseCIDRs\<close>: \<open>None\<close> is the panic at program start.\<close>

definition mustParseCIDRs :: "string list \<Rightarrow> ipnet list option" where
  "mustParseCIDRs cidrs = all_some (map ParseCIDR cidrs)"

definition cloudMeta :: "string list" where
  "cloudMeta = [''169.254.169.254/32'', ''fd00:ec2::254/128'', ''100.100.100.200/32'']"

definition blocked :: "string list" where
  "blocked = [''127.0.0.0/8'', ''::1/128'', ''10.0.0.0/8'', ''172.16.0.0/12'', ''192.168.0.0/16'',
     ''169.254.0.0/16'', ''fe80::/10'', ''224.0.0.0/4'', ''ff00::/8'', ''0.0.0.0/8'', ''::/128'', ''fc00::/7'']"

definition cloudMetaCIDRs :: "ipnet list" where
  "cloudMetaCIDRs = (case mustParseCIDRs cloudMeta of Some ns \<Rightarrow> ns | None \<Rightarrow> [])"

definition blockedCIDRs :: "ipnet list" where
  "blockedCIDRs = (case mustParseCIDRs blocked of Some ns \<Rightarrow> ns | None \<Rightarrow> [])"

definition defaultAllowedPorts :: "nat list" where
  "defaultAllowedPorts = [3306]"

record net_validator =
  nv_ports :: "nat list"
  nv_allowlist :: "ipnet list"
  nv_lookup :: "string \<Rightarrow> go_error + string list"

record net_config =
  nc_ports :: "nat list"
  nc_allowlist :: "string list"
  nc_resolver :: "(string \<Rightarrow> go_error + string list) option"

definition quoted :: "string \<Rightarrow> string" where
  "quoted s = [CHR 0x22] @ s @ [CHR 0x22]"

fun parse_allowlist :: "string list \<Rightarrow> go_error + ipnet list" where
  "parse_allowlist [] = Inr []"
| "parse_allowlist (cidr # cidrs) = (case ParseCIDR cidr of
       None \<Rightarrow> Inl (Wrap (''netguard: invalid allowlist CIDR '' @ quoted cidr @ '': '')
                 (NewError (''invalid CIDR address: '' @ cidr)) '''')
     | Some n \<Rightarrow> (case parse_allowlist cidrs of Inl e \<Rightarrow> Inl e | Inr ns \<Rightarrow> Inr (n # ns)))"

definition NewValidator :: "(string \<Rightarrow> go_error + string list) \<Rightarrow> net_config \<Rightarrow> go_error + net_validator" where
  "NewValidator system_resolver cfg = (case parse_allowlist (nc_allowlist cfg) of
       Inl e \<Rightarrow> Inl e
     | Inr ns \<Rightarrow> Inr
         \<lparr>nv_ports = (if nc_ports cfg = [] then defaultAllowedPorts else nc_ports cfg), nv_allowlist = ns,
          nv_lookup = (case nc_resolver cfg of None \<Rightarrow> system_resolver | Some r \<Rightarrow> r)\<rparr>)"

section \<open>Validation\<close>

record validated_target =
  vt_host :: string
  vt_port :: nat
  vt_ips :: "ip list"

definition validateHostString :: "string \<Rightarrow> go_error option" where
  "validateHostString host =
     (if host = [] then Some (Sentinel ErrInvalidHost)
      else if contains_byte host CHR ''@'' \<or> contains_byte host CHR ''/'' \<or> contains_byte host CHR ''?'' \<or>
          contains_byte host CHR ''#'' then Some (Sentinel ErrInvalidHost)
      else if \<not> has_prefix host ''['' \<and> 1 < count_byte host CHR '':'' then Some (Sentinel ErrInvalidHost)
      else None)"

definition checkIP :: "net_validator \<Rightarrow> ip \<Rightarrow> go_error option" where
  "checkIP v ip =
     (if list_ex (\<lambda>n. contains_ip n ip) (nv_allowlist v) then None
      else if list_ex (\<lambda>n. contains_ip n ip) cloudMetaCIDRs then Some (Sentinel ErrAddressBlocked)
      else if list_ex (\<lambda>n. contains_ip n ip) blockedCIDRs then Some (Sentinel ErrAddressBlocked)
      else None)"

text \<open>The loop over the resolved addresses, in order.\<close>

fun check_addrs :: "net_validator \<Rightarrow> string list \<Rightarrow> go_error + ip list" where
  "check_addrs v [] = Inr []"
| "check_addrs v (addr # addrs) = (case ParseIP addr of
       None \<Rightarrow> Inl (NewError (''netguard: resolver returned non-IP '' @ quoted addr))
     | Some ip \<Rightarrow> (case checkIP v ip of
           Some e \<Rightarrow> Inl e
         | None \<Rightarrow> (case check_addrs v addrs of Inl e \<Rightarrow> Inl e | Inr ips \<Rightarrow> Inr (ip # ips))))"

definition net_validate :: "net_validator \<Rightarrow> string \<Rightarrow> nat \<Rightarrow> go_error + validated_target" where
  "net_validate v host port = (case validateHostString host of
       Some e \<Rightarrow> Inl e
     | None \<Rightarrow>
       (if port \<notin> set (nv_ports v) then Inl (Sentinel ErrPortNotAllowed)
        else case nv_lookup v host of
          Inl e \<Rightarrow> Inl (Wrap ''netguard: dns lookup: '' e '''')
        | Inr addrs \<Rightarrow>
            (if addrs = [] then Inl (Sentinel ErrNoAddressResolved)
             else case check_addrs v addrs of
               Inl e \<Rightarrow> Inl e
             | Inr ips \<Rightarrow> Inr \<lparr>vt_host = host, vt_port = port, vt_ips = ips\<rparr>)))"

text \<open>
  \<open>DialContext\<close>: the addresses of the target in order until one answers; \<open>dial\<close> gives the outcome per
  address text. The result comes with the addresses dialled. \<open>None\<close> is the index panic of a target
  without addresses.
\<close>

fun dial_in_order :: "(string \<Rightarrow> go_error + 'c) \<Rightarrow> nat \<Rightarrow> ip \<Rightarrow> ip list \<Rightarrow> (go_error + 'c) \<times> string list" where
  "dial_in_order dial port ip ips =
     (let addr = JoinHostPort (ip_text ip) (format_uint port) in
      case dial addr of
        Inr c \<Rightarrow> (Inr c, [addr])
      | Inl e \<Rightarrow> (case ips of
            [] \<Rightarrow> (Inl (Wrap ''netguard: dial: '' e ''''), [addr])
          | ip' # ips' \<Rightarrow> (case dial_in_order dial port ip' ips' of (r, addrs) \<Rightarrow> (r, addr # addrs))))"

declare dial_in_order.simps [simp del]

definition DialContext :: "(string \<Rightarrow> go_error + 'c) \<Rightarrow> validated_target \<Rightarrow> ((go_error + 'c) \<times> string list) option" where
  "DialContext dial t = (case vt_ips t of
       [] \<Rightarrow> None | ip # ips \<Rightarrow> Some (dial_in_order dial (vt_port t) ip ips))"

definition AllInAllowlist :: "net_validator \<Rightarrow> ip list \<Rightarrow> bool" where
  "AllInAllowlist v ips =
     (ips \<noteq> [] \<and> list_all (\<lambda>ip. list_ex (\<lambda>n. contains_ip n ip) (nv_allowlist v)) ips)"

section \<open>Configuration strings\<close>

fun parse_ports :: "string list \<Rightarrow> go_error + nat list" where
  "parse_ports [] = Inr []"
| "parse_ports (p # ps) = (let p = trim_space p in
     if p = [] then parse_ports ps
     else case parse_uint 16 p of
       None \<Rightarrow> Inl (NewError (''netguard: invalid port '' @ quoted p))
     | Some n \<Rightarrow>
         (if n = 0 then Inl (NewError (''netguard: invalid port '' @ quoted p))
          else case parse_ports ps of Inl e \<Rightarrow> Inl e | Inr ns \<Rightarrow> Inr (n # ns)))"

definition ParseAllowedPorts :: "string \<Rightarrow> go_error + nat list" where
  "ParseAllowedPorts s = (if s = [] then Inr [] else parse_ports (split_on CHR '','' s))"

definition ParsePrivateAllowlist :: "string \<Rightarrow> string list" where
  "ParsePrivateAllowlist s =
     (if s = [] then [] else filter (\<lambda>c. c \<noteq> []) (map trim_space (split_on CHR '','' s)))"

section \<open>The built-in networks\<close>

text \<open>The built-in lists parse - the program does not panic when it starts - into these networks.\<close>

definition net4 :: "ip \<Rightarrow> ip \<Rightarrow> ipnet" where
  "net4 a m = \<lparr>in_ip = a, in_mask = m\<rparr>"

lemma parsed_cloud_meta:
  "mustParseCIDRs cloudMeta = Some
     [net4 [169, 254, 169, 254] [255, 255, 255, 255],
      net4 [253, 0, 14, 194, 0, 0, 0, 0, 0, 0, 0, 0, 0, 0, 2, 84] (replicate 16 255),
      net4 [100, 100, 100, 200] [255, 255, 255, 255]]"
  by (simp add: mustParseCIDRs_def cloudMeta_def net4_def addr_simps)

lemma parsed_blocked:
  "mustParseCIDRs blocked = Some
     [net4 [127, 0, 0, 0] [255, 0, 0, 0], net4 (replicate 15 0 @ [1]) (replicate 16 255),
      net4 [10, 0, 0, 0] [255, 0, 0, 0], net4 [172, 16, 0, 0] [255, 240, 0, 0],
      net4 [192, 168, 0, 0] [255, 255, 0, 0], net4 [169, 254, 0, 0] [255, 255, 0, 0],
      net4 (254 # 128 # replicate 14 0) (255 # 192 # replicate 14 0), net4 [224, 0, 0, 0] [240, 0, 0, 0],
      net4 (255 # replicate 15 0) (255 # replicate 15 0), net4 [0, 0, 0, 0] [255, 0, 0, 0],
      net4 (replicate 16 0) (replicate 16 255), net4 (252 # replicate 15 0) (254 # replicate 15 0)]"
  by (simp add: mustParseCIDRs_def blocked_def net4_def addr_simps)

lemma builtin_lists:
  "cloudMetaCIDRs =
     [net4 [169, 254, 169, 254] [255, 255, 255, 255],
      net4 [253, 0, 14, 194, 0, 0, 0, 0, 0, 0, 0, 0, 0, 0, 2, 84] (replicate 16 255),
      net4 [100, 100, 100, 200] [255, 255, 255, 255]]"
  "blockedCIDRs =
     [net4 [127, 0, 0, 0] [255, 0, 0, 0], net4 (replicate 15 0 @ [1]) (replicate 16 255),
      net4 [10, 0, 0, 0] [255, 0, 0, 0], net4 [172, 16, 0, 0] [255, 240, 0, 0],
      net4 [192, 168, 0, 0] [255, 255, 0, 0], net4 [169, 254, 0, 0] [255, 255, 0, 0],
      net4 (254 # 128 # replicate 14 0) (255 # 192 # replicate 14 0), net4 [224, 0, 0, 0] [240, 0, 0, 0],
      net4 (255 # replicate 15 0) (255 # replicate 15 0), net4 [0, 0, 0, 0] [255, 0, 0, 0],
      net4 (replicate 16 0) (replicate 16 255), net4 (252 # replicate 15 0) (254 # replicate 15 0)]"
  by (simp_all only: cloudMetaCIDRs_def blockedCIDRs_def parsed_cloud_meta parsed_blocked option.case)

section \<open>Reserved addresses\<close>

text \<open>The addresses the built-in networks are about, written out: the reference for \<open>checkIP\<close>.\<close>

definition reserved_v4 :: "8 word \<Rightarrow> 8 word \<Rightarrow> 8 word \<Rightarrow> 8 word \<Rightarrow> bool" where
  "reserved_v4 a b c d =
     (a = 0 \<or> a = 10 \<or> a = 127 \<or> (a = 172 \<and> 16 \<le> b \<and> b \<le> 31) \<or> (a = 192 \<and> b = 168) \<or> (a = 169 \<and> b = 254) \<or>
      (224 \<le> a \<and> a \<le> 239) \<or> (a = 100 \<and> b = 100 \<and> c = 100 \<and> d = 200))"

definition reserved_v6 :: "ip \<Rightarrow> bool" where
  "reserved_v6 ip =
     (ip = replicate 16 0 \<or> ip = replicate 15 0 @ [1] \<or> (ip ! 0 = 254 \<and> 128 \<le> ip ! 1 \<and> ip ! 1 \<le> 191) \<or>
      ip ! 0 = 255 \<or> ip ! 0 = 252 \<or> ip ! 0 = 253)"

definition reserved :: "ip \<Rightarrow> bool" where
  "reserved ip = (if length ip = 4 then reserved_v4 (ip ! 0) (ip ! 1) (ip ! 2) (ip ! 3) else reserved_v6 ip)"

definition on_blocklist :: "ip \<Rightarrow> bool" where
  "on_blocklist ip = list_ex (\<lambda>n. contains_ip n ip) (cloudMetaCIDRs @ blockedCIDRs)"

lemma contains_net4:
  assumes "canonical a = a" and "length m = length a"
  shows "contains_ip (net4 a m) ip \<longleftrightarrow> length (canonical ip) = length a \<and> mask_ip a m = mask_ip (canonical ip) m"
  using assms by (simp add: contains_ip_def network_number_and_mask_def net4_def Let_def)

lemma four: "length ip = 4 \<Longrightarrow> ip = [ip ! 0, ip ! 1, ip ! 2, ip ! 3]"
  by (auto simp: numeral_eq_Suc length_Suc_conv)

lemma canonical_simps: "canonical [a, b, c, d] = [a, b, c, d]"
  by (simp add: canonical_def to4_def)

lemma canonical_v6: "length a = 16 \<Longrightarrow> take 12 a \<noteq> v4_prefix \<Longrightarrow> canonical a = a"
  by (simp add: canonical_def to4_def)

lemma blocklist_v4:
  assumes "canonical ip = [a, b, c, d]"
  shows "on_blocklist ip \<longleftrightarrow> reserved_v4 a b c d"
  unfolding on_blocklist_def builtin_lists
  by (simp add: contains_net4 canonical_simps canonical_v6 v4_prefix_def
      replicate_numeral assms reserved_v4_def byte_ranges) blast

lemma sixteen:
  "length (ip :: ip) = 16 \<Longrightarrow> \<exists>a b c d e f g h i j k l m n p q. ip = [a, b, c, d, e, f, g, h, i, j, k, l, m, n, p, q]"
  by (auto simp: numeral_eq_Suc length_Suc_conv)

lemma blocklist_v6:
  assumes "canonical ip = a" and "length a = 16"
  shows "on_blocklist ip \<longleftrightarrow> reserved_v6 a"
proof -
  obtain x0 x1 x2 x3 x4 x5 x6 x7 x8 x9 x10 x11 x12 x13 x14 x15 where
    a: "a = [x0, x1, x2, x3, x4, x5, x6, x7, x8, x9, x10, x11, x12, x13, x14, x15]"
    using sixteen [OF assms(2)] by blast
  note eval = contains_net4 canonical_simps canonical_v6 v4_prefix_def replicate_numeral assms(1) a byte_ranges
  have small: "\<not> contains_ip (net4 [b0, b1, b2, b3] [m0, m1, m2, m3]) ip" for b0 b1 b2 b3 m0 m1 m2 m3
    by (simp add: eval)
  have nets: "contains_ip (net4 (replicate 15 0 @ [1]) (replicate 16 255)) ip \<longleftrightarrow> a = replicate 15 0 @ [1]"
      "contains_ip (net4 (replicate 16 0) (replicate 16 255)) ip \<longleftrightarrow> a = replicate 16 0"
      "contains_ip (net4 (254 # 128 # replicate 14 0) (255 # 192 # replicate 14 0)) ip \<longleftrightarrow>
         a ! 0 = 254 \<and> 128 \<le> a ! 1 \<and> a ! 1 \<le> 191"
      "contains_ip (net4 (255 # replicate 15 0) (255 # replicate 15 0)) ip \<longleftrightarrow> a ! 0 = 255"
      "contains_ip (net4 (252 # replicate 15 0) (254 # replicate 15 0)) ip \<longleftrightarrow> a ! 0 = 252 \<or> a ! 0 = 253"
      "contains_ip (net4 [253, 0, 14, 194, 0, 0, 0, 0, 0, 0, 0, 0, 0, 0, 2, 84] (replicate 16 255)) ip \<longleftrightarrow>
         a = [253, 0, 14, 194, 0, 0, 0, 0, 0, 0, 0, 0, 0, 0, 2, 84]"
    by (simp_all add: eval eq_commute [of _ x0] eq_commute [of _ x15])
  show ?thesis
    unfolding on_blocklist_def builtin_lists append.simps
    by (simp only: list_ex_Cons_iff list_ex_Nil_iff small nets reserved_v6_def) auto
qed

lemma blocklist_reserved:
  assumes "length (canonical ip) = 4 \<or> length (canonical ip) = 16"
  shows "on_blocklist ip \<longleftrightarrow> reserved (canonical ip)"
proof (cases "length (canonical ip) = 4")
  case True
  then show ?thesis using blocklist_v4 [OF four [OF True]] by (simp add: reserved_def)
next
  case False
  then show ?thesis using blocklist_v6 [OF refl] assms by (simp add: reserved_def)
qed

lemma parse_ipv4_length: "parse_ipv4 s = Some a \<Longrightarrow> length a = 4"
proof -
  have "all_some xs = Some ys \<Longrightarrow> length ys = length xs" for xs :: "8 word option list" and ys
    by (induction xs arbitrary: ys rule: all_some.induct) auto
  then show "parse_ipv4 s = Some a \<Longrightarrow> length a = 4" by (fastforce simp: parse_ipv4_def Let_def split: if_splits)
qed

lemma ParseIP_length: "ParseIP s = Some ip \<Longrightarrow> length ip = 16"
proof -
  have "expand_gap r g = Some a \<Longrightarrow> length a = 16" for r g a
    by (auto simp: expand_gap_def split: option.splits if_splits)
  then have v6: "parse_ipv6 s = Some a \<Longrightarrow> length a = 16" for a
    by (auto simp: parse_ipv6_def split: if_splits bind_splits)
  show "ParseIP s = Some ip \<Longrightarrow> length ip = 16"
    by (auto simp: ParseIP_def parse_addr_def v4_prefix_def split: option.splits if_splits
        dest!: parse_ipv4_length v6)
qed

lemma canonical_length: "length ip = 16 \<Longrightarrow> length (canonical ip) = 4 \<or> length (canonical ip) = 16"
  by (simp add: canonical_def to4_def)

section \<open>What a validated target is\<close>

definition allowlisted :: "net_validator \<Rightarrow> ip \<Rightarrow> bool" where
  "allowlisted v ip = list_ex (\<lambda>n. contains_ip n ip) (nv_allowlist v)"

lemma checkIP_None: "checkIP v ip = None \<longleftrightarrow> allowlisted v ip \<or> \<not> on_blocklist ip"
  by (simp add: checkIP_def allowlisted_def on_blocklist_def)

lemma check_addrs_Inr:
  "check_addrs v addrs = Inr ips \<Longrightarrow>
     map ParseIP addrs = map Some ips \<and> (\<forall>ip \<in> set ips. checkIP v ip = None)"
  by (induction v addrs arbitrary: ips rule: check_addrs.induct) (auto split: option.splits sum.splits)

lemma net_validate_Inr:
  assumes "net_validate v host port = Inr t"
  obtains addrs where "validateHostString host = None" and "port \<in> set (nv_ports v)"
    and "nv_lookup v host = Inr addrs" and "addrs \<noteq> []" and "check_addrs v addrs = Inr (vt_ips t)"
    and "vt_host t = host" and "vt_port t = port"
  using assms by (auto simp: net_validate_def split: option.splits if_splits sum.splits)

text \<open>What validation guarantees about the addresses.\<close>

lemma net_validate_addresses:
  assumes "net_validate v host port = Inr t"
  shows "vt_ips t \<noteq> []" and "ip \<in> set (vt_ips t) \<Longrightarrow> allowlisted v ip \<or> \<not> reserved (canonical ip)"
proof -
  obtain addrs where t: "addrs \<noteq> []" "check_addrs v addrs = Inr (vt_ips t)"
    using net_validate_Inr [OF assms] by metis
  note ips = check_addrs_Inr [OF t(2)]
  then show "vt_ips t \<noteq> []" using t(1) by (metis map_is_Nil_conv)
  assume ip: "ip \<in> set (vt_ips t)"
  then have "Some ip \<in> set (map ParseIP addrs)" using ips by simp
  then obtain a where "ParseIP a = Some ip" by (metis imageE list.set_map)
  then show "allowlisted v ip \<or> \<not> reserved (canonical ip)"
    using ips ip blocklist_reserved [OF canonical_length [OF ParseIP_length]] by (auto simp: checkIP_None)
qed

end
