(* ===== verification/Net_Properties.thy ===== *)
theory Net_Properties
  imports Net_Guard
begin

text \<open>
  The guarantees of the address guard (internal/netguard/validator.go): what a validated target is,
  that the built-in networks are exactly the reserved addresses, that dialling stays on the validated
  addresses, and the round trips of addresses and port lists through their text.
\<close>

section \<open>Dialling\<close>

lemma dial_in_order_spec:
  "dial_in_order dial port ip ips = (r, addrs) \<Longrightarrow>
     addrs \<noteq> [] \<and> (\<exists>n. addrs = map (\<lambda>a. JoinHostPort (ip_text a) (format_uint port)) (take n (ip # ips))) \<and>
     (\<forall>a \<in> set (butlast addrs). \<exists>e. dial a = Inl e) \<and>
     (case r of Inr c \<Rightarrow> dial (last addrs) = Inr c
      | Inl _ \<Rightarrow> length addrs = length (ip # ips) \<and> (\<exists>e. dial (last addrs) = Inl e))"
proof (induction ips arbitrary: ip r addrs)
  case Nil
  then show ?case
    by (auto simp: dial_in_order.simps [of dial port ip "[]"] Let_def split: sum.splits intro: exI [of _ 1])
next
  case (Cons ip' ips)
  let ?text = "\<lambda>a. JoinHostPort (ip_text a) (format_uint port)"
  show ?case
  proof (cases "dial (?text ip)")
    case (Inr c)
    then have "r = Inr c" "addrs = [?text ip]"
      using Cons.prems by (simp_all add: dial_in_order.simps [of dial port ip "ip' # ips"] Let_def)
    with Inr show ?thesis by (auto intro: exI [of _ 1])
  next
    case (Inl e)
    obtain r' as where rest: "dial_in_order dial port ip' ips = (r', as)" by fastforce
    then have eq: "r = r'" "addrs = ?text ip # as"
      using Cons.prems Inl by (auto simp: dial_in_order.simps [of dial port ip "ip' # ips"] Let_def)
    from Cons.IH [OF rest] obtain n where n: "as = map ?text (take n (ip' # ips))" "as \<noteq> []"
        "\<forall>a \<in> set (butlast as). \<exists>e. dial a = Inl e"
        "case r' of Inr c \<Rightarrow> dial (last as) = Inr c
           | Inl _ \<Rightarrow> length as = length (ip' # ips) \<and> (\<exists>e. dial (last as) = Inl e)"
      by blast
    have "addrs = map ?text (take (Suc n) (ip # ip' # ips))" using n(1) eq by simp
    then have "\<exists>k. addrs = map ?text (take k (ip # ip' # ips))" by blast
    moreover have "\<forall>a \<in> set (butlast addrs). \<exists>e. dial a = Inl e" using n(2,3) eq Inl by auto
    moreover have "length addrs = Suc (length as)" "last addrs = last as" "addrs \<noteq> []" using n(2) eq by auto
    ultimately show ?thesis using n(4) eq(1) by (cases r') auto
  qed
qed

section \<open>Texts of addresses and ports\<close>

lemma no_char_digits: "\<not> is_digit c \<Longrightarrow> c \<notin> set (format_uint n)"
  using format_uint_digits [of n] by (auto simp: list_all_iff)

lemma format_uint_leading: "10 \<le> n \<Longrightarrow> hd (format_uint n) \<noteq> CHR ''0''"
proof (induction n rule: format_uint.induct)
  case (1 n)
  have step: "format_uint n = format_uint (n div 10) @ [digit_char (n mod 10)]"
    using "1.prems" by (subst format_uint.simps) simp
  show ?case
  proof (cases "10 \<le> n div 10")
    case True
    then show ?thesis using 1 step by simp
  next
    case False
    then have small: "n div 10 < 10" "n div 10 \<noteq> 0" using "1.prems" by auto
    have "hd (format_uint n) = digit_char (n div 10)"
      unfolding step using small(1) by (subst format_uint.simps) simp
    moreover have "digit_val (digit_char (n div 10)) \<noteq> digit_val CHR ''0''"
      using small digit_char_props(2) [of "n div 10"] by (simp add: digit_val_def [of "CHR ''0''"])
    ultimately show ?thesis by metis
  qed
qed

lemma parse_octet_text: "parse_octet (format_uint (unat (b :: 8 word))) = Some b"
proof -
  have "unat b < 256" using unsigned_less [of b] by simp
  moreover have "2 \<le> length (format_uint (unat b)) \<Longrightarrow> 10 \<le> unat b"
    by (subst (asm) format_uint.simps) (auto split: if_splits)
  ultimately show ?thesis
    using format_uint_digits [of "unat b"] format_uint_leading [of "unat b"] by (auto simp: parse_octet_def)
qed

lemma parse_ipv4_text:
  assumes "length a = 4"
  shows "parse_ipv4 (ipv4_text a) = Some a"
proof -
  have "split_on CHR ''.'' (ipv4_text a) = map (\<lambda>b. format_uint (unat b)) a"
    unfolding ipv4_text_def
    by (rule join_split) (use assms in \<open>auto simp: no_char_digits is_digit_def\<close>)
  moreover have "all_some (map parse_octet (map (\<lambda>b. format_uint (unat b)) a)) = Some a"
    by (induction a) (simp_all add: parse_octet_text)
  ultimately show ?thesis using assms by (simp add: parse_ipv4_def)
qed

lemma find_dot: "list_all (\<lambda>c. is_digit c) p \<Longrightarrow>
    find (\<lambda>c. c \<in> {CHR ''.'', CHR '':'', CHR ''%''}) (p @ CHR ''.'' # s) = Some CHR ''.''"
  by (induction p) (auto simp: is_digit_def)

lemma parse_addr_text:
  assumes "length a = 4"
  shows "parse_addr (ipv4_text a) = Some a"
proof -
  obtain b c d e where a: "a = [b, c, d, e]" using four [OF assms] by metis
  have "ipv4_text a = format_uint (unat b) @ CHR ''.'' # join_with ''.'' (map (\<lambda>b. format_uint (unat b)) [c, d, e])"
    by (simp add: a ipv4_text_def)
  then have "find (\<lambda>c. c \<in> {CHR ''.'', CHR '':'', CHR ''%''}) (ipv4_text a) = Some CHR ''.''"
    using find_dot [OF format_uint_digits] by simp
  then show ?thesis unfolding parse_addr_def by (simp add: parse_ipv4_text [OF assms])
qed

lemma parse_ports_format:
  "(\<And>n. n \<in> set ns \<Longrightarrow> 0 < n \<and> n < 65536) \<Longrightarrow> parse_ports (map format_uint ns) = Inr ns"
proof (induction ns)
  case (Cons n ns)
  then have "parse_uint 16 (format_uint n) = Some n" "0 < n" by (simp_all add: parse_format_uint)
  with Cons show ?case by (simp add: digit_solid format_uint_digits)
qed simp

lemma parse_ports_range: "parse_ports ps = Inr ns \<Longrightarrow> n \<in> set ns \<Longrightarrow> 0 < n \<and> n < 65536"
proof (induction ps arbitrary: ns rule: parse_ports.induct)
  case (2 p ps)
  then show ?case
    by (auto simp: Let_def split: if_splits option.splits sum.splits dest: parse_uint_bound [where bits = 16, simplified])
qed simp

section \<open>A sample policy\<close>

definition sample_policy :: net_validator where
  "sample_policy = \<lparr>nv_ports = [3306], nv_allowlist = [],
     nv_lookup = (\<lambda>host. Inr [''93.184.216.34'', ''1.1.1.1''])\<rparr>"

lemma sample_validated:
  "net_validate sample_policy ''example.org'' 3306 = Inr \<lparr>vt_host = ''example.org'', vt_port = 3306,
     vt_ips = [v4_prefix @ [93, 184, 216, 34], v4_prefix @ [1, 1, 1, 1]]\<rparr>"
proof -
  have "ParseIP ''93.184.216.34'' = Some (v4_prefix @ [93, 184, 216, 34])" "ParseIP ''1.1.1.1'' = Some (v4_prefix @ [1, 1, 1, 1])"
    by (simp_all add: ParseIP_def addr_simps)
  moreover have "checkIP sample_policy (v4_prefix @ [93, 184, 216, 34]) = None"
      "checkIP sample_policy (v4_prefix @ [1, 1, 1, 1]) = None"
    by (simp_all add: checkIP_None blocklist_v4 canonical_def to4_def v4_prefix_def replicate_numeral reserved_v4_def
        word_le_nat_alt)
  ultimately show ?thesis
    by (simp add: net_validate_def validateHostString_def contains_byte_def count_byte_def has_prefix_def
        sample_policy_def)
qed

section \<open>Properties\<close>

text \<open>
  C14. A validated target is safe to connect to: its port is allowed, its host smuggles no URI part, and
  its addresses - at least one - are exactly the resolver's answers, each of them allowlisted or
  outside every reserved range (loopback, private, link-local, multicast, unspecified, unique local,
  cloud metadata), an IPv4 address in IPv6 form included.
\<close>

theorem validated_target_is_safe:
  assumes "net_validate v host port = Inr t"
  shows "vt_host t = host \<and> vt_port t = port \<and> port \<in> set (nv_ports v) \<and> host \<noteq> [] \<and>
    set host \<inter> {CHR ''@'', CHR ''/'', CHR ''?'', CHR ''#''} = {} \<and> vt_ips t \<noteq> [] \<and>
    (\<exists>addrs. nv_lookup v host = Inr addrs \<and> map ParseIP addrs = map Some (vt_ips t)) \<and>
    (\<forall>ip \<in> set (vt_ips t). allowlisted v ip \<or> \<not> reserved (canonical ip))"
proof -
  obtain addrs where t: "validateHostString host = None" "port \<in> set (nv_ports v)" "nv_lookup v host = Inr addrs"
      "addrs \<noteq> []" "check_addrs v addrs = Inr (vt_ips t)" "vt_host t = host" "vt_port t = port"
    using net_validate_Inr [OF assms] .
  note ips = check_addrs_Inr [OF t(5)]
  note net_validate_addresses [OF assms]
  moreover have "host \<noteq> []" "set host \<inter> {CHR ''@'', CHR ''/'', CHR ''?'', CHR ''#''} = {}"
    using t(1) by (auto simp: validateHostString_def contains_byte_def split: if_splits)
  ultimately show ?thesis using t ips by blast
qed

theorem validated_target_is_safe_witness:
  "3306 \<in> set (nv_ports sample_policy) \<and> \<not> reserved (canonical (v4_prefix @ [93, 184, 216, 34]))"
  using validated_target_is_safe [OF sample_validated]
  by (simp add: allowlisted_def) (simp add: sample_policy_def)

text \<open>
  C22. The built-in networks are exactly the reserved addresses: for every address text the parser
  accepts, the check passes just when the address is allowlisted or not reserved.
\<close>

theorem blocklist_is_reserved:
  assumes "ParseIP s = Some ip"
  shows "checkIP v ip = (if allowlisted v ip \<or> \<not> reserved (canonical ip) then None else Some (Sentinel ErrAddressBlocked))"
proof -
  have "on_blocklist ip \<longleftrightarrow> reserved (canonical ip)"
    using blocklist_reserved canonical_length [OF ParseIP_length [OF assms]] .
  then show ?thesis by (auto simp: checkIP_def allowlisted_def on_blocklist_def)
qed

theorem blocklist_is_reserved_witness:
  "checkIP sample_policy (v4_prefix @ [127, 0, 0, 1]) = Some (Sentinel ErrAddressBlocked)"
proof -
  have "ParseIP ''127.0.0.1'' = Some (v4_prefix @ [127, 0, 0, 1])" by (simp add: ParseIP_def addr_simps)
  moreover have "canonical (v4_prefix @ [127, 0, 0, 1]) = [127, 0, 0, 1]"
    by (simp add: canonical_def to4_def v4_prefix_def replicate_numeral)
  ultimately show ?thesis
    using blocklist_is_reserved [of "''127.0.0.1''" "v4_prefix @ [127, 0, 0, 1]" sample_policy]
    by (simp add: allowlisted_def sample_policy_def reserved_def reserved_v4_def)
qed

text \<open>
  Dialling is pinned: dialling a validated target never panics and only ever dials the texts of its
  validated addresses with its port, in order, stopping at the first that answers; it fails only after
  all of them were tried.
\<close>

theorem dial_stays_on_validated_addresses:
  assumes "net_validate v host port = Inr t"
  shows "\<exists>r addrs n. DialContext dial t = Some (r, addrs) \<and>
    addrs = map (\<lambda>a. JoinHostPort (ip_text a) (format_uint port)) (take n (vt_ips t)) \<and> addrs \<noteq> [] \<and>
    (\<forall>a \<in> set (butlast addrs). \<exists>e. dial a = Inl e) \<and>
    (case r of Inr c \<Rightarrow> dial (last addrs) = Inr c | Inl _ \<Rightarrow> length addrs = length (vt_ips t))"
proof -
  obtain addrs where t: "addrs \<noteq> []" "check_addrs v addrs = Inr (vt_ips t)" "vt_port t = port"
    using net_validate_Inr [OF assms] by metis
  obtain ip ips where ips: "vt_ips t = ip # ips"
    using t check_addrs_Inr [OF t(2)] by (cases "vt_ips t") auto
  obtain r as where run: "dial_in_order dial port ip ips = (r, as)" by fastforce
  from dial_in_order_spec [OF run] show ?thesis
    using ips t(3) run by (auto simp: DialContext_def split: sum.splits)
qed

theorem dial_stays_on_validated_addresses_witness:
  "\<exists>n. [''93.184.216.34:3306''] = map (\<lambda>a. JoinHostPort (ip_text a) (format_uint 3306))
     (take n [v4_prefix @ [93, 184, 216, 34], v4_prefix @ [1, 1, 1, 1]])"
proof -
  let ?t = "\<lparr>vt_host = ''example.org'', vt_port = 3306, vt_ips = [v4_prefix @ [93, 184, 216, 34], v4_prefix @ [1, 1, 1, 1]]\<rparr>"
  have dialled: "JoinHostPort (ip_text (v4_prefix @ [93, 184, 216, 34])) (format_uint 3306) = ''93.184.216.34:3306''"
    by (simp add: ip_text_def to4_def v4_prefix_def replicate_numeral ipv4_text_def JoinHostPort_def
        format_uint.simps digit_char_def char_of_def bit_simps)
  obtain r addrs n where d: "DialContext (\<lambda>a. Inr ()) ?t = Some (r, addrs)"
      "addrs = map (\<lambda>a. JoinHostPort (ip_text a) (format_uint 3306)) (take n (vt_ips ?t))"
    using dial_stays_on_validated_addresses [OF sample_validated, of "\<lambda>a. Inr ()"] by blast
  have "addrs = [''93.184.216.34:3306'']"
    using d(1) dialled by (simp add: DialContext_def dial_in_order.simps)
  with d(2) show ?thesis by auto
qed

text \<open>
  Addresses survive their text: what the dialler writes for an IPv4 address is parsed back to the
  same address in its 16-byte form, so a pinned address is the address that was checked.
\<close>

theorem ipv4_text_roundtrip:
  assumes "length a = 4"
  shows "ParseIP (ip_text a) = Some (v4_prefix @ a) \<and> canonical (v4_prefix @ a) = a"
  using assms parse_addr_text [OF assms]
  by (simp add: ParseIP_def ip_text_def to4_def canonical_def v4_prefix_def)

theorem ipv4_text_roundtrip_witness:
  "ParseIP (ip_text [10, 0, 0, 1]) = Some (v4_prefix @ [10, 0, 0, 1])"
  using ipv4_text_roundtrip [of "[10, 0, 0, 1]"] by simp

text \<open>
  Port lists are read faithfully: every port read from the configuration is a TCP port, and the
  comma-separated text of any nonempty list of TCP ports is read back as that list.
\<close>

theorem allowed_ports_are_read_faithfully:
  shows "(ParseAllowedPorts s = Inr ns \<longrightarrow> set ns \<subseteq> {1..65535}) \<and>
    (ps \<noteq> [] \<longrightarrow> set ps \<subseteq> {1..65535} \<longrightarrow> ParseAllowedPorts (join_with '','' (map format_uint ps)) = Inr ps)"
proof (intro conjI impI)
  assume "ParseAllowedPorts s = Inr ns"
  then show "set ns \<subseteq> {1..65535}"
    using parse_ports_range [of "split_on CHR '','' s" ns]
    by (force simp: ParseAllowedPorts_def Suc_le_eq split: if_splits)
next
  assume ps: "ps \<noteq> []" "set ps \<subseteq> {1..65535}"
  have "join_with '','' (map format_uint ps) \<noteq> []" using ps(1) by (cases ps; cases "tl ps") auto
  moreover have "split_on CHR '','' (join_with '','' (map format_uint ps)) = map format_uint ps"
    by (rule join_split) (use ps in \<open>auto simp: no_char_digits is_digit_def\<close>)
  moreover have "parse_ports (map format_uint ps) = Inr ps"
    by (rule parse_ports_format) (use ps(2) in force)
  ultimately show "ParseAllowedPorts (join_with '','' (map format_uint ps)) = Inr ps"
    by (simp add: ParseAllowedPorts_def)
qed

theorem allowed_ports_are_read_faithfully_witness:
  "ParseAllowedPorts (join_with '','' (map format_uint [3306, 5432])) = Inr [3306, 5432]"
  using allowed_ports_are_read_faithfully [of "[]" "[]" "[3306, 5432]"] by simp

end
