(* ===== verification/Datasource_Repo.thy ===== *)
theory Datasource_Repo
  imports System Go_Strings
begin

text \<open>
  The data_sources repository (internal/datasource/repository.go, model.go). An operation is a
  statement together with the reading of its outcome; the same operation runs on the pool, where it
  is one external call, or inside a transaction. The collation of the label column is an argument:
  two labels are the same for the unique key when their collation keys \<open>ck\<close> are.
\<close>

section \<open>Operations on the pool and in a transaction\<close>

record ('a, 'b) operation =
  op_stmt :: "instant \<Rightarrow> world \<Rightarrow> (go_error + 'a) \<times> world"
  op_read :: "go_error + 'a \<Rightarrow> 'b"

definition on_pool :: "('a, 'b) operation \<Rightarrow> 'b prog" where
  "on_pool op = do {
     t \<leftarrow> now;
     r \<leftarrow> ext (op_stmt op t);
     State_Monad.return (op_read op r)
   }"

text \<open>
  A transaction runs on the world it locked; each of its statements may fail, as the list of faults
  says. \<open>with_tx\<close> is gorm's \<open>Transaction\<close>: the body's error rolls back and is returned; a failing BEGIN
  or COMMIT is the outcome of the external call.
\<close>

type_synonym 'a tx = "(world \<times> go_error option list, 'a) state"

definition in_tx :: "('a, 'b) operation \<Rightarrow> 'b tx" where
  "in_tx op = State (\<lambda>(w, faults). case faults of
       Some e # fs \<Rightarrow> (op_read op (Inl e), (w, fs))
     | _ \<Rightarrow> (case op_stmt op (w_clock w) w of (r, w') \<Rightarrow> (op_read op r, (w', tl faults))))"

definition run_tx :: "go_error option list \<Rightarrow> (go_error + 'a) tx \<Rightarrow> world \<Rightarrow> (go_error + 'a) \<times> world" where
  "run_tx faults body w = (case run_state body (w, faults) of
       (Inl e, _) \<Rightarrow> (Inl e, w)
     | (Inr x, (w', _)) \<Rightarrow> (Inr x, w'))"

definition with_tx :: "go_error option list \<Rightarrow> (go_error + 'a) tx \<Rightarrow> (go_error + 'a) prog" where
  "with_tx faults body = ext (run_tx faults body)"

lemma with_tx_quiet:
  "run_state (with_tx fs body) (quiet w) = (fst (run_tx fs body w), quiet (snd (run_tx fs body w)))"
  by (simp add: with_tx_def)

lemma on_pool_quiet:
  "run_state (on_pool op) (quiet w) =
     (op_read op (fst (op_stmt op (w_clock w) w)), quiet (snd (op_stmt op (w_clock w) w)))"
  by (simp add: on_pool_def)

section \<open>Statements\<close>

definition duplicate_entry :: go_error where
  "duplicate_entry = NewError ''Error 1062''"

fun isDuplicateEntry :: "go_error \<Rightarrow> bool" where
  "isDuplicateEntry (Wrap _ e _) = isDuplicateEntry e"
| "isDuplicateEntry e = (e = duplicate_entry)"

definition live_source :: "nat \<Rightarrow> nat \<Rightarrow> data_source \<Rightarrow> bool" where
  "live_source k userID r = (ds_id r = k \<and> ds_user_id r = userID \<and> ds_deleted_at r = None)"

definition insert_source :: "(string \<Rightarrow> string) \<Rightarrow> data_source \<Rightarrow> world \<Rightarrow> (go_error + data_source) \<times> world" where
  "insert_source ck ds w =
     (if list_ex (\<lambda>r. ds_user_id r = ds_user_id ds \<and> ck (ds_label r) = ck (ds_label ds)) (w_sources w)
      then (Inl duplicate_entry, w)
      else let ds' = ds\<lparr>ds_id := w_next_source_id w\<rparr> in
        (Inr ds', w\<lparr>w_sources := w_sources w @ [ds'], w_next_source_id := Suc (w_next_source_id w)\<rparr>))"

definition select_source :: "(data_source \<Rightarrow> bool) \<Rightarrow> world \<Rightarrow> (go_error + data_source) \<times> world" where
  "select_source P w = (case sql_first P (w_sources w) of
       None \<Rightarrow> Inl (Sentinel GormErrRecordNotFound) | Some r \<Rightarrow> Inr r, w)"

definition update_sources :: "(data_source \<Rightarrow> bool) \<Rightarrow> (data_source \<Rightarrow> data_source) \<Rightarrow> world \<Rightarrow> (go_error + nat) \<times> world" where
  "update_sources P f w = (Inr (sql_affected P f (w_sources w)), w\<lparr>w_sources := sql_update P f (w_sources w)\<rparr>)"

text \<open>An UPDATE that may run into the unique key on (user_id, label).\<close>

definition label_taken :: "(string \<Rightarrow> string) \<Rightarrow> (data_source \<Rightarrow> bool) \<Rightarrow> (data_source \<Rightarrow> data_source) \<Rightarrow> data_source list \<Rightarrow> bool" where
  "label_taken ck P f rows = list_ex (\<lambda>r. P r \<and> list_ex (\<lambda>r'. ds_id r' \<noteq> ds_id r \<and>
     ds_user_id r' = ds_user_id r \<and> ck (ds_label r') = ck (ds_label (f r))) rows) rows"

definition update_unique :: "(string \<Rightarrow> string) \<Rightarrow> (data_source \<Rightarrow> bool) \<Rightarrow> (data_source \<Rightarrow> data_source) \<Rightarrow>
    world \<Rightarrow> (go_error + nat) \<times> world" where
  "update_unique ck P f w =
     (if label_taken ck P f (w_sources w) then (Inl duplicate_entry, w) else update_sources P f w)"

section \<open>The repository\<close>

definition not_found_or :: "string \<Rightarrow> go_error + 'a \<Rightarrow> go_error + 'a" where
  "not_found_or p r = (case r of
       Inl e \<Rightarrow> (if errors_is e GormErrRecordNotFound then Inl (Sentinel DsErrNotFound) else Inl (Wrap p e ''''))
     | Inr x \<Rightarrow> Inr x)"

definition source_create :: "(string \<Rightarrow> string) \<Rightarrow> data_source \<Rightarrow> (data_source, go_error + data_source) operation" where
  "source_create ck ds = \<lparr>op_stmt = (\<lambda>t. insert_source ck ds),
     op_read = (\<lambda>r. case r of
         Inl e \<Rightarrow> (if isDuplicateEntry e then Inl (Sentinel DsErrDuplicateLabel)
                  else Inl (Wrap ''datasource: create: '' e ''''))
       | Inr d \<Rightarrow> Inr d)\<rparr>"

definition source_find :: "nat \<Rightarrow> nat \<Rightarrow> (data_source, go_error + data_source) operation" where
  "source_find k userID = \<lparr>op_stmt = (\<lambda>t. select_source (live_source k userID)),
     op_read = not_found_or ''datasource: find: ''\<rparr>"

definition source_find_raw :: "nat \<Rightarrow> (data_source, go_error + data_source) operation" where
  "source_find_raw k = \<lparr>op_stmt = (\<lambda>t. select_source (\<lambda>r. ds_id r = k)),
     op_read = not_found_or ''datasource: find raw: ''\<rparr>"

definition source_list :: "nat \<Rightarrow> (data_source list, go_error + data_source list) operation" where
  "source_list userID = \<lparr>op_stmt = (\<lambda>t w. (Inr (sort_key ds_id
         (filter (\<lambda>r. ds_user_id r = userID \<and> ds_deleted_at r = None) (w_sources w))), w)),
     op_read = (\<lambda>r. case r of Inl e \<Rightarrow> Inl (Wrap ''datasource: list: '' e '''') | Inr ds \<Rightarrow> Inr ds)\<rparr>"

record update_patch =
  up_label :: "string option"
  up_host :: "string option"
  up_port :: "nat option"
  up_database_name :: "string option"
  up_username :: "string option"
  up_password_cipher :: "string option"
  up_tls_mode :: "string option"
  up_connect_timeout_sec :: "nat option"

definition set_if :: "'v option \<Rightarrow> 'v \<Rightarrow> 'v" where
  "set_if new old = (case new of None \<Rightarrow> old | Some v \<Rightarrow> v)"

definition apply_patch :: "instant \<Rightarrow> update_patch \<Rightarrow> data_source \<Rightarrow> data_source" where
  "apply_patch t p r = r\<lparr>
     ds_label := set_if (up_label p) (ds_label r),
     ds_host := set_if (up_host p) (ds_host r),
     ds_port := set_if (up_port p) (ds_port r),
     ds_database_name := set_if (up_database_name p) (ds_database_name r),
     ds_username := set_if (up_username p) (ds_username r),
     ds_password_ciphertext := set_if (up_password_cipher p) (ds_password_ciphertext r),
     ds_tls_mode := set_if (up_tls_mode p) (ds_tls_mode r),
     ds_connect_timeout_sec := set_if (up_connect_timeout_sec p) (ds_connect_timeout_sec r),
     ds_updated_at := t\<rparr>"

definition source_update :: "(string \<Rightarrow> string) \<Rightarrow> nat \<Rightarrow> nat \<Rightarrow> update_patch \<Rightarrow> (nat, go_error option) operation" where
  "source_update ck k userID p = \<lparr>op_stmt = (\<lambda>t. update_unique ck (live_source k userID) (apply_patch t p)),
     op_read = (\<lambda>r. case r of
         Inl e \<Rightarrow> (if isDuplicateEntry e then Some (Sentinel DsErrDuplicateLabel)
                  else Some (Wrap ''datasource: update: '' e ''''))
       | Inr n \<Rightarrow> (if n = 0 then Some (Sentinel DsErrNotFound) else None))\<rparr>"

definition source_soft_delete :: "nat \<Rightarrow> nat \<Rightarrow> instant \<Rightarrow> (nat, go_error option) operation" where
  "source_soft_delete k userID at = \<lparr>op_stmt = (\<lambda>t. update_sources (live_source k userID)
         (\<lambda>r. r\<lparr>ds_deleted_at := Some at, ds_updated_at := at\<rparr>)),
     op_read = (\<lambda>r. case r of
         Inl e \<Rightarrow> Some (Wrap ''datasource: soft delete: '' e '''')
       | Inr n \<Rightarrow> (if n = 0 then Some (Sentinel DsErrNotFound) else None))\<rparr>"

definition activeStatuses :: "string list" where
  "activeStatuses = [''pending'', ''queued'', ''generating'', ''validating'', ''executing'']"

definition has_active_jobs :: "nat \<Rightarrow> (nat, go_error + bool) operation" where
  "has_active_jobs k = \<lparr>op_stmt = (\<lambda>t w. (Inr (sql_count (\<lambda>j. jb_data_source_id j = Some (int k) \<and>
         status_text (jb_status j) \<in> set activeStatuses) (w_jobs w)), w)),
     op_read = (\<lambda>r. case r of
         Inl e \<Rightarrow> Inl (Wrap ''datasource: has active jobs: '' e '''') | Inr n \<Rightarrow> Inr (0 < n))\<rparr>"

definition update_ciphertext :: "nat \<Rightarrow> string \<Rightarrow> (nat, go_error option) operation" where
  "update_ciphertext k c = \<lparr>op_stmt = (\<lambda>t. update_sources (\<lambda>r. ds_id r = k)
         (\<lambda>r. r\<lparr>ds_password_ciphertext := c, ds_updated_at := t\<rparr>)),
     op_read = (\<lambda>r. case r of Inl e \<Rightarrow> Some (Wrap ''datasource: update ciphertext: '' e '''') | Inr n \<Rightarrow> None)\<rparr>"

definition exists_for_user :: "nat \<Rightarrow> nat \<Rightarrow> (nat, go_error + bool) operation" where
  "exists_for_user k userID = \<lparr>op_stmt = (\<lambda>t w. (Inr (sql_count (live_source k userID) (w_sources w)), w)),
     op_read = (\<lambda>r. case r of
         Inl e \<Rightarrow> Inl (Wrap ''datasource: exists for user: '' e '''') | Inr n \<Rightarrow> Inr (0 < n))\<rparr>"

section \<open>Evolution of the table\<close>

text \<open>
  Rows keep their id, owner and creation time, a deleted row stays deleted; ids and labels stay unique.
\<close>

definition label_key :: "(string \<Rightarrow> string) \<Rightarrow> data_source \<Rightarrow> nat \<times> string" where
  "label_key ck r = (ds_user_id r, ck (ds_label r))"

definition sources_wf :: "(string \<Rightarrow> string) \<Rightarrow> world \<Rightarrow> bool" where
  "sources_wf ck w = (distinct (map ds_id (w_sources w)) \<and> (\<forall>r \<in> set (w_sources w). ds_id r < w_next_source_id w) \<and>
     distinct (map (label_key ck) (w_sources w)))"

definition source_row_evolves :: "data_source \<Rightarrow> data_source \<Rightarrow> bool" where
  "source_row_evolves r r' = (ds_id r' = ds_id r \<and> ds_user_id r' = ds_user_id r \<and> ds_created_at r' = ds_created_at r \<and>
     (ds_deleted_at r \<noteq> None \<longrightarrow> ds_deleted_at r' = ds_deleted_at r))"

abbreviation source_at :: "world \<Rightarrow> nat \<Rightarrow> data_source option" where
  "source_at w k \<equiv> lookup ds_id k (w_sources w)"

definition sources_evolve :: "(string \<Rightarrow> string) \<Rightarrow> world \<Rightarrow> world \<Rightarrow> bool" where
  "sources_evolve ck w w' =
     ((\<forall>k r. source_at w k = Some r \<longrightarrow> (\<exists>r'. source_at w' k = Some r' \<and> source_row_evolves r r')) \<and>
      (sources_wf ck w \<longrightarrow> sources_wf ck w') \<and> w_clock w \<le> w_clock w')"

lemma source_row_evolves_refl [simp]: "source_row_evolves r r"
  by (simp add: source_row_evolves_def)

lemma source_row_evolves_trans:
  "source_row_evolves a b \<Longrightarrow> source_row_evolves b c \<Longrightarrow> source_row_evolves a c"
  by (auto simp: source_row_evolves_def)

lemma sources_evolve_same:
  "w_sources w' = w_sources w \<Longrightarrow> w_next_source_id w' = w_next_source_id w \<Longrightarrow> w_clock w \<le> w_clock w' \<Longrightarrow>
     sources_evolve ck w w'"
  by (auto simp: sources_evolve_def sources_wf_def)

interpretation source_evol: evolution "sources_evolve ck" for ck
proof
  show "sources_evolve ck w w" for w by (simp add: sources_evolve_same)
  show "sources_evolve ck a c" if "sources_evolve ck a b" and "sources_evolve ck b c" for a b c
    using that unfolding sources_evolve_def by (meson source_row_evolves_trans order_trans)
  show "sources_evolve ck w (tick d w)" for w d
    by (rule sources_evolve_same) (simp_all add: tick_def)
qed

text \<open>An update that keeps identities and runs into no label of another row keeps the table well formed.\<close>

definition keeps_identity :: "(data_source \<Rightarrow> bool) \<Rightarrow> (data_source \<Rightarrow> data_source) \<Rightarrow> bool" where
  "keeps_identity P f = (\<forall>r. ds_id (f r) = ds_id r \<and> ds_user_id (f r) = ds_user_id r \<and>
     (P r \<longrightarrow> source_row_evolves r (f r)))"

lemma distinct_map_update:
  assumes "distinct (map g rows)"
    and "\<And>r r'. r \<in> set rows \<Longrightarrow> r' \<in> set rows \<Longrightarrow> r \<noteq> r' \<Longrightarrow> g (h r) \<noteq> g (h r')"
  shows "distinct (map g (map h rows))"
  using assms by (auto simp: distinct_map inj_on_def)

lemma update_sources_evolve:
  assumes id: "keeps_identity P f"
    and one: "\<And>r r'. r \<in> set (w_sources w) \<Longrightarrow> r' \<in> set (w_sources w) \<Longrightarrow> P r \<Longrightarrow> P r' \<Longrightarrow> ds_id r = ds_id r'"
    and free: "\<not> label_taken ck P f (w_sources w)"
  shows "sources_evolve ck w (snd (update_sources P f w))"
proof -
  have key: "\<And>r. ds_id (f r) = ds_id r" using id by (simp add: keeps_identity_def)
  have ids: "map ds_id (sql_update P f (w_sources w)) = map ds_id (w_sources w)"
    by (rule keys_update) (rule key)
  have "sources_wf ck (snd (update_sources P f w))" if wf: "sources_wf ck w"
  proof -
    let ?h = "\<lambda>r. if P r then f r else r"
    have "label_key ck (?h r) \<noteq> label_key ck (?h r')"
      if r: "r \<in> set (w_sources w)" "r' \<in> set (w_sources w)" "r \<noteq> r'" for r r'
    proof -
      have ne: "ds_id r \<noteq> ds_id r'" "label_key ck r \<noteq> label_key ck r'"
        using wf r by (auto simp: sources_wf_def distinct_map inj_on_def)
      then have "\<not> (P r \<and> P r')" using one r by blast
      then show ?thesis
        using ne free r id by (auto simp: label_taken_def list_ex_iff label_key_def keeps_identity_def) metis+
    qed
    moreover have "distinct (map (label_key ck) (w_sources w))" using wf by (simp add: sources_wf_def)
    ultimately have "distinct (map (label_key ck) (sql_update P f (w_sources w)))"
      unfolding sql_update_def by (intro distinct_map_update) blast+
    moreover have "\<forall>r \<in> set (sql_update P f (w_sources w)). ds_id r < w_next_source_id w"
      using wf key by (auto simp: in_sql_update sources_wf_def)
    ultimately show ?thesis
      using wf ids by (simp add: sources_wf_def update_sources_def)
  qed
  moreover have "\<exists>r'. source_at (snd (update_sources P f w)) k = Some r' \<and> source_row_evolves r r'"
    if "source_at w k = Some r" for k r
    using that id by (simp add: update_sources_def lookup_update [where key = ds_id and f = f, OF key] keeps_identity_def)
  ultimately show ?thesis by (simp add: sources_evolve_def update_sources_def)
qed

lemma live_source_one: "live_source k u r \<Longrightarrow> live_source k u r' \<Longrightarrow> ds_id r = ds_id r'"
  by (simp add: live_source_def)

lemma update_unique_evolves:
  assumes "keeps_identity (live_source k u) f"
  shows "sources_evolve ck w (snd (update_unique ck (live_source k u) f w))"
proof (cases "label_taken ck (live_source k u) f (w_sources w)")
  case True
  then show ?thesis by (simp add: update_unique_def source_evol.R_refl)
next
  case False
  have "sources_evolve ck w (snd (update_sources (live_source k u) f w))"
    by (rule update_sources_evolve [OF assms live_source_one False])
  with False show ?thesis by (simp add: update_unique_def)
qed

lemma insert_source_evolves: "sources_evolve ck w (snd (insert_source ck ds w))"
proof (cases "list_ex (\<lambda>r. ds_user_id r = ds_user_id ds \<and> ck (ds_label r) = ck (ds_label ds)) (w_sources w)")
  case True
  then show ?thesis by (simp add: insert_source_def source_evol.R_refl)
next
  case False
  let ?d = "ds\<lparr>ds_id := w_next_source_id w\<rparr>"
  let ?w = "w\<lparr>w_sources := w_sources w @ [?d], w_next_source_id := Suc (w_next_source_id w)\<rparr>"
  have "label_key ck ?d \<notin> label_key ck ` set (w_sources w)"
    using False by (auto simp: label_key_def list_ex_iff)
  then have "sources_wf ck w \<Longrightarrow> sources_wf ck ?w"
    by (auto simp: sources_wf_def less_Suc_eq)
  moreover have "snd (insert_source ck ds w) = ?w"
    using False by (simp add: insert_source_def Let_def)
  ultimately show ?thesis by (simp add: sources_evolve_def)
qed

lemma label_free:
  "(\<And>r. ds_label (f r) = ds_label r) \<Longrightarrow> sources_wf ck w \<Longrightarrow> \<not> label_taken ck P f (w_sources w)"
  by (auto simp: label_taken_def list_ex_iff sources_wf_def label_key_def distinct_map inj_on_def)

text \<open>Statements on data sources concern no other table.\<close>

definition only_sources :: "world \<Rightarrow> world \<Rightarrow> bool" where
  "only_sources w w' = (\<exists>rows n. w' = w\<lparr>w_sources := rows, w_next_source_id := n\<rparr>)"

lemma only_sources_refl [simp]: "only_sources w w"
  unfolding only_sources_def by (rule exI [of _ "w_sources w"], rule exI [of _ "w_next_source_id w"]) simp

lemma only_sourcesI [intro]: "only_sources w (w\<lparr>w_sources := rows, w_next_source_id := n\<rparr>)"
  by (auto simp: only_sources_def)

lemma only_sources_trans:
  assumes "only_sources a b" and "only_sources b c"
  shows "only_sources a c"
proof -
  obtain rows n where b: "b = a\<lparr>w_sources := rows, w_next_source_id := n\<rparr>"
    using assms(1) by (auto simp: only_sources_def)
  obtain rows' n' where "c = b\<lparr>w_sources := rows', w_next_source_id := n'\<rparr>"
    using assms(2) by (auto simp: only_sources_def)
  then have "c = a\<lparr>w_sources := rows', w_next_source_id := n'\<rparr>" using b by simp
  then show ?thesis by auto
qed

lemma only_sources_stmts [simp]:
  "only_sources w (snd (insert_source ck ds w))" "only_sources w (snd (select_source P w))"
  "only_sources w (snd (update_sources Q f w))" "only_sources w (snd (update_unique ck Q f w))"
proof -
  show "only_sources w (snd (update_sources Q f w))"
    unfolding only_sources_def update_sources_def
    by (rule exI [of _ "sql_update Q f (w_sources w)"], rule exI [of _ "w_next_source_id w"]) simp
  then show "only_sources w (snd (update_unique ck Q f w))" by (simp add: update_unique_def)
  show "only_sources w (snd (insert_source ck ds w))"
    by (auto simp: insert_source_def Let_def)
qed (simp add: select_source_def)

lemma sys_only_sources:
  assumes "only_sources w w'"
  shows "sys_evolves w w'"
proof -
  obtain rows n where w': "w' = w\<lparr>w_sources := rows, w_next_source_id := n\<rparr>"
    using assms by (auto simp: only_sources_def)
  have grow: "broker_grows w w'" by (simp add: w' broker_grows_same)
  have "accounted w \<Longrightarrow> accounted w'"
    by (erule accounted_step [OF _ grow]) (auto simp: w')
  with grow show ?thesis
    by (simp add: w' sys_evolves_def outbox_evolves_same job_evolves_same_jobs pm_evolves_same)
qed

section \<open>Reasoning about transactions\<close>

text \<open>
  \<open>tx_triple P body Q\<close>: whatever statements fail, the body started on a world satisfying \<open>P\<close> ends with a
  result and a world satisfying \<open>Q\<close>.
\<close>

definition faults_ok :: "go_error option list \<Rightarrow> bool" where
  "faults_ok fs = (\<forall>e. Some e \<in> set fs \<longrightarrow> driver_error e)"

definition tx_triple :: "(world \<Rightarrow> bool) \<Rightarrow> 'a tx \<Rightarrow> ('a \<Rightarrow> world \<Rightarrow> bool) \<Rightarrow> bool" where
  "tx_triple P body Q = (\<forall>w fs. faults_ok fs \<longrightarrow> P w \<longrightarrow>
     (case run_state body (w, fs) of (r, w', fs') \<Rightarrow> Q r w' \<and> faults_ok fs'))"

lemma faults_ok_simps [simp]: "faults_ok []" "faults_ok (x # fs) \<longleftrightarrow> (\<forall>e. x = Some e \<longrightarrow> driver_error e) \<and> faults_ok fs"
  by (auto simp: faults_ok_def)

lemma tx_tripleD:
  assumes "tx_triple P body Q" and "faults_ok fs" and "P w" and "run_state body (w, fs) = (r, w', fs')"
  shows "Q r w' \<and> faults_ok fs'"
proof -
  have "case run_state body (w, fs) of (r, w', fs') \<Rightarrow> Q r w' \<and> faults_ok fs'"
    using assms(1) [unfolded tx_triple_def, rule_format, OF assms(2,3)] .
  then show ?thesis by (simp add: assms(4))
qed

lemma tx_tripleI:
  assumes "\<And>w fs r w' fs'. faults_ok fs \<Longrightarrow> P w \<Longrightarrow> run_state body (w, fs) = (r, w', fs') \<Longrightarrow> Q r w' \<and> faults_ok fs'"
  shows "tx_triple P body Q"
  unfolding tx_triple_def
proof (intro allI impI)
  fix w fs assume w: "faults_ok fs" "P w"
  obtain r w' fs' where r: "run_state body (w, fs) = (r, w', fs')" by (metis surj_pair)
  then show "case run_state body (w, fs) of (r, w', fs') \<Rightarrow> Q r w' \<and> faults_ok fs'"
    using assms [OF w r] by simp
qed

lemma tx_return: "(\<And>w. P w \<Longrightarrow> Q x w) \<Longrightarrow> tx_triple P (State_Monad.return x) Q"
  by (simp add: tx_triple_def)

lemma tx_bind:
  assumes "tx_triple P p M" and "\<And>x. tx_triple (M x) (g x) Q"
  shows "tx_triple P (State_Monad.bind p g) Q"
proof (rule tx_tripleI)
  fix w fs r w' fs'
  assume w: "faults_ok fs" "P w" and r: "run_state (State_Monad.bind p g) (w, fs) = (r, w', fs')"
  obtain x w1 fs1 where p: "run_state p (w, fs) = (x, w1, fs1)" by (metis surj_pair)
  from r p have g: "run_state (g x) (w1, fs1) = (r, w', fs')" by simp
  note mid = tx_tripleD [OF assms(1) w p]
  show "Q r w' \<and> faults_ok fs'"
    using tx_tripleD [OF assms(2) mid [THEN conjunct2] mid [THEN conjunct1] g] .
qed

lemma tx_op:
  assumes "\<And>w. P w \<Longrightarrow> Q (op_read op (fst (op_stmt op (w_clock w) w))) (snd (op_stmt op (w_clock w) w))"
    and "\<And>w e. P w \<Longrightarrow> driver_error e \<Longrightarrow> Q (op_read op (Inl e)) w"
  shows "tx_triple P (in_tx op) Q"
  unfolding tx_triple_def
proof (intro allI impI)
  fix w fs assume ok: "faults_ok fs" and P: "P w"
  consider e fs' where "fs = Some e # fs'" | "fs = [] \<or> (\<exists>fs'. fs = None # fs')"
    by (metis list.exhaust not_None_eq)
  then show "case run_state (in_tx op) (w, fs) of (r, w', fs') \<Rightarrow> Q r w' \<and> faults_ok fs'"
  proof cases
    case 1
    then show ?thesis using assms(2) [OF P] ok by (simp add: in_tx_def)
  next
    case 2
    then have "run_state (in_tx op) (w, fs) =
        (op_read op (fst (op_stmt op (w_clock w) w)), snd (op_stmt op (w_clock w) w), tl fs)"
      by (elim disjE exE) (simp_all add: in_tx_def case_prod_beta)
    moreover have "faults_ok (tl fs)" using ok 2 by (elim disjE exE) simp_all
    ultimately show ?thesis using assms(1) [OF P] by simp
  qed
qed

lemma tx_pre: "tx_triple P' p Q \<Longrightarrow> (\<And>w. P w \<Longrightarrow> P' w) \<Longrightarrow> tx_triple P p Q"
  by (rule tx_tripleI) (rule tx_tripleD)

lemma run_tx_cases:
  assumes "tx_triple P body Q" and "faults_ok fs" and "P w"
  shows "(\<exists>e w'. run_tx fs body w = (Inl e, w) \<and> Q (Inl e) w') \<or>
    (\<exists>x w'. run_tx fs body w = (Inr x, w') \<and> Q (Inr x) w')"
proof -
  obtain r w' fs' where r: "run_state body (w, fs) = (r, w', fs')" by (metis surj_pair)
  then have "Q r w'" using tx_tripleD [OF assms r] by simp
  then show ?thesis by (cases r) (auto simp: run_tx_def r)
qed

lemma driver_error_not_gorm: "driver_error e \<Longrightarrow> \<not> errors_is e GormErrRecordNotFound"
  by (auto simp: driver_error_def)

section \<open>Operations and transactions among others\<close>

context evolution
begin

lemma triple_pool:
  assumes "stable R P"
    and "\<And>w t. P w \<Longrightarrow> Q (op_read op (fst (op_stmt op t w))) (snd (op_stmt op t w))"
    and "\<And>w e. P w \<Longrightarrow> driver_error e \<Longrightarrow> Q (op_read op (Inl e)) w"
    and "\<And>w t e. P w \<Longrightarrow> driver_error e \<Longrightarrow> Q (op_read op (Inl e)) (snd (op_stmt op t w))"
  shows "triple R P (on_pool op) Q"
  unfolding on_pool_def
proof (rule triple_bind [OF triple_now [where Q = "\<lambda>_. P"]], assumption)
  fix t
  show "triple R P (State_Monad.bind (ext (op_stmt op t)) (\<lambda>r. State_Monad.return (op_read op r))) Q"
    by (rule triple_bind [OF triple_ext [OF assms(1), where Q = "\<lambda>r. Q (op_read op r)"]])
       (use assms(2-4) in \<open>auto intro: triple_return\<close>)
qed

lemma triple_with_tx:
  assumes "stable R P" and "tx_triple P body M" and "faults_ok fs"
    and commit: "\<And>x w. M (Inr x) w \<Longrightarrow> Q (Inr x) w"
    and abort: "\<And>e w w'. P w \<Longrightarrow> M (Inl e) w' \<Longrightarrow> Q (Inl e) w"
    and fails: "\<And>e w. P w \<Longrightarrow> driver_error e \<Longrightarrow> Q (Inl e) w"
    and lost: "\<And>e x w. M (Inr x) w \<Longrightarrow> driver_error e \<Longrightarrow> Q (Inl e) w"
  shows "triple R P (with_tx fs body) Q"
  unfolding with_tx_def
proof (rule triple_ext [OF assms(1)])
  fix w assume w: "P w"
  from run_tx_cases [OF assms(2,3) w] consider e w' where "run_tx fs body w = (Inl e, w)" "M (Inl e) w'"
    | x w' where "run_tx fs body w = (Inr x, w')" "M (Inr x) w'" by blast
  note run = this
  from run show "Q (fst (run_tx fs body w)) (snd (run_tx fs body w))"
    by cases (simp_all add: abort [OF w] commit)
  fix e assume e: "driver_error e"
  show "Q (Inl e) w" by (rule fails [OF w e])
  from run show "Q (Inl e) (snd (run_tx fs body w))"
    by cases (simp_all add: fails [OF w e] lost [OF _ e])
qed

end

text \<open>
  The repository's promise to its clients. \<open>R\<close> is the evolution a client keeps, \<open>acts u\<close> the users it
  acts for, \<open>good\<close> the rows it writes: as long as \<open>R\<close> admits the statements below, it is kept by the
  client's operations, whatever faults occur.
\<close>

locale source_client = evolution +
  fixes ck :: "string \<Rightarrow> string" and acts :: "nat \<Rightarrow> bool" and good :: "data_source \<Rightarrow> bool"
  assumes R_sources: "R w w' \<Longrightarrow> sources_evolve ck w w'"
    and R_insert: "acts (ds_user_id ds) \<Longrightarrow> good ds \<Longrightarrow> R w (snd (insert_source ck ds w))"
    and R_update: "acts u \<Longrightarrow> keeps_identity (live_source k u) f \<Longrightarrow> (\<And>r. good r \<Longrightarrow> good (f r)) \<Longrightarrow>
        R w (snd (update_unique ck (live_source k u) f w))"
    and R_cipher: "sources_wf ck w \<Longrightarrow> source_at w k = Some r \<Longrightarrow> acts (ds_user_id r) \<Longrightarrow>
        R w (snd (update_sources (\<lambda>r. ds_id r = k) (\<lambda>r. r\<lparr>ds_password_ciphertext := c, ds_updated_at := t\<rparr>) w))"
    and R_delete: "acts u \<Longrightarrow> sources_wf ck w \<Longrightarrow>
        R w (snd (update_sources (live_source k u) (\<lambda>r. r\<lparr>ds_deleted_at := Some t, ds_updated_at := t\<rparr>) w))"
begin

definition sees :: "(world \<Rightarrow> bool) \<Rightarrow> bool" where
  "sees P = (stable R P \<and> (\<forall>w. P w \<longrightarrow> sources_wf ck w))"

lemma sees_step: "sees P \<Longrightarrow> P w \<Longrightarrow> R w w' \<Longrightarrow> P w'"
  unfolding sees_def stable_def by blast

lemma sees_wf: "sees P \<Longrightarrow> P w \<Longrightarrow> sources_wf ck w"
  unfolding sees_def by blast

lemma sees_stable: "sees P \<Longrightarrow> stable R P"
  unfolding sees_def by blast

lemma sees_history: "sees (\<lambda>w. R w0 w \<and> sources_wf ck w0)"
  unfolding sees_def stable_def using R_trans R_sources unfolding sources_evolve_def by blast

end

lemma keeps_identity_patch [simp]: "keeps_identity (live_source k u) (apply_patch t p)"
  by (simp add: keeps_identity_def apply_patch_def source_row_evolves_def live_source_def)

lemma keeps_identity_delete [simp]:
  "keeps_identity (live_source k u) (\<lambda>r. r\<lparr>ds_deleted_at := Some t, ds_updated_at := t'\<rparr>)"
  by (simp add: keeps_identity_def source_row_evolves_def live_source_def)

lemma cipher_evolves:
  assumes "sources_wf ck w"
  shows "sources_evolve ck w
    (snd (update_sources (\<lambda>r. ds_id r = k) (\<lambda>r. r\<lparr>ds_password_ciphertext := c, ds_updated_at := t\<rparr>) w))"
  by (rule update_sources_evolve [OF _ _ label_free [OF _ assms]])
     (simp_all add: keeps_identity_def source_row_evolves_def)

lemma delete_evolves_sources:
  assumes "sources_wf ck w"
  shows "sources_evolve ck w
    (snd (update_sources (live_source k u) (\<lambda>r. r\<lparr>ds_deleted_at := Some t, ds_updated_at := t'\<rparr>) w))"
  by (rule update_sources_evolve [OF keeps_identity_delete live_source_one label_free [OF _ assms]]) simp_all

interpretation source_evol: source_client "sources_evolve ck" ck "\<lambda>_. True" "\<lambda>_. True" for ck
  by unfold_locales (simp_all add: insert_source_evolves update_unique_evolves cipher_evolves delete_evolves_sources)

end
