(* ===== verification/Base64.thy ===== *)
theory Base64
  imports Go_Strings
begin

text \<open>
  Package encoding/base64's \<open>StdEncoding\<close>: padded base64 with the standard alphabet. Decoding
  skips line breaks, insists on the padding, ignores the spare bits of the last character and
  reports anything else as an error. Encoding is undone by decoding.
\<close>

definition pad :: char where "pad = CHR ''=''"

text \<open>The alphabet: letters, small letters, digits, plus and slash.\<close>

definition sextet :: "nat \<Rightarrow> char" where
  "sextet v = (let n = v mod 64 in
     char_of (if n < 26 then n + 65 else if n < 52 then n + 71 else if n < 62 then n - 4
       else if n = 62 then 43 else 47))"

definition sextet_val :: "char \<Rightarrow> nat option" where
  "sextet_val c = (let b = byte c in
     if 65 \<le> b \<and> b \<le> 90 then Some (b - 65)
     else if 97 \<le> b \<and> b \<le> 122 then Some (b - 71)
     else if 48 \<le> b \<and> b \<le> 57 then Some (b + 4)
     else if b = 43 then Some 62
     else if b = 47 then Some 63
     else None)"

fun base64_encode :: "string \<Rightarrow> string" where
  "base64_encode [] = []"
| "base64_encode [x] = [sextet (byte x div 4), sextet (byte x * 16), pad, pad]"
| "base64_encode [x, y] =
     [sextet (byte x div 4), sextet (byte x * 16 + byte y div 16), sextet (byte y * 4), pad]"
| "base64_encode (x # y # z # s) =
     sextet (byte x div 4) # sextet (byte x * 16 + byte y div 16) # sextet (byte y * 4 + byte z div 64) #
     sextet (byte z) # base64_encode s"

text \<open>The groups of four characters, line breaks removed.\<close>

fun decode_groups :: "string \<Rightarrow> string option" where
  "decode_groups [] = Some []"
| "decode_groups (a # b # c # d # s) = (case (sextet_val a, sextet_val b) of
       (Some u, Some v) \<Rightarrow>
         (if c = pad \<and> d = pad \<and> s = [] then Some [char_of (u * 4 + v div 16)]
          else (case sextet_val c of
              None \<Rightarrow> None
            | Some w \<Rightarrow>
                (if d = pad \<and> s = []
                 then Some [char_of (u * 4 + v div 16), char_of (v mod 16 * 16 + w div 4)]
                 else (case sextet_val d of
                     None \<Rightarrow> None
                   | Some x \<Rightarrow> map_option (\<lambda>r. char_of (u * 4 + v div 16) # char_of (v mod 16 * 16 + w div 4) #
                         char_of (w mod 4 * 64 + x) # r) (decode_groups s)))))
     | _ \<Rightarrow> None)"
| "decode_groups s = None"

definition base64_decode :: "string \<Rightarrow> string option" where
  "base64_decode s = decode_groups (filter (\<lambda>c. byte c \<noteq> 10 \<and> byte c \<noteq> 13) s)"

section \<open>Decoding undoes encoding\<close>

lemma byte_less [simp]: "byte c < 256"
  by (simp add: byte_def)

lemma char_of_byte [simp]: "char_of (byte c) = c"
  by (simp add: byte_def)

lemma byte_char_of: "n < 256 \<Longrightarrow> byte (char_of n) = n"
  by (simp add: byte_def)

lemma pad_facts [simp]: "byte pad = 61" "sextet_val pad = None"
  by (simp_all add: pad_def byte_def sextet_val_def)

lemma byte_sextet: "byte (sextet v) = (let n = v mod 64 in
    if n < 26 then n + 65 else if n < 52 then n + 71 else if n < 62 then n - 4 else if n = 62 then 43 else 47)"
proof -
  have "v mod 64 < 64" by simp
  then show ?thesis unfolding sextet_def Let_def by (subst byte_char_of) auto
qed

lemma sextet_facts:
  "sextet_val (sextet v) = Some (v mod 64)" "sextet v \<noteq> pad"
  "byte (sextet v) \<noteq> 10" "byte (sextet v) \<noteq> 13"
proof -
  have lt: "v mod 64 < 64" by simp
  then show "sextet_val (sextet v) = Some (v mod 64)"
    by (auto simp: sextet_val_def byte_sextet Let_def)
  have "byte (sextet v) \<noteq> 61 \<and> byte (sextet v) \<noteq> 10 \<and> byte (sextet v) \<noteq> 13"
    using lt by (auto simp: byte_sextet Let_def split: if_splits)
  then show "sextet v \<noteq> pad" "byte (sextet v) \<noteq> 10" "byte (sextet v) \<noteq> 13"
    by auto
qed

text \<open>The bits of three bytes, cut into sextets and put together again.\<close>

lemma byte_div_mod [simp]: "byte c div 4 mod 64 = byte c div 4"
  using byte_less [of c] by (simp add: less_mult_imp_div_less)

lemma cut16:
  fixes x q :: nat
  shows "q < 16 \<Longrightarrow> (x * 16 + q) mod 64 = 16 * (x mod 4) + q"
  using mod_mult2_eq [of "x * 16 + q" 16 4] by simp

lemma cut4:
  fixes y q :: nat
  shows "q < 4 \<Longrightarrow> (y * 4 + q) mod 64 = 4 * (y mod 16) + q"
  using mod_mult2_eq [of "y * 4 + q" 4 16] by simp

lemma bits_first:
  fixes x q :: nat
  shows "q < 16 \<Longrightarrow> x div 4 * 4 + (x * 16 + q) mod 64 div 16 = x"
  by (simp add: cut16)

lemma bits_second:
  fixes x y q :: nat
  shows "y < 256 \<Longrightarrow> q < 4 \<Longrightarrow> (x * 16 + y div 16) mod 64 mod 16 * 16 + (y * 4 + q) mod 64 div 4 = y"
  by (simp add: cut16 cut4 less_mult_imp_div_less)

lemma bits_third:
  fixes y z :: nat
  shows "z < 256 \<Longrightarrow> (y * 4 + z div 64) mod 64 mod 4 * 64 + z mod 64 = z"
  by (simp add: cut4 less_mult_imp_div_less)

lemma no_line_breaks: "filter (\<lambda>c. byte c \<noteq> 10 \<and> byte c \<noteq> 13) (base64_encode s) = base64_encode s"
  by (induction s rule: base64_encode.induct) (simp_all add: sextet_facts)

lemma decode_groups_encode: "decode_groups (base64_encode s) = Some s"
proof (induction s rule: base64_encode.induct)
  case (2 x)
  then show ?case using bits_first [of 0 "byte x"] by (simp add: sextet_facts)
next
  case (3 x y)
  then show ?case
    using bits_first [of "byte y div 16" "byte x"] bits_second [of "byte y" 0 "byte x"]
    by (simp add: sextet_facts less_mult_imp_div_less)
next
  case (4 x y z s)
  then show ?case
    using bits_first [of "byte y div 16" "byte x"] bits_second [of "byte y" "byte z div 64" "byte x"]
      bits_third [of "byte z" "byte y"]
    by (simp add: sextet_facts less_mult_imp_div_less)
qed simp

lemma base64_roundtrip [simp]: "base64_decode (base64_encode s) = Some s"
  by (simp add: base64_decode_def no_line_breaks decode_groups_encode)

end
