(* ===== verification/Crypto.thy ===== *)
theory Crypto
  imports Base64
begin

text \<open>
  Passwords at rest (internal/crypto/aes_gcm.go): the text form of a ciphertext, its version prefix
  and the additional data that binds it to a row. AES-256-GCM itself is an argument: sealing and
  opening by key, nonce and additional data.
\<close>

definition keyLen :: nat where "keyLen = 32"
definition versionPrefix :: string where "versionPrefix = ''v1:''"
definition nonceSize :: nat where "nonceSize = 12"

record aead =
  ae_seal :: "string \<Rightarrow> string \<Rightarrow> string \<Rightarrow> string \<Rightarrow> string"
  ae_open :: "string \<Rightarrow> string \<Rightarrow> string \<Rightarrow> string \<Rightarrow> string option"

record cipher = ci_key :: string

definition NewCipher :: "string \<Rightarrow> go_error + cipher" where
  "NewCipher key =
     (if length key \<noteq> keyLen
      then Inl (NewError (''crypto: key must be exactly 32 bytes, got '' @ format_uint (length key)))
      else Inr \<lparr>ci_key = key\<rparr>)"

text \<open>\<open>aes.NewCipher\<close>: the key sizes of AES.\<close>

definition aes_new_cipher :: "string \<Rightarrow> go_error option" where
  "aes_new_cipher key =
     (if length key \<in> {16, 24, 32} then None
      else Some (NewError (''crypto/aes: invalid key size '' @ format_uint (length key))))"

text \<open>The random bytes of the nonce are an argument, or the error of the random source.\<close>

definition Encrypt :: "aead \<Rightarrow> cipher \<Rightarrow> go_error + string \<Rightarrow> string \<Rightarrow> string \<Rightarrow> go_error + string" where
  "Encrypt A c random plaintext aad = (case aes_new_cipher (ci_key c) of
       Some e \<Rightarrow> Inl (Wrap ''crypto: new cipher: '' e '''')
     | None \<Rightarrow> (case random of
           Inl e \<Rightarrow> Inl (Wrap ''crypto: nonce: '' e '''')
         | Inr nonce \<Rightarrow> Inr (versionPrefix @ base64_encode (nonce @ ae_seal A (ci_key c) nonce aad plaintext))))"

definition Decrypt :: "aead \<Rightarrow> cipher \<Rightarrow> string \<Rightarrow> string \<Rightarrow> go_error + string" where
  "Decrypt A c ciphertext aad =
     (if \<not> has_prefix ciphertext versionPrefix then Inl (Sentinel ErrDecryptFailed)
      else case base64_decode (drop (length versionPrefix) ciphertext) of
        None \<Rightarrow> Inl (Sentinel ErrDecryptFailed)
      | Some raw \<Rightarrow>
          (if length raw < nonceSize then Inl (Sentinel ErrDecryptFailed)
           else case aes_new_cipher (ci_key c) of
             Some e \<Rightarrow> Inl (Wrap ''crypto: new cipher: '' e '''')
           | None \<Rightarrow> (case ae_open A (ci_key c) (take nonceSize raw) aad (drop nonceSize raw) of
                 None \<Rightarrow> Inl (Sentinel ErrDecryptFailed)
               | Some plain \<Rightarrow> Inr plain)))"

definition AAD :: "nat \<Rightarrow> string" where
  "AAD dataSourceID = ''data-source:'' @ format_uint dataSourceID"

section \<open>Lemmas\<close>

lemma AAD_inject [simp]: "AAD i = AAD j \<longleftrightarrow> i = j"
  by (simp add: AAD_def)

lemma NewCipher_key: "NewCipher key = Inr c \<Longrightarrow> aes_new_cipher (ci_key c) = None"
  by (auto simp: NewCipher_def aes_new_cipher_def keyLen_def split: if_splits)

text \<open>Decrypting what was encrypted opens exactly what was sealed, whatever additional data is given.\<close>

lemma Decrypt_Encrypt:
  assumes "Encrypt A c (Inr nonce) p aad = Inr s" and "length nonce = nonceSize"
  shows "Decrypt A c s aad' = (case ae_open A (ci_key c) nonce aad' (ae_seal A (ci_key c) nonce aad p) of
      None \<Rightarrow> Inl (Sentinel ErrDecryptFailed) | Some plain \<Rightarrow> Inr plain)"
  using assms
  by (auto simp: Encrypt_def Decrypt_def has_prefix_def versionPrefix_def split: option.splits)

text \<open>
  C26. A stored password belongs to its row: with a cipher from a key of 32 bytes and an AEAD that opens
  what it sealed and refuses other additional data, encryption succeeds, the ciphertext carries the
  version prefix and decrypts to the password under its row's additional data, and to
  ErrDecryptFailed under that of any other row.
\<close>

theorem ciphertext_is_bound_to_its_row:
  assumes "NewCipher key = Inr c" and "length nonce = nonceSize"
    and "\<And>a p. ae_open A key nonce a (ae_seal A key nonce a p) = Some p"
    and "\<And>a a' p. a \<noteq> a' \<Longrightarrow> ae_open A key nonce a' (ae_seal A key nonce a p) = None"
  shows "\<exists>s. Encrypt A c (Inr nonce) password (AAD row) = Inr s \<and> has_prefix s versionPrefix \<and>
    Decrypt A c s (AAD row) = Inr password \<and>
    (\<forall>other. other \<noteq> row \<longrightarrow> Decrypt A c s (AAD other) = Inl (Sentinel ErrDecryptFailed))"
proof -
  have key: "ci_key c = key" using assms(1) by (auto simp: NewCipher_def split: if_splits)
  obtain s where s: "Encrypt A c (Inr nonce) password (AAD row) = Inr s"
    using NewCipher_key [OF assms(1)] by (simp add: Encrypt_def)
  then have "has_prefix s versionPrefix"
    by (auto simp: Encrypt_def has_prefix_def split: option.splits)
  then show ?thesis using s Decrypt_Encrypt [OF s assms(2)] assms(3,4) by (auto simp: key)
qed

text \<open>An AEAD to run the code with: the additional data in front, each byte announced by a one.\<close>

fun plain_seal :: "string \<Rightarrow> string \<Rightarrow> string" where
  "plain_seal [] p = CHR ''0'' # p"
| "plain_seal (c # a) p = CHR ''1'' # c # plain_seal a p"

fun plain_open :: "string \<Rightarrow> string \<Rightarrow> string option" where
  "plain_open [] (d # p) = (if d = CHR ''0'' then Some p else None)"
| "plain_open (c # a) (d # e # p) = (if d = CHR ''1'' \<and> e = c then plain_open a p else None)"
| "plain_open a p = None"

definition plain_aead :: aead where
  "plain_aead = \<lparr>ae_seal = (\<lambda>k n a p. plain_seal a p), ae_open = (\<lambda>k n a s. plain_open a s)\<rparr>"

lemma plain_open_seal: "plain_open a (plain_seal a p) = Some p"
  by (induction a) auto

lemma plain_open_other: "a \<noteq> a' \<Longrightarrow> plain_open a' (plain_seal a p) = None"
proof (induction a arbitrary: a')
  case Nil
  then show ?case by (cases a'; cases p) auto
next
  case (Cons c a)
  then show ?case by (cases a') auto
qed

theorem ciphertext_is_bound_to_its_row_witness:
  "\<exists>s c. NewCipher (replicate 32 CHR ''k'') = Inr c \<and> Decrypt plain_aead c s (AAD 7) = Inr ''secret'' \<and>
     Decrypt plain_aead c s (AAD 8) = Inl (Sentinel ErrDecryptFailed)"
proof -
  let ?c = "\<lparr>ci_key = replicate 32 CHR ''k''\<rparr>"
  have "NewCipher (replicate 32 CHR ''k'') = Inr ?c" by (simp add: NewCipher_def keyLen_def)
  with ciphertext_is_bound_to_its_row [of "replicate 32 CHR ''k''" ?c "replicate 12 CHR ''n''" plain_aead "''secret''" 7]
  show ?thesis
    by (fastforce simp: nonceSize_def plain_aead_def plain_open_seal plain_open_other)
qed

end
