(* ===== verification/Datasource_Service.thy ===== *)
theory Datasource_Service
  imports Datasource_Repo Crypto Net_Guard
begin

text \<open>
  The data source service (internal/datasource/service.go, errors.go): input validation, create,
  read, update and delete, the connection test, and the connection the worker runs a query on. The
  encrypter and the collation of labels are fields of the service; each transaction takes the
  faults of its statements, each connection the random bytes and the answers of the driver.
\<close>

section \<open>Errors for clients\<close>

definition errBadInput :: "string \<Rightarrow> go_error" where
  "errBadInput msg = DsServiceError ''DATA_SOURCE_INVALID_INPUT'' msg 400"

definition errNotFound :: go_error where
  "errNotFound = DsServiceError ''DATA_SOURCE_NOT_FOUND'' ''data source not found'' 404"

definition errDuplicateLabel :: go_error where
  "errDuplicateLabel = DsServiceError ''DATA_SOURCE_LABEL_CONFLICT'' ''label already in use'' 409"

definition errHasActiveJobs :: go_error where
  "errHasActiveJobs = DsServiceError ''DATA_SOURCE_HAS_ACTIVE_JOBS'' ''data source has active jobs'' 422"

definition errConnectFailed :: "string \<Rightarrow> go_error" where
  "errConnectFailed reason = DsServiceError ''DATA_SOURCE_CONNECT_FAILED'' reason 422"

definition errInternal :: go_error where
  "errInternal = DsServiceError ''DATA_SOURCE_INTERNAL_ERROR'' ''internal error'' 500"

section \<open>Input validation\<close>

text \<open>The dash of the messages is the UTF-8 encoding of U+2013.\<close>

definition up_to :: "string \<Rightarrow> string \<Rightarrow> string" where
  "up_to what n = what @ '' must be 1'' @ [CHR 0xE2, CHR 0x80, CHR 0x93] @ n @ '' characters''"

definition maxLabelLen :: nat where "maxLabelLen = 100"
definition maxHostLen :: nat where "maxHostLen = 253"
definition maxDBNameLen :: nat where "maxDBNameLen = 64"
definition maxUsernameLen :: nat where "maxUsernameLen = 64"
definition maxPasswordLen :: nat where "maxPasswordLen = 128"
definition defaultConnectTimeoutSec :: nat where "defaultConnectTimeoutSec = 5"

lemmas max_lens = maxLabelLen_def maxHostLen_def maxDBNameLen_def maxUsernameLen_def maxPasswordLen_def

definition TLSDisabled :: string where "TLSDisabled = ''disabled''"
definition TLSVerifyFull :: string where "TLSVerifyFull = ''verify-full''"

definition validateLabel :: "string \<Rightarrow> go_error option" where
  "validateLabel s = (let s = trim_space s in
     if s = [] \<or> maxLabelLen < rune_count s then Some (errBadInput (up_to ''label'' ''100'')) else None)"

definition validateHost :: "string \<Rightarrow> go_error option" where
  "validateHost s = (let s = trim_space s in
     if s = [] \<or> maxHostLen < length s then Some (errBadInput (up_to ''host'' ''253''))
     else if list_ex (contains_byte s) ''@/?# '' then Some (errBadInput ''host contains invalid characters'')
     else None)"

definition validateDBName :: "string \<Rightarrow> go_error option" where
  "validateDBName s =
     (if trim_space s = [] \<or> maxDBNameLen < rune_count s then Some (errBadInput (up_to ''database_name'' ''64'')) else None)"

definition validateUsername :: "string \<Rightarrow> go_error option" where
  "validateUsername s =
     (if trim_space s = [] \<or> maxUsernameLen < rune_count s then Some (errBadInput (up_to ''username'' ''64'')) else None)"

definition validateTLSMode :: "string \<Rightarrow> go_error option" where
  "validateTLSMode m =
     (if m = TLSDisabled \<or> m = TLSVerifyFull then None
      else Some (DsServiceError ''DATA_SOURCE_TLS_NOT_PERMITTED''
             (''tls_mode must be '' @ [CHR 0x27] @ ''disabled'' @ [CHR 0x27] @ '' or '' @ [CHR 0x27] @ ''verify-full'' @ [CHR 0x27]) 400))"

text \<open>The first failing check decides.\<close>

fun first_error :: "go_error option list \<Rightarrow> go_error option" where
  "first_error [] = None"
| "first_error (None # es) = first_error es"
| "first_error (Some e # es) = Some e"

lemma first_error_None [simp]: "first_error es = None \<longleftrightarrow> (\<forall>e \<in> set es. e = None)"
  by (induction es rule: first_error.induct) auto

lemma first_error_Some: "first_error es = Some e \<Longrightarrow> Some e \<in> set es"
  by (induction es rule: first_error.induct) auto

definition bad_if :: "bool \<Rightarrow> string \<Rightarrow> go_error option" where
  "bad_if b msg = (if b then Some (errBadInput msg) else None)"

lemma bad_if_None [simp]: "bad_if b msg = None \<longleftrightarrow> \<not> b"
  by (simp add: bad_if_def)

record create_input =
  ci_label :: string
  ci_host :: string
  ci_port :: nat
  ci_database_name :: string
  ci_username :: string
  ci_password :: string
  ci_tls_mode :: string
  ci_connect_timeout_sec :: nat

definition validateCreateInput :: "create_input \<Rightarrow> go_error option" where
  "validateCreateInput i = first_error [
     validateLabel (ci_label i),
     validateHost (ci_host i),
     bad_if (ci_port i = 0) ''port must be non-zero'',
     validateDBName (ci_database_name i),
     validateUsername (ci_username i),
     bad_if (ci_password i = []) ''password must not be empty'',
     bad_if (maxPasswordLen < rune_count (ci_password i)) ''password too long'',
     validateTLSMode (ci_tls_mode i)]"

record update_input =
  ui_label :: "string option"
  ui_host :: "string option"
  ui_port :: "nat option"
  ui_database_name :: "string option"
  ui_username :: "string option"
  ui_password :: "string option"
  ui_tls_mode :: "string option"
  ui_connect_timeout_sec :: "nat option"

definition when_given :: "'v option \<Rightarrow> ('v \<Rightarrow> go_error option) \<Rightarrow> go_error option" where
  "when_given x check = (case x of None \<Rightarrow> None | Some v \<Rightarrow> check v)"

definition validateUpdateInput :: "update_input \<Rightarrow> go_error option" where
  "validateUpdateInput i = first_error [
     when_given (ui_label i) validateLabel,
     when_given (ui_host i) validateHost,
     when_given (ui_port i) (\<lambda>p. bad_if (p = 0) ''port must be non-zero''),
     when_given (ui_database_name i) validateDBName,
     when_given (ui_username i) validateUsername,
     when_given (ui_password i) (\<lambda>p. bad_if (p = []) ''password must not be empty when provided''),
     when_given (ui_password i) (\<lambda>p. bad_if (maxPasswordLen < rune_count p) ''password too long''),
     when_given (ui_tls_mode i) validateTLSMode]"

section \<open>Create, read, update, delete\<close>

record ds_service =
  sv_collate :: "string \<Rightarrow> string"
  sv_encrypt :: "string \<Rightarrow> string \<Rightarrow> go_error + string"
  sv_decrypt :: "string \<Rightarrow> string \<Rightarrow> go_error + string"
  sv_guard :: net_validator

definition new_source :: "nat \<Rightarrow> create_input \<Rightarrow> instant \<Rightarrow> data_source" where
  "new_source userID i t = \<lparr>ds_id = 0, ds_user_id = userID, ds_label = ci_label i, ds_host = ci_host i,
     ds_port = ci_port i, ds_database_name = ci_database_name i, ds_username = ci_username i,
     ds_password_ciphertext = [], ds_tls_mode = ci_tls_mode i,
     ds_connect_timeout_sec =
       (if ci_connect_timeout_sec i = 0 then defaultConnectTimeoutSec else ci_connect_timeout_sec i),
     ds_created_at = t, ds_updated_at = t, ds_deleted_at = None\<rparr>"

text \<open>The body of the transaction: insert, encrypt under the new id, write the ciphertext back.\<close>

definition create_tx :: "ds_service \<Rightarrow> data_source \<Rightarrow> string \<Rightarrow> (go_error + data_source) tx" where
  "create_tx s ds password = do {
     r \<leftarrow> in_tx (source_create (sv_collate s) ds);
     case r of
       Inl e \<Rightarrow> State_Monad.return (Inl e)
     | Inr ds' \<Rightarrow> (case sv_encrypt s password (AAD (ds_id ds')) of
           Inl e \<Rightarrow> State_Monad.return (Inl (Wrap ''datasource: encrypt: '' e ''''))
         | Inr c \<Rightarrow> do {
             u \<leftarrow> in_tx (update_ciphertext (ds_id ds') c);
             State_Monad.return (case u of
                 Some e \<Rightarrow> Inl e | None \<Rightarrow> Inr (ds'\<lparr>ds_password_ciphertext := c\<rparr>))
           })
   }"

definition ds_create :: "ds_service \<Rightarrow> go_error option list \<Rightarrow> nat \<Rightarrow> create_input \<Rightarrow> (go_error + data_source) prog" where
  "ds_create s faults userID i = (case validateCreateInput i of
       Some e \<Rightarrow> State_Monad.return (Inl e)
     | None \<Rightarrow> do {
         t \<leftarrow> now;
         r \<leftarrow> with_tx faults (create_tx s (new_source userID i t) (ci_password i));
         State_Monad.return (case r of
             Inl e \<Rightarrow> Inl (if errors_is e DsErrDuplicateLabel then errDuplicateLabel else errInternal)
           | Inr ds \<Rightarrow> Inr ds)
       })"

definition ds_get :: "nat \<Rightarrow> nat \<Rightarrow> (go_error + data_source) prog" where
  "ds_get k userID = do {
     r \<leftarrow> on_pool (source_find k userID);
     State_Monad.return (case r of
         Inl e \<Rightarrow> Inl (if errors_is e DsErrNotFound then errNotFound else errInternal)
       | Inr ds \<Rightarrow> Inr ds)
   }"

definition ds_list :: "nat \<Rightarrow> (go_error + data_source list) prog" where
  "ds_list userID = do {
     r \<leftarrow> on_pool (source_list userID);
     State_Monad.return (case r of Inl e \<Rightarrow> Inl errInternal | Inr ds \<Rightarrow> Inr ds)
   }"

definition patch_of :: "update_input \<Rightarrow> update_patch" where
  "patch_of i = \<lparr>up_label = ui_label i, up_host = ui_host i, up_port = ui_port i,
     up_database_name = ui_database_name i, up_username = ui_username i, up_password_cipher = None,
     up_tls_mode = ui_tls_mode i, up_connect_timeout_sec = ui_connect_timeout_sec i\<rparr>"

definition replace_password_tx ::
  "ds_service \<Rightarrow> nat \<Rightarrow> nat \<Rightarrow> update_patch \<Rightarrow> string \<Rightarrow> (go_error + unit) tx" where
  "replace_password_tx s k userID p password = do {
     r \<leftarrow> in_tx (source_find k userID);
     case r of
       Inl e \<Rightarrow> State_Monad.return (Inl e)
     | Inr ds \<Rightarrow> (case sv_encrypt s password (AAD (ds_id ds)) of
           Inl e \<Rightarrow> State_Monad.return (Inl (Wrap ''datasource: encrypt: '' e ''''))
         | Inr c \<Rightarrow> do {
             u \<leftarrow> in_tx (source_update (sv_collate s) k userID (p\<lparr>up_password_cipher := Some c\<rparr>));
             State_Monad.return (case u of Some e \<Rightarrow> Inl e | None \<Rightarrow> Inr ())
           })
   }"

definition ds_update :: "ds_service \<Rightarrow> go_error option list \<Rightarrow> nat \<Rightarrow> nat \<Rightarrow> update_input \<Rightarrow> (go_error + data_source) prog" where
  "ds_update s faults k userID i = (case validateUpdateInput i of
       Some e \<Rightarrow> State_Monad.return (Inl e)
     | None \<Rightarrow> do {
         u \<leftarrow> (case ui_password i of
             Some password \<Rightarrow> do {
               r \<leftarrow> with_tx faults (replace_password_tx s k userID (patch_of i) password);
               State_Monad.return (case r of Inl e \<Rightarrow> Some e | Inr x \<Rightarrow> None)
             }
           | None \<Rightarrow> on_pool (source_update (sv_collate s) k userID (patch_of i)));
         case u of
           Some e \<Rightarrow> State_Monad.return (Inl
             (if errors_is e DsErrNotFound then errNotFound
              else if errors_is e DsErrDuplicateLabel then errDuplicateLabel
              else errInternal))
         | None \<Rightarrow> do {
             r \<leftarrow> on_pool (source_find k userID);
             State_Monad.return (case r of Inl e \<Rightarrow> Inl errInternal | Inr ds \<Rightarrow> Inr ds)
           }
       })"

definition delete_tx :: "nat \<Rightarrow> nat \<Rightarrow> instant \<Rightarrow> (go_error + unit) tx" where
  "delete_tx k userID at = do {
     r \<leftarrow> in_tx (source_find k userID);
     case r of
       Inl e \<Rightarrow> State_Monad.return (Inl (if errors_is e DsErrNotFound then errNotFound else errInternal))
     | Inr ds \<Rightarrow> do {
         a \<leftarrow> in_tx (has_active_jobs k);
         case a of
           Inl e \<Rightarrow> State_Monad.return (Inl errInternal)
         | Inr True \<Rightarrow> State_Monad.return (Inl errHasActiveJobs)
         | Inr False \<Rightarrow> do {
             u \<leftarrow> in_tx (source_soft_delete k userID at);
             State_Monad.return (case u of
                 Some e \<Rightarrow> Inl (if errors_is e DsErrNotFound then errNotFound else errInternal)
               | None \<Rightarrow> Inr ())
           }
       }
   }"

definition ds_delete :: "go_error option list \<Rightarrow> nat \<Rightarrow> nat \<Rightarrow> go_error option prog" where
  "ds_delete faults k userID = do {
     t \<leftarrow> now;
     r \<leftarrow> with_tx faults (delete_tx k userID t);
     State_Monad.return (case r of Inl e \<Rightarrow> Some e | Inr u \<Rightarrow> None)
   }"

definition ds_get_raw :: "nat \<Rightarrow> (go_error + data_source) prog" where
  "ds_get_raw k = on_pool (source_find_raw k)"

end
