(* ===== verification/Job_Service.thy ===== *)
theory Job_Service
  imports Result_Store Datasource_Service
begin

text \<open>
  The API side of query jobs (internal/queryjob/service.go, errors.go): submission, the status of a
  job, and its cached result. The data source check is an argument, as the interface the code
  declares on the consuming side; the identifier of the outbox message is random and an argument.
\<close>

section \<open>Error codes\<close>

definition ErrCodeInvalidQuestion :: string where "ErrCodeInvalidQuestion = ''INVALID_QUESTION''"
definition ErrCodeJobNotFound :: string where "ErrCodeJobNotFound = ''JOB_NOT_FOUND''"
definition ErrCodeInvalidJobID :: string where "ErrCodeInvalidJobID = ''INVALID_JOB_ID''"
definition ErrCodePublishFailed :: string where "ErrCodePublishFailed = ''PUBLISH_FAILED''"
definition ErrCodeInternal :: string where "ErrCodeInternal = ''INTERNAL_ERROR''"
definition ErrCodeResultNotReady :: string where "ErrCodeResultNotReady = ''RESULT_NOT_READY''"
definition ErrCodeQueryJobFailed :: string where "ErrCodeQueryJobFailed = ''QUERY_JOB_FAILED''"
definition ErrCodeResultExpired :: string where "ErrCodeResultExpired = ''RESULT_EXPIRED''"
definition ErrCodeResultUnavailable :: string where "ErrCodeResultUnavailable = ''RESULT_UNAVAILABLE''"
definition ErrCodeResultStoreUnavail :: string where "ErrCodeResultStoreUnavail = ''RESULT_STORE_UNAVAILABLE''"
definition ErrCodeResultCorrupted :: string where "ErrCodeResultCorrupted = ''RESULT_CORRUPTED''"
definition ErrCodeMissingDataSource :: string where "ErrCodeMissingDataSource = ''MISSING_DATA_SOURCE''"
definition ErrCodeDataSourceNotFound :: string where "ErrCodeDataSourceNotFound = ''DATA_SOURCE_NOT_FOUND''"
definition msgInternal :: string where "msgInternal = ''internal error''"

lemmas job_codes = ErrCodeInvalidQuestion_def ErrCodeJobNotFound_def ErrCodeInvalidJobID_def ErrCodePublishFailed_def
  ErrCodeInternal_def ErrCodeResultNotReady_def ErrCodeQueryJobFailed_def ErrCodeResultExpired_def
  ErrCodeResultUnavailable_def ErrCodeResultStoreUnavail_def ErrCodeResultCorrupted_def
  ErrCodeMissingDataSource_def ErrCodeDataSourceNotFound_def msgInternal_def

definition maxQuestionLen :: nat where "maxQuestionLen = 500"

section \<open>Submission\<close>

definition submitted_job :: "nat \<Rightarrow> string \<Rightarrow> nat \<Rightarrow> instant \<Rightarrow> query_job" where
  "submitted_job userID question dataSourceID t = \<lparr>jb_id = 0, jb_question = question, jb_generated_sql = None,
     jb_status = StatusPending, jb_error_code = None, jb_error_message = None, jb_row_count = None,
     jb_execution_duration_ms = None, jb_created_at = t, jb_updated_at = t, jb_finished_at = None,
     jb_result_expires_at = None, jb_user_id = Some (int64_of (int userID)),
     jb_data_source_id = Some (int64_of (int dataSourceID)), jb_attempt_count = 0, jb_next_retry_at = None\<rparr>"

definition Submit :: "(nat \<Rightarrow> nat \<Rightarrow> (go_error + bool) prog) \<Rightarrow> string \<Rightarrow> nat \<Rightarrow> string \<Rightarrow> nat \<Rightarrow>
    (go_error + query_job) prog" where
  "Submit existsForUser messageID userID question dataSourceID = (let trimmed = trim_space question in
     if trimmed = [] \<or> maxQuestionLen < rune_count trimmed
     then State_Monad.return (Inl (ServiceError ErrCodeInvalidQuestion ''question must be 1-500 characters''))
     else if dataSourceID = 0
     then State_Monad.return (Inl (ServiceError ErrCodeMissingDataSource ''data_source_id is required''))
     else do {
       e \<leftarrow> existsForUser dataSourceID userID;
       case e of
         Inl err \<Rightarrow> State_Monad.return (Inl (ServiceError ErrCodeInternal msgInternal))
       | Inr False \<Rightarrow> State_Monad.return (Inl (ServiceError ErrCodeDataSourceNotFound ''data source not found''))
       | Inr True \<Rightarrow> do {
           t \<leftarrow> now;
           r \<leftarrow> create_and_enqueue (submitted_job userID trimmed dataSourceID t) (newOutboxEvent 0 messageID t);
           State_Monad.return (case r of
               Inl err \<Rightarrow> Inl (ServiceError ErrCodeInternal msgInternal)
             | Inr j \<Rightarrow> Inr j)
         }
     })"

section \<open>Reading\<close>

definition ownsJob :: "query_job \<Rightarrow> nat \<Rightarrow> bool" where
  "ownsJob job callerID = (case jb_user_id job of None \<Rightarrow> False | Some u \<Rightarrow> uint64_of u = callerID)"

definition job_get :: "nat \<Rightarrow> nat \<Rightarrow> (go_error + query_job) prog" where
  "job_get callerID k = do {
     r \<leftarrow> job_find_by_id k;
     State_Monad.return (case r of
         Inl e \<Rightarrow> Inl e
       | Inr job \<Rightarrow> (if ownsJob job callerID then Inr job else Inl (Sentinel ErrJobNotFound)))
   }"

text \<open>\<open>expires\<close> is the job's result_expires_at, whose presence was checked before.\<close>

definition mapStoreError :: "go_error \<Rightarrow> instant \<Rightarrow> instant \<Rightarrow> go_error" where
  "mapStoreError err t expires =
     (if errors_is err ErrResultNotFound then
        (if t < expires then ServiceError ErrCodeResultUnavailable ''result is not available''
         else ServiceError ErrCodeResultExpired ''result has expired'')
      else if errors_is err ErrResultCorrupted then ServiceError ErrCodeResultCorrupted ''result data is corrupted''
      else ServiceError ErrCodeResultStoreUnavail ''result store is unavailable'')"

definition GetResult :: "(nat \<Rightarrow> (go_error + cached_query_result) prog) \<Rightarrow> nat \<Rightarrow> nat \<Rightarrow>
    (go_error + cached_query_result) prog" where
  "GetResult storeGet callerID jobID = do {
     r \<leftarrow> job_find_by_id jobID;
     case r of
       Inl e \<Rightarrow> State_Monad.return (Inl e)
     | Inr job \<Rightarrow>
         (if \<not> ownsJob job callerID then State_Monad.return (Inl (Sentinel ErrJobNotFound))
          else if jb_status job = StatusFailed
          then State_Monad.return (Inl (ServiceError ErrCodeQueryJobFailed ''query job failed''))
          else if \<not> is_terminal (jb_status job)
          then State_Monad.return (Inl (ServiceError ErrCodeResultNotReady ''result is not ready yet''))
          else case jb_result_expires_at job of
            None \<Rightarrow> State_Monad.return (Inl (ServiceError ErrCodeResultUnavailable ''result is not available''))
          | Some expires \<Rightarrow> do {
              s \<leftarrow> storeGet jobID;
              case s of
                Inr res \<Rightarrow> State_Monad.return (Inr res)
              | Inl err \<Rightarrow> do {
                  t \<leftarrow> now;
                  State_Monad.return (Inl (mapStoreError err t expires))
                }
            })
   }"

end
