(* ===== verification/Http_Api.thy ===== *)
theory Http_Api
  imports Job_Service
begin

text \<open>
  The HTTP handlers of query jobs and data sources (internal/handler/queryjob.go, datasource.go):
  what they read of a request, which service they call and how they map its outcome to a status and a
  body. Binding a JSON body is the web framework's: a request body is \<open>None\<close> where it fails. The
  caller's user id is what the bearer middleware stored.
\<close>

section \<open>Responses\<close>

record job_response =
  jr_job_id :: nat
  jr_question :: string
  jr_status :: string
  jr_generated_sql :: string
  jr_row_count :: "int option"
  jr_execution_duration_ms :: "int option"
  jr_error_code :: string
  jr_error_message :: string
  jr_result_expires_at :: "instant option"
  jr_created_at :: instant
  jr_finished_at :: "instant option"

record source_response =
  sr_id :: nat
  sr_label :: string
  sr_host :: string
  sr_port :: nat
  sr_database_name :: string
  sr_username :: string
  sr_tls_mode :: string
  sr_connect_timeout_sec :: nat
  sr_created_at :: instant
  sr_updated_at :: instant

datatype body =
    ErrorBody string string
  | SubmitBody nat string instant
  | JobBody job_response
  | ResultBody nat "string list" "go_value list list" int instant instant
  | SourceBody source_response
  | SourcesBody "source_response list"
  | StatusBody string
  | AuthErrorBody string
  | UserBody nat string instant
  | TokenBody string instant
  | HealthBody "(string \<times> string) list"
  | NoBody

type_synonym response = "nat \<times> body"

section \<open>Query jobs\<close>

definition serviceErrorStatus :: "string \<Rightarrow> nat" where
  "serviceErrorStatus code =
     (if code \<in> {ErrCodeInvalidQuestion, ErrCodeMissingDataSource} then 400
      else if code = ErrCodeDataSourceNotFound then 404
      else if code = ErrCodePublishFailed then 503
      else 500)"

definition resultErrorStatus :: "string \<Rightarrow> nat" where
  "resultErrorStatus code =
     (if code \<in> {ErrCodeResultNotReady, ErrCodeQueryJobFailed} then 409
      else if code = ErrCodeResultExpired then 410
      else if code \<in> {ErrCodeResultUnavailable, ErrCodeResultStoreUnavail, ErrCodeResultCorrupted} then 503
      else 500)"

definition string_or_empty :: "string option \<Rightarrow> string" where
  "string_or_empty s = (case s of None \<Rightarrow> [] | Some x \<Rightarrow> x)"

definition toJobResponse :: "query_job \<Rightarrow> job_response" where
  "toJobResponse job = \<lparr>jr_job_id = jb_id job, jr_question = jb_question job, jr_status = status_text (jb_status job),
     jr_generated_sql = string_or_empty (jb_generated_sql job), jr_row_count = jb_row_count job,
     jr_execution_duration_ms = jb_execution_duration_ms job, jr_error_code = string_or_empty (jb_error_code job),
     jr_error_message = string_or_empty (jb_error_message job), jr_result_expires_at = jb_result_expires_at job,
     jr_created_at = jb_created_at job, jr_finished_at = jb_finished_at job\<rparr>"

definition internal_error :: response where
  "internal_error = (500, ErrorBody ErrCodeInternal ''internal error'')"

definition handle_submit :: "(nat \<Rightarrow> string \<Rightarrow> nat \<Rightarrow> (go_error + query_job) prog) \<Rightarrow> nat \<Rightarrow> (string \<times> nat) option \<Rightarrow>
    response prog" where
  "handle_submit submit userID req = (case req of
       None \<Rightarrow> State_Monad.return (400, ErrorBody ErrCodeInvalidQuestion ''invalid request body'')
     | Some (question, dataSourceID) \<Rightarrow> do {
         r \<leftarrow> submit userID question dataSourceID;
         State_Monad.return (case r of
             Inl e \<Rightarrow> (case as_service_error e of
                 Some (c, m) \<Rightarrow> (serviceErrorStatus c, ErrorBody c m) | None \<Rightarrow> internal_error)
           | Inr job \<Rightarrow> (202, SubmitBody (jb_id job) (status_text (jb_status job)) (jb_created_at job)))
       })"

text \<open>A path parameter as a positive uint64.\<close>

definition parse_id :: "string \<Rightarrow> nat option" where
  "parse_id s = (case parse_uint 64 s of None \<Rightarrow> None | Some n \<Rightarrow> (if n = 0 then None else Some n))"

definition handle_get_job :: "nat \<Rightarrow> string \<Rightarrow> response prog" where
  "handle_get_job userID param = (case parse_id param of
       None \<Rightarrow> State_Monad.return (400, ErrorBody ErrCodeInvalidJobID ''invalid job id'')
     | Some k \<Rightarrow> do {
         r \<leftarrow> job_get userID k;
         State_Monad.return (case r of
             Inl e \<Rightarrow> (if errors_is e ErrJobNotFound then (404, ErrorBody ErrCodeJobNotFound ''job not found'')
                      else internal_error)
           | Inr job \<Rightarrow> (200, JobBody (toJobResponse job)))
       })"

definition handle_get_result :: "(nat \<Rightarrow> nat \<Rightarrow> (go_error + cached_query_result) prog) \<Rightarrow> nat \<Rightarrow> string \<Rightarrow> response prog" where
  "handle_get_result getResult userID param = (case parse_id param of
       None \<Rightarrow> State_Monad.return (400, ErrorBody ErrCodeInvalidJobID ''invalid job id'')
     | Some k \<Rightarrow> do {
         r \<leftarrow> getResult userID k;
         State_Monad.return (case r of
             Inl e \<Rightarrow> (if errors_is e ErrJobNotFound then (404, ErrorBody ErrCodeJobNotFound ''job not found'')
                      else case as_service_error e of
                        Some (c, m) \<Rightarrow> (resultErrorStatus c, ErrorBody c m) | None \<Rightarrow> internal_error)
           | Inr res \<Rightarrow> (200, ResultBody (cr_job_id res) (cr_columns res) (cr_rows res) (cr_row_count res)
               (cr_cached_at res) (cr_expires_at res)))
       })"

section \<open>Data sources\<close>

definition writeServiceError :: "go_error \<Rightarrow> response" where
  "writeServiceError e = (case as_ds_error e of
       Some (c, m, s) \<Rightarrow> (s, ErrorBody c m)
     | None \<Rightarrow> (500, ErrorBody ''DATA_SOURCE_INTERNAL_ERROR'' ''internal error''))"

definition toDataSourceResponse :: "data_source \<Rightarrow> source_response" where
  "toDataSourceResponse ds = \<lparr>sr_id = ds_id ds, sr_label = ds_label ds, sr_host = ds_host ds, sr_port = ds_port ds,
     sr_database_name = ds_database_name ds, sr_username = ds_username ds, sr_tls_mode = ds_tls_mode ds,
     sr_connect_timeout_sec = ds_connect_timeout_sec ds, sr_created_at = ds_created_at ds,
     sr_updated_at = ds_updated_at ds\<rparr>"

definition bad_request :: response where
  "bad_request = (400, ErrorBody ''DATA_SOURCE_INVALID_INPUT'' ''invalid request body'')"

definition handle_create_source :: "(nat \<Rightarrow> create_input \<Rightarrow> (go_error + data_source) prog) \<Rightarrow> nat \<Rightarrow> create_input option \<Rightarrow>
    response prog" where
  "handle_create_source create userID req = (case req of
       None \<Rightarrow> State_Monad.return bad_request
     | Some i \<Rightarrow> do {
         r \<leftarrow> create userID (i\<lparr>ci_tls_mode := (if ci_tls_mode i \<noteq> [] then ci_tls_mode i else TLSVerifyFull)\<rparr>);
         State_Monad.return (case r of
             Inl e \<Rightarrow> writeServiceError e | Inr ds \<Rightarrow> (201, SourceBody (toDataSourceResponse ds)))
       })"

text \<open>\<open>parseUint64Param\<close>, and what follows when it succeeds.\<close>

definition with_id :: "string \<Rightarrow> (nat \<Rightarrow> response prog) \<Rightarrow> response prog" where
  "with_id param k = (case parse_id param of
       None \<Rightarrow> State_Monad.return (400, ErrorBody ''DATA_SOURCE_INVALID_INPUT'' ''invalid id'') | Some n \<Rightarrow> k n)"

definition source_or_error :: "nat \<Rightarrow> go_error + data_source \<Rightarrow> response" where
  "source_or_error code r = (case r of Inl e \<Rightarrow> writeServiceError e | Inr ds \<Rightarrow> (code, SourceBody (toDataSourceResponse ds)))"

definition handle_get_source :: "nat \<Rightarrow> string \<Rightarrow> response prog" where
  "handle_get_source userID param = with_id param (\<lambda>k. do {
     r \<leftarrow> ds_get k userID;
     State_Monad.return (source_or_error 200 r)
   })"

definition handle_list_sources :: "nat \<Rightarrow> response prog" where
  "handle_list_sources userID = do {
     r \<leftarrow> ds_list userID;
     State_Monad.return (case r of
         Inl e \<Rightarrow> writeServiceError e | Inr rows \<Rightarrow> (200, SourcesBody (map toDataSourceResponse rows)))
   }"

definition handle_update_source :: "(nat \<Rightarrow> nat \<Rightarrow> update_input \<Rightarrow> (go_error + data_source) prog) \<Rightarrow> nat \<Rightarrow> string \<Rightarrow>
    update_input option \<Rightarrow> response prog" where
  "handle_update_source update userID param req = with_id param (\<lambda>k. case req of
       None \<Rightarrow> State_Monad.return bad_request
     | Some i \<Rightarrow> do {
         r \<leftarrow> update k userID i;
         State_Monad.return (source_or_error 200 r)
       })"

definition handle_delete_source :: "(nat \<Rightarrow> nat \<Rightarrow> go_error option prog) \<Rightarrow> nat \<Rightarrow> string \<Rightarrow> response prog" where
  "handle_delete_source delete userID param = with_id param (\<lambda>k. do {
     r \<leftarrow> delete k userID;
     State_Monad.return (case r of Some e \<Rightarrow> writeServiceError e | None \<Rightarrow> (204, NoBody))
   })"

definition handle_test_source :: "(nat \<Rightarrow> nat \<Rightarrow> go_error option prog) \<Rightarrow> nat \<Rightarrow> string \<Rightarrow> response prog" where
  "handle_test_source test userID param = with_id param (\<lambda>k. do {
     r \<leftarrow> test k userID;
     State_Monad.return (case r of Some e \<Rightarrow> writeServiceError e | None \<Rightarrow> (200, StatusBody ''ok''))
   })"

end
