(* ===== verification/Datasource_Conn.thy ===== *)
theory Datasource_Conn
  imports Datasource_Service
begin

text \<open>
  Connections to user databases (internal/datasource/service.go: OpenDB, openAndPing, buildDB). A
  connection is its driver configuration together with the dialler that \<open>buildDB\<close> registered for it:
  the driver's registry maps network names to the one address the dialler connects to. The system
  certificate pool, the random bytes of the network name and the driver's verdict on the
  configuration are arguments.
\<close>

record tls_config =
  tc_server_name :: string
  tc_min_version :: string
  tc_root_cas :: "string option"

record db_config =
  dc_user :: string
  dc_passwd :: string
  dc_net :: string
  dc_addr :: string
  dc_db_name :: string
  dc_timeout :: duration
  dc_tls :: "tls_config option"

type_synonym dialers = "(string \<times> string) list"

text \<open>What the driver library and the operating system contribute to one call.\<close>

record driver =
  dr_sys_cas :: "string option"
  dr_random :: "go_error + string"
  dr_connector :: "db_config \<Rightarrow> go_error option"
  dr_ping :: "string option \<Rightarrow> db_config \<Rightarrow> go_error option"

definition hex_encode :: "string \<Rightarrow> string" where
  "hex_encode s = concat (map (\<lambda>c. [hex_digit (byte c div 16), hex_digit (byte c mod 16)]) s)"

definition tls_for :: "driver \<Rightarrow> data_source \<Rightarrow> validated_target \<Rightarrow> go_error + tls_config option" where
  "tls_for d ds t =
     (if ds_tls_mode ds = TLSVerifyFull
      then Inr (Some \<lparr>tc_server_name = vt_host t, tc_min_version = ''TLS12'', tc_root_cas = dr_sys_cas d\<rparr>)
      else if ds_tls_mode ds = TLSDisabled then Inr None
      else Inl (NewError (''datasource: unsupported tls_mode '' @ quoted (ds_tls_mode ds))))"

definition pinned_addr :: "data_source \<Rightarrow> ip \<Rightarrow> string" where
  "pinned_addr ds ip = JoinHostPort (ip_text ip) (format_uint (ds_port ds))"

text \<open>\<open>None\<close> is the index panic of a target without addresses.\<close>

definition buildDB :: "driver \<Rightarrow> net_validator \<Rightarrow> data_source \<Rightarrow> string \<Rightarrow> validated_target \<Rightarrow> dialers \<Rightarrow>
    ((go_error + db_config) \<times> dialers) option" where
  "buildDB d guard ds password t reg =
     (if ds_tls_mode ds = TLSDisabled \<and> \<not> AllInAllowlist guard (vt_ips t)
      then Some (Inl (NewError (''datasource: tls_mode '' @ [CHR 0x27] @ ''disabled'' @ [CHR 0x27] @
             '' is only permitted for explicitly allowlisted private targets'')), reg)
      else case tls_for d ds t of
        Inl e \<Rightarrow> Some (Inl e, reg)
      | Inr tls \<Rightarrow> (case vt_ips t of
            [] \<Rightarrow> None
          | ip # ips \<Rightarrow> (case dr_random d of
                Inl e \<Rightarrow> Some (Inl (Wrap ''datasource: generate dialer key: '' e ''''), reg)
              | Inr rawKey \<Rightarrow>
                  (let dialNetName = ''askdb-pinned-'' @ hex_encode rawKey;
                       reg' = (dialNetName, pinned_addr ds ip) # reg;
                       cfg = \<lparr>dc_user = ds_username ds, dc_passwd = password, dc_net = dialNetName,
                              dc_addr = JoinHostPort (vt_host t) (format_uint (ds_port ds)),
                              dc_db_name = ds_database_name ds,
                              dc_timeout = int (ds_connect_timeout_sec ds) * second, dc_tls = tls\<rparr>
                   in Some (case dr_connector d cfg of
                         Some e \<Rightarrow> (Inl (Wrap ''datasource: new connector: '' e ''''), reg')
                       | None \<Rightarrow> (Inr cfg, reg'))))))"

text \<open>The address a connection really dials: what its network name is registered for.\<close>

definition dialled :: "dialers \<Rightarrow> db_config \<Rightarrow> string option" where
  "dialled reg cfg = map_of reg (dc_net cfg)"

definition OpenDB :: "driver \<Rightarrow> ds_service \<Rightarrow> data_source \<Rightarrow> dialers \<Rightarrow> ((go_error + db_config) \<times> dialers) option" where
  "OpenDB d s ds reg = (case sv_decrypt s (ds_password_ciphertext ds) (AAD (ds_id ds)) of
       Inl e \<Rightarrow> Some (Inl (Wrap ''datasource: decrypt: '' e ''''), reg)
     | Inr password \<Rightarrow> (case net_validate (sv_guard s) (ds_host ds) (ds_port ds) of
           Inl e \<Rightarrow> Some (Inl (Wrap ''datasource: net validate: '' e ''''), reg)
         | Inr t \<Rightarrow> buildDB d (sv_guard s) ds password t reg))"

text \<open>
  \<open>db.PingContext\<close> under a context that ends after the source's connect timeout: database/sql refuses a
  context that has ended, so a timeout of zero never reaches the driver.
\<close>

definition ping :: "driver \<Rightarrow> dialers \<Rightarrow> db_config \<Rightarrow> nat \<Rightarrow> go_error option" where
  "ping d reg cfg timeout_sec =
     (if timeout_sec = 0 then Some (Sentinel ContextDeadlineExceeded) else dr_ping d (dialled reg cfg) cfg)"

definition openAndPing :: "driver \<Rightarrow> ds_service \<Rightarrow> data_source \<Rightarrow> dialers \<Rightarrow> (go_error option \<times> dialers) option" where
  "openAndPing d s ds reg = (case sv_decrypt s (ds_password_ciphertext ds) (AAD (ds_id ds)) of
       Inl e \<Rightarrow> Some (Some errInternal, reg)
     | Inr password \<Rightarrow> (case net_validate (sv_guard s) (ds_host ds) (ds_port ds) of
           Inl e \<Rightarrow> Some (Some (errConnectFailed ''address validation failed''), reg)
         | Inr t \<Rightarrow> (case buildDB d (sv_guard s) ds password t reg of
               None \<Rightarrow> None
             | Some (Inl e, reg') \<Rightarrow> Some (Some (errConnectFailed ''could not build connection''), reg')
             | Some (Inr cfg, reg') \<Rightarrow> Some (case ping d reg' cfg (ds_connect_timeout_sec ds) of
                   Some e \<Rightarrow> (Some (errConnectFailed ''connection test failed''), reg')
                 | None \<Rightarrow> (None, reg')))))"

definition TestConnection :: "driver \<Rightarrow> ds_service \<Rightarrow> nat \<Rightarrow> nat \<Rightarrow> dialers \<Rightarrow> ((go_error option \<times> dialers) option) prog" where
  "TestConnection d s k userID reg = do {
     r \<leftarrow> on_pool (source_find k userID);
     State_Monad.return (case r of
         Inl e \<Rightarrow> Some (Some (if errors_is e DsErrNotFound then errNotFound else errInternal), reg)
       | Inr ds \<Rightarrow> openAndPing d s ds reg)
   }"

section \<open>Lemmas\<close>

text \<open>A validated target has addresses, so building a connection to it does not panic.\<close>

lemma buildDB_total:
  assumes "net_validate guard host port = Inr t"
  shows "buildDB d guard ds password t reg \<noteq> None"
proof -
  obtain ip ips where "vt_ips t = ip # ips"
    using net_validate_Inr [OF assms] check_addrs_Inr
    by (metis list.exhaust list.map_disc_iff)
  then show ?thesis by (auto simp: buildDB_def Let_def split: sum.splits)
qed

end
