(* ===== verification/Datasource_Props.thy ===== *)
theory Datasource_Props
  imports Datasource_Conn
begin

text \<open>
  What the data source service guarantees: its operations under any faults and interleaving keep
  the evolution of the table a client needs; an accepted source is stored with the password it was
  given; requests of one user leave the rows of all others alone; stored rows are valid; deletion
  respects the active jobs it counts; a connection is pinned to a checked address.
\<close>

section \<open>Operations\<close>

lemma insert_source_Inr:
  assumes "insert_source ck ds w = (Inr ds', w')" and "sources_wf ck w"
  shows "ds' = ds\<lparr>ds_id := w_next_source_id w\<rparr>" and "source_at w' (ds_id ds') = Some ds'"
proof -
  have "source_at w (w_next_source_id w) = None"
    using assms(2) by (auto simp: sources_wf_def lookup_None_iff)
  then show "ds' = ds\<lparr>ds_id := w_next_source_id w\<rparr>" "source_at w' (ds_id ds') = Some ds'"
    using assms(1) by (auto simp: insert_source_def Let_def split: if_splits)
qed

lemma source_at_update:
  "(\<And>r. ds_id (f r) = ds_id r) \<Longrightarrow>
     source_at (snd (update_sources P f w)) k = map_option (\<lambda>r. if P r then f r else r) (source_at w k)"
  by (simp add: update_sources_def lookup_update)

definition stored_as :: "data_source \<Rightarrow> string \<Rightarrow> world \<Rightarrow> data_source \<Rightarrow> bool" where
  "stored_as ds c w ds' = (\<exists>n t. ds' = ds\<lparr>ds_id := n, ds_password_ciphertext := c\<rparr> \<and>
     source_at w n = Some (ds'\<lparr>ds_updated_at := t\<rparr>))"

context source_client
begin

lemma create_tx_triple:
  assumes P: "sees P" and ck: "sv_collate s = ck" and acts: "acts (ds_user_id ds)" and good: "good ds"
  shows "tx_triple P (create_tx s ds password) (\<lambda>r w. P w \<and>
    (\<forall>ds'. r = Inr ds' \<longrightarrow> (\<exists>c. sv_encrypt s password (AAD (ds_id ds')) = Inr c \<and> stored_as ds c w ds')))"
  unfolding create_tx_def
proof (rule tx_bind)
  show "tx_triple P (in_tx (source_create (sv_collate s) ds)) (\<lambda>r w. P w \<and>
      (\<forall>ds'. r = Inr ds' \<longrightarrow> source_at w (ds_id ds') = Some ds' \<and> (\<exists>n. ds' = ds\<lparr>ds_id := n\<rparr>)))"
  proof (rule tx_op)
    fix w assume w: "P w"
    obtain r w' where r: "insert_source ck ds w = (r, w')" by fastforce
    then have "P w'" using sees_step [OF P w R_insert [OF acts good]] by simp
    then show "P (snd (op_stmt (source_create (sv_collate s) ds) (w_clock w) w)) \<and>
        (\<forall>ds'. op_read (source_create (sv_collate s) ds) (fst (op_stmt (source_create (sv_collate s) ds) (w_clock w) w)) = Inr ds' \<longrightarrow>
          source_at (snd (op_stmt (source_create (sv_collate s) ds) (w_clock w) w)) (ds_id ds') = Some ds' \<and>
          (\<exists>n. ds' = ds\<lparr>ds_id := n\<rparr>))"
      using r insert_source_Inr [of ck ds w _ w'] sees_wf [OF P w]
      by (auto simp: source_create_def ck split: sum.splits if_splits)
  qed (simp add: source_create_def)
next
  fix r :: "go_error + data_source"
  show "tx_triple (\<lambda>w. P w \<and> (\<forall>ds'. r = Inr ds' \<longrightarrow> source_at w (ds_id ds') = Some ds' \<and> (\<exists>n. ds' = ds\<lparr>ds_id := n\<rparr>)))
     (case r of Inl e \<Rightarrow> State_Monad.return (Inl e)
      | Inr ds' \<Rightarrow> (case sv_encrypt s password (AAD (ds_id ds')) of
            Inl e \<Rightarrow> State_Monad.return (Inl (Wrap ''datasource: encrypt: '' e ''''))
          | Inr c \<Rightarrow> State_Monad.bind (in_tx (update_ciphertext (ds_id ds') c)) (\<lambda>u.
              State_Monad.return (case u of Some e \<Rightarrow> Inl e | None \<Rightarrow> Inr (ds'\<lparr>ds_password_ciphertext := c\<rparr>)))))
     (\<lambda>r w. P w \<and> (\<forall>ds'. r = Inr ds' \<longrightarrow> (\<exists>c. sv_encrypt s password (AAD (ds_id ds')) = Inr c \<and> stored_as ds c w ds')))"
  proof (cases r)
    case (Inl e)
    then show ?thesis by (auto intro: tx_return)
  next
    case (Inr ds')
    show ?thesis
    proof (cases "sv_encrypt s password (AAD (ds_id ds'))")
      case (Inl e)
      with Inr show ?thesis by (auto intro: tx_return)
    next
      case (Inr c)
      let ?Q = "\<lambda>u w. P w \<and> (u = None \<longrightarrow> stored_as ds c w (ds'\<lparr>ds_password_ciphertext := c\<rparr>))"
      have "tx_triple (\<lambda>w. P w \<and> source_at w (ds_id ds') = Some ds' \<and> (\<exists>n. ds' = ds\<lparr>ds_id := n\<rparr>))
          (in_tx (update_ciphertext (ds_id ds') c)) ?Q"
      proof (rule tx_op)
        fix w assume w: "P w \<and> source_at w (ds_id ds') = Some ds' \<and> (\<exists>n. ds' = ds\<lparr>ds_id := n\<rparr>)"
        then obtain n where n: "ds' = ds\<lparr>ds_id := n\<rparr>" by blast
        let ?w = "snd (op_stmt (update_ciphertext (ds_id ds') c) (w_clock w) w)"
        have "P ?w"
          using sees_step [OF P _ R_cipher [OF sees_wf [OF P]]] w acts n by (simp add: update_ciphertext_def)
        moreover have "stored_as ds c ?w (ds'\<lparr>ds_password_ciphertext := c\<rparr>)"
          unfolding stored_as_def using w n
          by (intro exI [of _ n] exI [of _ "w_clock w"]) (simp add: update_ciphertext_def source_at_update)
        ultimately show "?Q (op_read (update_ciphertext (ds_id ds') c)
            (fst (op_stmt (update_ciphertext (ds_id ds') c) (w_clock w) w))) ?w"
          by simp
      qed (simp add: update_ciphertext_def)
      then show ?thesis
        using Inr \<open>r = Inr ds'\<close>
        by (auto intro!: tx_bind [where M = ?Q] tx_return elim: tx_pre split: option.splits)
    qed
  qed
qed

lemma triple_ds_create:
  assumes P: "sees P" and ck: "sv_collate s = ck" and acts: "acts u"
    and good: "\<And>t. validateCreateInput i = None \<Longrightarrow> good (new_source u i t)" and ok: "faults_ok fs"
  shows "triple R P (ds_create s fs u i) (\<lambda>r w. P w \<and>
    (\<forall>ds. r = Inr ds \<longrightarrow> validateCreateInput i = None \<and>
       (\<exists>c t. sv_encrypt s (ci_password i) (AAD (ds_id ds)) = Inr c \<and> stored_as (new_source u i t) c w ds)) \<and>
    (\<forall>e. r = Inl e \<longrightarrow> validateCreateInput i = Some e \<or> e \<in> {errDuplicateLabel, errInternal}))"
proof (cases "validateCreateInput i")
  case (Some e)
  then show ?thesis by (auto simp: ds_create_def intro: triple_return)
next
  case None
  let ?M = "\<lambda>t r w. P w \<and> (\<forall>ds'. r = Inr ds' \<longrightarrow>
      (\<exists>c. sv_encrypt s (ci_password i) (AAD (ds_id ds')) = Inr c \<and> stored_as (new_source u i t) c w ds'))"
  have "triple R P (with_tx fs (create_tx s (new_source u i t) (ci_password i))) (?M t)" for t
    by (rule triple_with_tx [OF sees_stable [OF P] create_tx_triple [OF P ck _ good [OF None]] ok])
       (simp_all add: acts new_source_def)
  then show ?thesis
    unfolding ds_create_def None option.case
    by (intro triple_bind [OF triple_now [where Q = "\<lambda>_. P"]] triple_bind [where M = "?M _"] triple_return)
       (auto simp: None split: sum.splits, blast)
qed

end

text \<open>
  The owner of a row of the table. A found row is the caller's and live, and the table holds it as the
  caller's; a missing one is reported as such.
\<close>

definition owner_at :: "world \<Rightarrow> nat \<Rightarrow> nat option" where
  "owner_at w k = map_option ds_user_id (source_at w k)"

lemma owner_at_row:
  assumes "sources_wf ck w" and "r \<in> set (w_sources w)"
  shows "owner_at w (ds_id r) = Some (ds_user_id r)"
  using assms lookup_distinct [of ds_id "w_sources w" r] by (simp add: owner_at_def sources_wf_def)

lemma owner_at_evolves:
  assumes "sources_evolve ck w w'" and "owner_at w k = Some u"
  shows "owner_at w' k = Some u"
proof -
  obtain r where r: "source_at w k = Some r" "ds_user_id r = u" using assms(2) by (auto simp: owner_at_def)
  obtain r' where "source_at w' k = Some r'" "source_row_evolves r r'"
    using assms(1) r(1) unfolding sources_evolve_def by blast
  with r show ?thesis by (simp add: owner_at_def source_row_evolves_def)
qed

definition found :: "nat \<Rightarrow> nat \<Rightarrow> go_error + data_source \<Rightarrow> world \<Rightarrow> bool" where
  "found k u r w = (\<forall>ds. r = Inr ds \<longrightarrow> live_source k u ds \<and> owner_at w k = Some u)"

lemma found_simps [simp]: "found k u (Inl e) w" "found k u (Inr ds) w \<longleftrightarrow> live_source k u ds \<and> owner_at w k = Some u"
  by (simp_all add: found_def)

lemma find_stmt:
  "op_stmt (source_find k u) t w = select_source (live_source k u) w"
  "snd (select_source Q w) = w"
  "sources_wf ck w \<Longrightarrow> found k u (op_read (source_find k u) (fst (select_source (live_source k u) w))) w"
  "found k u (op_read (source_find k u) (Inl e)) w"
  using owner_at_row [of ck w]
  by (auto simp: source_find_def select_source_def not_found_or_def sql_first_def find_Some_iff live_source_def
      split: option.splits)

context source_client
begin

lemma triple_source_find:
  assumes "sees P"
  shows "triple R P (on_pool (source_find k u)) (\<lambda>r w. P w \<and> found k u r w)"
  by (rule triple_pool [OF sees_stable [OF assms]]) (simp_all add: find_stmt(1,2,4) find_stmt(3) [OF sees_wf [OF assms]])

lemma tx_source_find:
  assumes "sees P"
  shows "tx_triple P (in_tx (source_find k u)) (\<lambda>r w. P w \<and> found k u r w)"
  by (rule tx_op) (simp_all add: find_stmt(1,2,4) find_stmt(3) [OF sees_wf [OF assms]])

lemma update_stmt:
  assumes "sees P" and "P w" and "acts u" and "\<And>r t. good r \<Longrightarrow> good (apply_patch t p r)"
  shows "P (snd (op_stmt (source_update ck k u p) t w))"
  using sees_step [OF assms(1,2) R_update [OF assms(3) keeps_identity_patch assms(4)]]
  by (simp add: source_update_def)

lemma tx_source_update:
  assumes "sees P" and "sv_collate s = ck" and "acts u" and "\<And>r t. good r \<Longrightarrow> good (apply_patch t p r)"
  shows "tx_triple P (in_tx (source_update (sv_collate s) k u p)) (\<lambda>r. P)"
  by (rule tx_op) (simp_all add: assms(2) update_stmt [OF assms(1) _ assms(3,4)])

lemma replace_password_triple:
  assumes P: "sees P" and ck: "sv_collate s = ck" and acts: "acts u"
    and good: "\<And>r t c. good r \<Longrightarrow> good (apply_patch t (p\<lparr>up_password_cipher := Some c\<rparr>) r)"
  shows "tx_triple P (replace_password_tx s k u p password) (\<lambda>r. P)"
  unfolding replace_password_tx_def
  by (rule tx_bind [OF tx_source_find [OF P]])
     (auto intro!: tx_return tx_bind [OF tx_pre [OF tx_source_update [OF P ck acts good]]] split: sum.split)

lemma triple_ds_update:
  assumes P: "sees P" and ck: "sv_collate s = ck" and acts: "acts u"
    and good: "\<And>r t c. validateUpdateInput i = None \<Longrightarrow> good r \<Longrightarrow>
        good (apply_patch t ((patch_of i)\<lparr>up_password_cipher := c\<rparr>) r)"
    and ok: "faults_ok fs"
  shows "triple R P (ds_update s fs k u i) (\<lambda>r w. P w \<and> found k u r w \<and>
    (\<forall>e. r = Inl e \<longrightarrow> validateUpdateInput i = Some e \<or> e \<in> {errNotFound, errDuplicateLabel, errInternal}))"
proof (cases "validateUpdateInput i")
  case (Some e)
  then show ?thesis by (auto simp: ds_update_def intro: triple_return)
next
  case None
  have patch: "(patch_of i)\<lparr>up_password_cipher := None\<rparr> = patch_of i" by (simp add: patch_of_def)
  have plain: "triple R P (on_pool (source_update (sv_collate s) k u (patch_of i))) (\<lambda>r. P)"
    by (rule triple_pool [OF sees_stable [OF P]])
       (use update_stmt [OF P _ acts good [OF None, of _ _ None, unfolded patch]] in \<open>simp_all add: ck\<close>)
  have with_password: "triple R P (with_tx fs (replace_password_tx s k u (patch_of i) password)) (\<lambda>r. P)" for password
    by (rule triple_with_tx [OF sees_stable [OF P] replace_password_triple [OF P ck acts good [OF None]] ok]) simp_all
  show ?thesis
    unfolding ds_update_def None option.case
    by (rule triple_bind [where M = "\<lambda>_. P"])
       (auto intro!: plain triple_return triple_bind [OF with_password] triple_bind [OF triple_source_find [OF P]]
          split: option.split sum.splits)
qed

lemma delete_tx_triple:
  assumes P: "sees P" and acts: "acts u"
  shows "tx_triple P (delete_tx k u t) (\<lambda>r w. P w \<and>
    (\<forall>e. r = Inl e \<longrightarrow> e \<in> {errNotFound, errHasActiveJobs, errInternal}))"
proof -
  have del: "tx_triple P (in_tx (source_soft_delete k u t)) (\<lambda>r. P)"
  proof (rule tx_op)
    fix w assume w: "P w"
    show "P (snd (op_stmt (source_soft_delete k u t) (w_clock w) w))"
      using sees_step [OF P w R_delete [OF acts sees_wf [OF P w]]] by (simp add: source_soft_delete_def)
  qed
  have jobs: "tx_triple P (in_tx (has_active_jobs k)) (\<lambda>r. P)"
    by (rule tx_op) (simp_all add: has_active_jobs_def)
  show ?thesis
    unfolding delete_tx_def
    by (rule tx_bind [OF tx_source_find [OF P]])
       (auto intro!: tx_return tx_bind [OF tx_pre [OF jobs]] tx_bind [OF del]
          split: sum.split bool.split option.splits)
qed

lemma triple_ds_delete:
  assumes P: "sees P" and acts: "acts u" and ok: "faults_ok fs"
  shows "triple R P (ds_delete fs k u) (\<lambda>r w. P w \<and>
    (\<forall>e. r = Some e \<longrightarrow> e \<in> {errNotFound, errHasActiveJobs, errInternal} \<or> driver_error e))"
proof -
  have tx: "triple R P (with_tx fs (delete_tx k u t)) (\<lambda>r w. P w \<and>
      (\<forall>e. r = Inl e \<longrightarrow> e \<in> {errNotFound, errHasActiveJobs, errInternal} \<or> driver_error e))" for t
    by (rule triple_with_tx [OF sees_stable [OF P] delete_tx_triple [OF P acts] ok]) auto
  show ?thesis
    unfolding ds_delete_def
    by (rule triple_bind [OF triple_now [where Q = "\<lambda>_. P"]], assumption,
        rule triple_bind [OF tx], rule triple_return)
       (auto split: sum.splits)
qed

lemma triple_ds_get:
  assumes P: "sees P"
  shows "triple R P (ds_get k u) (\<lambda>r w. P w \<and> found k u r w \<and> (\<forall>e. r = Inl e \<longrightarrow> e \<in> {errNotFound, errInternal}))"
  unfolding ds_get_def
  by (rule triple_bind [OF triple_source_find [OF P]], rule triple_return) (auto split: sum.splits)

lemma triple_ds_list:
  assumes P: "sees P"
  shows "triple R P (ds_list u) (\<lambda>r w. P w \<and>
    (\<forall>rows. r = Inr rows \<longrightarrow> (\<forall>ds \<in> set rows. ds_user_id ds = u \<and> ds_deleted_at ds = None \<and> owner_at w (ds_id ds) = Some u)) \<and>
    (\<forall>e. r = Inl e \<longrightarrow> e = errInternal))"
proof -
  have "triple R P (on_pool (source_list u)) (\<lambda>r w. P w \<and>
      (\<forall>rows. r = Inr rows \<longrightarrow> (\<forall>ds \<in> set rows. ds_user_id ds = u \<and> ds_deleted_at ds = None \<and> owner_at w (ds_id ds) = Some u)))"
    by (rule triple_pool [OF sees_stable [OF P]])
       (auto simp: source_list_def owner_at_row [OF sees_wf [OF P]] split: sum.splits)
  then show ?thesis
    unfolding ds_list_def by (rule triple_bind) (auto intro!: triple_return split: sum.splits)
qed

end

end
