(* ===== verification/Datasource_Properties.thy ===== *)
theory Datasource_Properties
  imports Datasource_Props Net_Properties
begin

text \<open>
  The properties of the data source component, over sequences of requests served among any other
  processes that respect the evolution of the table.
\<close>

section \<open>Requests\<close>

datatype ds_request =
    ReqCreate nat create_input
  | ReqUpdate nat nat update_input
  | ReqDelete nat nat

fun request_user :: "ds_request \<Rightarrow> nat" where
  "request_user (ReqCreate u i) = u"
| "request_user (ReqUpdate k u i) = u"
| "request_user (ReqDelete k u) = u"

fun serve :: "ds_service \<Rightarrow> go_error option list \<Rightarrow> ds_request \<Rightarrow> unit prog" where
  "serve s fs (ReqCreate u i) = State_Monad.bind (ds_create s fs u i) (\<lambda>_. State_Monad.return ())"
| "serve s fs (ReqUpdate k u i) = State_Monad.bind (ds_update s fs k u i) (\<lambda>_. State_Monad.return ())"
| "serve s fs (ReqDelete k u) = State_Monad.bind (ds_delete fs k u) (\<lambda>_. State_Monad.return ())"

fun serve_all :: "ds_service \<Rightarrow> (go_error option list \<times> ds_request) list \<Rightarrow> unit prog" where
  "serve_all s [] = State_Monad.return ()"
| "serve_all s ((fs, q) # qs) = State_Monad.bind (serve s fs q) (\<lambda>_. serve_all s qs)"

text \<open>What a client needs to know of its requests: they write good rows.\<close>

locale writing_client = source_client +
  assumes good_new: "validateCreateInput i = None \<Longrightarrow> good (new_source u i t)"
    and good_patch: "validateUpdateInput i' = None \<Longrightarrow> good r \<Longrightarrow>
        good (apply_patch t ((patch_of i')\<lparr>up_password_cipher := c\<rparr>) r)"
begin

lemma triple_serve:
  assumes P: "sees P" and ck: "sv_collate s = ck" and acts: "acts (request_user q)" and ok: "faults_ok fs"
  shows "triple R P (serve s fs q) (\<lambda>_. P)"
proof (cases q)
  case (ReqCreate u i)
  then show ?thesis
    using acts by (auto intro!: triple_bind [OF triple_ds_create [OF P ck _ good_new ok]] triple_return)
next
  case (ReqUpdate k u i)
  then show ?thesis
    using acts by (auto intro!: triple_bind [OF triple_ds_update [OF P ck _ good_patch ok]] triple_return)
next
  case (ReqDelete k u)
  then show ?thesis
    using acts by (auto intro!: triple_bind [OF triple_ds_delete [OF P _ ok]] triple_return)
qed

lemma triple_serve_all:
  assumes P: "sees P" and ck: "sv_collate s = ck"
    and "\<And>fs q. (fs, q) \<in> set qs \<Longrightarrow> acts (request_user q) \<and> faults_ok fs"
  shows "triple R P (serve_all s qs) (\<lambda>_. P)"
  using assms(3)
proof (induction qs)
  case Nil
  then show ?case by (auto intro: triple_return)
next
  case (Cons p qs)
  obtain fs q where p: "p = (fs, q)" by fastforce
  show ?case
    using Cons triple_serve [OF P ck, of q fs] by (auto simp: p intro!: triple_bind)
qed

lemma serve_all_keeps:
  assumes "rely R m" and "sources_wf (sv_collate s) (m_world m)" and "sv_collate s = ck"
    and "\<And>fs q. (fs, q) \<in> set qs \<Longrightarrow> acts (request_user q) \<and> faults_ok fs"
  shows "R (m_world m) (m_world (snd (run_state (serve_all s qs) m)))"
proof -
  have "triple R (\<lambda>w. R (m_world m) w \<and> sources_wf ck (m_world m)) (serve_all s qs)
      (\<lambda>_ w. R (m_world m) w \<and> sources_wf ck (m_world m))"
    by (rule triple_serve_all [OF sees_history assms(3,4)])
  from triple_run [OF this assms(1)] show ?thesis
    using assms(2,3) R_refl by simp
qed

end

section \<open>Tenants\<close>

definition tenant_rows :: "nat \<Rightarrow> world \<Rightarrow> data_source list" where
  "tenant_rows v w = filter (\<lambda>r. ds_user_id r = v) (w_sources w)"

definition tenant_keeps :: "(string \<Rightarrow> string) \<Rightarrow> nat \<Rightarrow> world \<Rightarrow> world \<Rightarrow> bool" where
  "tenant_keeps ck v w w' = (sources_evolve ck w w' \<and> tenant_rows v w' = tenant_rows v w)"

lemma tenant_rows_update:
  assumes "\<And>r. r \<in> set (w_sources w) \<Longrightarrow> P r \<Longrightarrow> ds_user_id r \<noteq> v \<and> ds_user_id (f r) \<noteq> v"
  shows "tenant_rows v (snd (update_sources P f w)) = tenant_rows v w"
proof -
  have "filter (\<lambda>r. ds_user_id r = v) (sql_update P f rows) = filter (\<lambda>r. ds_user_id r = v) rows"
    if "\<And>r. r \<in> set rows \<Longrightarrow> P r \<Longrightarrow> ds_user_id r \<noteq> v \<and> ds_user_id (f r) \<noteq> v" for rows
    using that by (induction rows) (auto simp: sql_update_def)
  then show ?thesis using assms by (simp add: tenant_rows_def update_sources_def)
qed

lemma tenant_rows_insert: "ds_user_id ds \<noteq> v \<Longrightarrow> tenant_rows v (snd (insert_source ck ds w)) = tenant_rows v w"
  by (simp add: insert_source_def tenant_rows_def Let_def)

lemma tenant_rows_update_unique:
  assumes "u \<noteq> v" and "keeps_identity (live_source k u) f"
  shows "tenant_rows v (snd (update_unique ck (live_source k u) f w)) = tenant_rows v w"
  using assms tenant_rows_update [of w "live_source k u" v f]
  by (auto simp: update_unique_def keeps_identity_def live_source_def)

interpretation tenant: evolution "tenant_keeps ck v" for ck v
  by unfold_locales
     (use source_evol.R_refl source_evol.R_trans source_evol.R_tick in
       \<open>auto simp: tenant_keeps_def tenant_rows_def tick_def\<close>)

lemma live_source_user: "live_source k u r \<Longrightarrow> ds_user_id r = u"
  by (simp add: live_source_def)

interpretation tenant: source_client "tenant_keeps ck v" ck "\<lambda>u. u \<noteq> v" "\<lambda>_. True" for ck v
proof
  show "sources_evolve ck w w'" if "tenant_keeps ck v w w'" for w w'
    using that by (simp add: tenant_keeps_def)
  show "tenant_keeps ck v w (snd (insert_source ck ds w))" if "ds_user_id ds \<noteq> v" for ds w
    using that by (simp add: tenant_keeps_def insert_source_evolves tenant_rows_insert)
  show "tenant_keeps ck v w (snd (update_unique ck (live_source k u) f w))"
    if "u \<noteq> v" "keeps_identity (live_source k u) f" for u k f w
    using that by (simp add: tenant_keeps_def update_unique_evolves tenant_rows_update_unique)
  show "tenant_keeps ck v w
      (snd (update_sources (\<lambda>r. ds_id r = k) (\<lambda>r. r\<lparr>ds_password_ciphertext := c, ds_updated_at := t\<rparr>) w))"
    if "sources_wf ck w" "source_at w k = Some r" "ds_user_id r \<noteq> v" for w k r c t
  proof -
    have "r' = r" if "r' \<in> set (w_sources w)" "ds_id r' = k" for r'
      using that \<open>sources_wf ck w\<close> \<open>source_at w k = Some r\<close> lookup_distinct [of ds_id "w_sources w" r']
      by (simp add: sources_wf_def)
    then show ?thesis
      using that by (auto simp: tenant_keeps_def cipher_evolves intro!: tenant_rows_update)
  qed
  show "tenant_keeps ck v w
      (snd (update_sources (live_source k u) (\<lambda>r. r\<lparr>ds_deleted_at := Some t, ds_updated_at := t\<rparr>) w))"
    if "u \<noteq> v" "sources_wf ck w" for u k w t
    using that by (auto simp: tenant_keeps_def delete_evolves_sources intro!: tenant_rows_update dest: live_source_user)
qed

interpretation tenant: writing_client "tenant_keeps ck v" ck "\<lambda>u. u \<noteq> v" "\<lambda>_. True" for ck v
  by unfold_locales simp_all
section \<open>Valid rows\<close>

definition valid_source :: "data_source \<Rightarrow> bool" where
  "valid_source r = (validateLabel (ds_label r) = None \<and> validateHost (ds_host r) = None \<and> ds_port r \<noteq> 0 \<and>
     validateDBName (ds_database_name r) = None \<and> validateUsername (ds_username r) = None \<and>
     ds_tls_mode r \<in> {TLSDisabled, TLSVerifyFull})"

definition all_valid :: "world \<Rightarrow> bool" where
  "all_valid w = (\<forall>r \<in> set (w_sources w). valid_source r)"

definition valid_keeps :: "(string \<Rightarrow> string) \<Rightarrow> world \<Rightarrow> world \<Rightarrow> bool" where
  "valid_keeps ck w w' = (sources_evolve ck w w' \<and> (all_valid w \<longrightarrow> all_valid w'))"

lemma valid_new: "validateCreateInput i = None \<Longrightarrow> valid_source (new_source u i t)"
  by (auto simp: validateCreateInput_def valid_source_def new_source_def validateTLSMode_def split: if_splits)

lemma valid_patch:
  assumes "validateUpdateInput i = None" and "valid_source r"
  shows "valid_source (apply_patch t ((patch_of i)\<lparr>up_password_cipher := c\<rparr>) r)"
  using assms
  by (auto simp: validateUpdateInput_def valid_source_def apply_patch_def patch_of_def set_if_def when_given_def
      validateTLSMode_def split: option.splits if_splits)

lemma valid_id [simp]: "valid_source (r\<lparr>ds_id := n\<rparr>) = valid_source r"
  by (simp add: valid_source_def)

lemma valid_update:
  "(\<And>r. valid_source r \<Longrightarrow> valid_source (f r)) \<Longrightarrow> all_valid w \<Longrightarrow> all_valid (snd (update_sources P f w))"
  by (auto simp: all_valid_def update_sources_def in_sql_update)

interpretation valid: evolution "valid_keeps ck" for ck
proof
  show "valid_keeps ck w w" for w by (simp add: valid_keeps_def source_evol.R_refl)
  show "valid_keeps ck a c" if "valid_keeps ck a b" "valid_keeps ck b c" for a b c
    using that source_evol.R_trans [of ck a b c] by (simp add: valid_keeps_def)
  show "valid_keeps ck w (tick d w)" for w d
    by (simp add: valid_keeps_def source_evol.R_tick) (simp add: all_valid_def tick_def)
qed

interpretation valid: source_client "valid_keeps ck" ck "\<lambda>_. True" valid_source for ck
proof
  show "sources_evolve ck w w'" if "valid_keeps ck w w'" for w w'
    using that by (simp add: valid_keeps_def)
  show "valid_keeps ck w (snd (insert_source ck ds w))" if "valid_source ds" for ds w
    using that by (simp add: valid_keeps_def insert_source_evolves) (simp add: insert_source_def all_valid_def Let_def)
  show "valid_keeps ck w (snd (update_unique ck (live_source k u) f w))"
    if "keeps_identity (live_source k u) f" "\<And>r. valid_source r \<Longrightarrow> valid_source (f r)" for u k f w
    using that valid_update [of f w "live_source k u"]
    by (simp add: valid_keeps_def update_unique_evolves) (simp add: update_unique_def)
  show "valid_keeps ck w
      (snd (update_sources (\<lambda>r. ds_id r = k) (\<lambda>r. r\<lparr>ds_password_ciphertext := c, ds_updated_at := t\<rparr>) w))"
    if "sources_wf ck w" for w k c t
    using that by (auto simp: valid_keeps_def cipher_evolves valid_source_def intro!: valid_update)
  show "valid_keeps ck w
      (snd (update_sources (live_source k u) (\<lambda>r. r\<lparr>ds_deleted_at := Some t, ds_updated_at := t\<rparr>) w))"
    if "sources_wf ck w" for u k w t
    using that by (auto simp: valid_keeps_def delete_evolves_sources valid_source_def intro!: valid_update)
qed

interpretation valid: writing_client "valid_keeps ck" ck "\<lambda>_. True" valid_source for ck
  by unfold_locales (simp_all add: valid_new valid_patch)

section \<open>Properties\<close>

text \<open>
  Tenants are isolated: whatever requests a user sends, in whatever order, with whatever statements
  failing and whatever other processes do to other rows, the rows of every other user stay exactly
  as they were, and reading returns live rows of the caller only.
\<close>

theorem tenants_are_isolated:
  assumes "rely (tenant_keeps (sv_collate s) v) m" and "sources_wf (sv_collate s) (m_world m)"
    and "\<And>fs q. (fs, q) \<in> set qs \<Longrightarrow> request_user q \<noteq> v \<and> faults_ok fs"
  shows "tenant_rows v (m_world (snd (run_state (serve_all s qs) m))) = tenant_rows v (m_world m) \<and>
    (\<forall>ds. fst (run_state (ds_get k u) m) = Inr ds \<longrightarrow> live_source k u ds) \<and>
    (\<forall>rows. fst (run_state (ds_list u) m) = Inr rows \<longrightarrow>
       (\<forall>ds \<in> set rows. ds_user_id ds = u \<and> ds_deleted_at ds = None))"
proof (intro conjI allI impI)
  show "tenant_rows v (m_world (snd (run_state (serve_all s qs) m))) = tenant_rows v (m_world m)"
    using tenant.serve_all_keeps [OF assms(1,2) refl assms(3)] by (simp add: tenant_keeps_def)
next
  fix ds assume "fst (run_state (ds_get k u) m) = Inr ds"
  with triple_run [OF tenant.triple_ds_get [OF tenant.sees_history] assms(1), of "m_world m" k u]
  show "live_source k u ds"
    using assms(2) tenant.R_refl by simp
next
  fix rows assume "fst (run_state (ds_list u) m) = Inr rows"
  with triple_run [OF tenant.triple_ds_list [OF tenant.sees_history] assms(1), of "m_world m" u]
  show "\<forall>ds \<in> set rows. ds_user_id ds = u \<and> ds_deleted_at ds = None"
    using assms(2) tenant.R_refl by simp
qed

text \<open>A service over a plain encrypter, and a table with one source of user 7.\<close>

definition plain_service :: ds_service where
  "plain_service = \<lparr>sv_collate = (\<lambda>s. s), sv_encrypt = (\<lambda>p a. Inr (plain_seal a p)),
     sv_decrypt = (\<lambda>c a. case plain_open a c of None \<Rightarrow> Inl (Sentinel ErrDecryptFailed) | Some p \<Rightarrow> Inr p),
     sv_guard = sample_policy\<rparr>"

definition sample_input :: create_input where
  "sample_input = \<lparr>ci_label = ''shop'', ci_host = ''example.org'', ci_port = 3306, ci_database_name = ''shop'',
     ci_username = ''reader'', ci_password = ''secret'', ci_tls_mode = TLSVerifyFull, ci_connect_timeout_sec = 0\<rparr>"

definition sample_source :: data_source where
  "sample_source = (new_source 7 sample_input 5)\<lparr>ds_id := 3\<rparr>"

definition source_world :: world where
  "source_world = empty_world\<lparr>w_sources := [sample_source], w_next_source_id := 4\<rparr>"

lemma source_world_wf [simp]: "sources_wf ck source_world"
  by (simp add: sources_wf_def source_world_def sample_source_def)

theorem tenants_are_isolated_witness:
  "tenant_rows 7 (m_world (snd (run_state (serve_all plain_service
     [([], ReqDelete 3 8), ([Some (NewError ''timeout'')], ReqCreate 9 sample_input)]) (quiet source_world)))) =
     [sample_source]"
proof -
  let ?qs = "[([], ReqDelete 3 8), ([Some (NewError ''timeout'')], ReqCreate 9 sample_input)]"
  have "tenant_rows 7 source_world = [sample_source]"
    by (simp add: tenant_rows_def source_world_def sample_source_def new_source_def)
  moreover have "request_user q \<noteq> 7 \<and> faults_ok fs" if "(fs, q) \<in> set ?qs" for fs q
    using that by auto
  ultimately show ?thesis
    using tenants_are_isolated [of plain_service 7 "quiet source_world" ?qs]
    by (simp del: serve_all.simps)
qed

text \<open>
  C24. Stored sources are well-formed: starting from a table of valid rows with unique ids and labels,
  any sequence of requests among any processes that keep this, and whatever fails, leaves a table of
  valid rows with unique ids and, per user, unique labels.
\<close>

theorem stored_sources_are_valid:
  assumes "rely (valid_keeps (sv_collate s)) m" and "sources_wf (sv_collate s) (m_world m)"
    and "all_valid (m_world m)" and "\<And>fs q. (fs, q) \<in> set qs \<Longrightarrow> faults_ok fs"
  shows "all_valid (m_world (snd (run_state (serve_all s qs) m))) \<and>
    sources_wf (sv_collate s) (m_world (snd (run_state (serve_all s qs) m)))"
  using valid.serve_all_keeps [OF assms(1,2) refl, of qs] assms(2-4)
  by (auto simp: valid_keeps_def sources_evolve_def)

lemma sample_input_valid [simp]: "validateCreateInput sample_input = None"
proof -
  have "rune_count s = length s" "trim_space s = s"
    if "s \<in> {''shop'', ''example.org'', ''reader'', ''secret''}" for s
    using that by (auto simp: rune_count_ascii ascii_def byte_def trim_solid_id solid_def is_space_def)
  then show ?thesis
    by (simp add: validateCreateInput_def sample_input_def validateLabel_def validateHost_def validateDBName_def
        validateUsername_def validateTLSMode_def max_lens contains_byte_def)
qed

lemma sample_source_valid [simp]: "valid_source sample_source"
  by (simp add: sample_source_def valid_new)

theorem stored_sources_are_valid_witness:
  "all_valid (m_world (snd (run_state (serve_all plain_service [([], ReqCreate 9 sample_input), ([], ReqDelete 3 7)])
     (quiet source_world))))"
proof -
  let ?qs = "[([], ReqCreate 9 sample_input), ([], ReqDelete 3 7)]"
  have "all_valid source_world" by (simp add: all_valid_def source_world_def)
  moreover have "faults_ok fs" if "(fs, q) \<in> set ?qs" for fs q using that by auto
  ultimately show ?thesis
    using stored_sources_are_valid [of plain_service "quiet source_world" ?qs]
    by (simp del: serve_all.simps)
qed

lemma ds_create_outcome:
  assumes "rely (sources_evolve (sv_collate s)) m" and "sources_wf (sv_collate s) (m_world m)" and "faults_ok fs"
    and "run_state (ds_create s fs u i) m = (r, m')"
  shows "(\<forall>ds. r = Inr ds \<longrightarrow> validateCreateInput i = None \<and>
       (\<exists>c t. sv_encrypt s (ci_password i) (AAD (ds_id ds)) = Inr c \<and> stored_as (new_source u i t) c (m_world m') ds)) \<and>
    (\<forall>e. r = Inl e \<longrightarrow> validateCreateInput i = Some e \<or> e \<in> {errDuplicateLabel, errInternal})"
proof -
  let ?P = "\<lambda>w. sources_evolve (sv_collate s) (m_world m) w \<and> sources_wf (sv_collate s) (m_world m)"
  have "triple (sources_evolve (sv_collate s)) ?P (ds_create s fs u i) (\<lambda>r w. ?P w \<and>
    (\<forall>ds. r = Inr ds \<longrightarrow> validateCreateInput i = None \<and>
       (\<exists>c t. sv_encrypt s (ci_password i) (AAD (ds_id ds)) = Inr c \<and> stored_as (new_source u i t) c w ds)) \<and>
    (\<forall>e. r = Inl e \<longrightarrow> validateCreateInput i = Some e \<or> e \<in> {errDuplicateLabel, errInternal}))"
    by (rule source_evol.triple_ds_create [OF source_evol.sees_history refl _ _ assms(3)]) simp_all
  from tripleD [OF this assms(1) _ assms(4)] assms(2) source_evol.R_refl show ?thesis by blast
qed

text \<open>
  An accepted source is stored as submitted: when Create succeeds - among any other processes and
  whatever statement failed before - the table holds the row with the caller, the submitted fields
  and the default timeout for zero, its ciphertext decrypts under the row's own additional data to
  the submitted password, and every error is one of the errors for clients.
\<close>

theorem accepted_source_is_stored:
  assumes "rely (sources_evolve (sv_collate s)) m" and "sources_wf (sv_collate s) (m_world m)" and "faults_ok fs"
    and "\<And>p a c. sv_encrypt s p a = Inr c \<Longrightarrow> sv_decrypt s c a = Inr p"
    and "run_state (ds_create s fs u i) m = (r, m')"
  shows "(\<forall>ds. r = Inr ds \<longrightarrow> (\<exists>row. source_at (m_world m') (ds_id ds) = Some row \<and> valid_source row \<and>
      ds_user_id row = u \<and> ds_label row = ci_label i \<and> ds_host row = ci_host i \<and> ds_port row = ci_port i \<and>
      ds_database_name row = ci_database_name i \<and> ds_username row = ci_username i \<and> ds_tls_mode row = ci_tls_mode i \<and>
      ds_connect_timeout_sec row \<noteq> 0 \<and> ds_deleted_at row = None \<and>
      sv_decrypt s (ds_password_ciphertext row) (AAD (ds_id row)) = Inr (ci_password i))) \<and>
    (\<forall>e. r = Inl e \<longrightarrow> validateCreateInput i = Some e \<or> e = errDuplicateLabel \<or> e = errInternal)"
proof -
  have ok: "\<And>ds. r = Inr ds \<Longrightarrow> validateCreateInput i = None \<and>
        (\<exists>c t. sv_encrypt s (ci_password i) (AAD (ds_id ds)) = Inr c \<and> stored_as (new_source u i t) c (m_world m') ds)"
      and err: "\<And>e. r = Inl e \<Longrightarrow> validateCreateInput i = Some e \<or> e \<in> {errDuplicateLabel, errInternal}"
    using ds_create_outcome [OF assms(1-3,5)] by blast+
  have "\<exists>row. source_at (m_world m') (ds_id ds) = Some row \<and> valid_source row \<and>
      ds_user_id row = u \<and> ds_label row = ci_label i \<and> ds_host row = ci_host i \<and> ds_port row = ci_port i \<and>
      ds_database_name row = ci_database_name i \<and> ds_username row = ci_username i \<and> ds_tls_mode row = ci_tls_mode i \<and>
      ds_connect_timeout_sec row \<noteq> 0 \<and> ds_deleted_at row = None \<and>
      sv_decrypt s (ds_password_ciphertext row) (AAD (ds_id row)) = Inr (ci_password i)"
    if ds: "r = Inr ds" for ds
  proof -
    obtain c t n t' where c: "sv_encrypt s (ci_password i) (AAD (ds_id ds)) = Inr c"
        "ds = (new_source u i t)\<lparr>ds_id := n, ds_password_ciphertext := c\<rparr>"
        "source_at (m_world m') n = Some (ds\<lparr>ds_updated_at := t'\<rparr>)" "validateCreateInput i = None"
      using ok [OF ds] by (auto simp: stored_as_def)
    have "valid_source (ds\<lparr>ds_updated_at := t'\<rparr>)"
      using valid_new [OF c(4), of u t] by (simp add: c(2) valid_source_def)
    then show ?thesis
      using c(1,3) assms(4) [OF c(1)]
      by (intro exI [of _ "ds\<lparr>ds_updated_at := t'\<rparr>"]) (simp add: c(2) new_source_def defaultConnectTimeoutSec_def)
  qed
  with err show ?thesis by blast
qed

theorem accepted_source_is_stored_witness:
  "\<exists>row. source_at (m_world (snd (run_state (ds_create plain_service [] 9 sample_input) (quiet source_world)))) 4 =
     Some row \<and> ds_user_id row = 9 \<and> ds_host row = ''example.org''"
proof -
  obtain r m' where run: "run_state (ds_create plain_service [] 9 sample_input) (quiet source_world) = (r, m')"
    by fastforce
  moreover have "\<exists>ds. r = Inr ds \<and> ds_id ds = 4"
    using run by (auto simp: ds_create_def with_tx_quiet run_tx_def create_tx_def in_tx_def source_create_def
        insert_source_def source_world_def sample_source_def plain_service_def update_ciphertext_def
        update_sources_def Let_def new_source_def)
  moreover have "sv_encrypt plain_service p a = Inr c \<Longrightarrow> sv_decrypt plain_service c a = Inr p" for p a c
    by (auto simp: plain_service_def plain_open_seal)
  ultimately show ?thesis
    using accepted_source_is_stored [of plain_service "quiet source_world" "[]" 9 sample_input r m']
    by (auto simp: sample_input_def)
qed

definition protects :: "nat \<Rightarrow> query_job \<Rightarrow> bool" where
  "protects k j = (jb_data_source_id j = Some (int k) \<and> status_text (jb_status j) \<in> status_text `
     {StatusPending, StatusQueued, StatusGenerating, StatusValidating, StatusExecuting})"

definition deleted_at :: "instant \<Rightarrow> data_source \<Rightarrow> data_source" where
  "deleted_at t r = r\<lparr>ds_deleted_at := Some t, ds_updated_at := t\<rparr>"

lemma soft_delete_affects:
  "sql_first (live_source k u) rows \<noteq> None \<Longrightarrow>
     0 < sql_affected (live_source k u) (\<lambda>r. r\<lparr>ds_deleted_at := Some t, ds_updated_at := t\<rparr>) rows"
proof -
  assume "sql_first (live_source k u) rows \<noteq> None"
  then obtain r where r: "r \<in> set rows" "live_source k u r"
    by (auto simp: sql_first_def find_None_iff)
  then have "ds_deleted_at (r\<lparr>ds_deleted_at := Some t, ds_updated_at := t\<rparr>) \<noteq> ds_deleted_at r"
    by (simp add: live_source_def)
  then have "r\<lparr>ds_deleted_at := Some t, ds_updated_at := t\<rparr> \<noteq> r" by metis
  with r show ?thesis by (auto simp: sql_affected_def length_greater_0_conv filter_empty_conv)
qed

lemma ds_delete_quiet:
  "run_state (ds_delete [] k u) (quiet w) =
     (if sql_first (live_source k u) (w_sources w) = None then (Some errNotFound, quiet w)
      else if \<exists>j \<in> set (w_jobs w). protects k j then (Some errHasActiveJobs, quiet w)
      else (None, quiet (w\<lparr>w_sources := sql_update (live_source k u) (deleted_at (w_clock w)) (w_sources w)\<rparr>)))"
proof -
  have count: "0 < sql_count (\<lambda>j. jb_data_source_id j = Some (int k) \<and> status_text (jb_status j) \<in> set activeStatuses) (w_jobs w)
      \<longleftrightarrow> (\<exists>j \<in> set (w_jobs w). protects k j)"
    by (auto simp: sql_count_def protects_def activeStatuses_def filter_empty_conv)
  have find: "fst (select_source (live_source k u) w) = (case sql_first (live_source k u) (w_sources w) of
      None \<Rightarrow> Inl (Sentinel GormErrRecordNotFound) | Some r \<Rightarrow> Inr r)" "snd (select_source (live_source k u) w) = w"
    by (simp_all add: select_source_def)
  show ?thesis
  proof (cases "sql_first (live_source k u) (w_sources w)")
    case None
    then show ?thesis
      by (simp add: ds_delete_def with_tx_quiet run_tx_def delete_tx_def in_tx_def source_find_def case_prod_beta
          find not_found_or_def)
  next
    case (Some r)
    note eval = ds_delete_def with_tx_quiet run_tx_def delete_tx_def in_tx_def source_find_def case_prod_beta find
      not_found_or_def has_active_jobs_def source_soft_delete_def update_sources_def
    show ?thesis
    proof (cases "\<exists>j \<in> set (w_jobs w). protects k j")
      case True
      then show ?thesis using count Some by (simp add: eval)
    next
      case False
      then show ?thesis
        using count Some soft_delete_affects [of k u "w_sources w" "w_clock w"]
        by (simp add: eval deleted_at_def [abs_def])
    qed
  qed
qed

text \<open>
  Undisturbed deletion, exactly: a source that is missing, foreign or deleted is reported as not
  found; one that a pending, queued, generating, validating or executing job references is kept and
  reported; any other is marked deleted with the current time. Jobs waiting for a retry are not among
  those that protect a source, although a retrying job is not terminal.
\<close>

theorem undisturbed_deletion:
  "run_state (ds_delete [] k u) (quiet w) =
     (if sql_first (live_source k u) (w_sources w) = None then (Some errNotFound, quiet w)
      else if \<exists>j \<in> set (w_jobs w). protects k j then (Some errHasActiveJobs, quiet w)
      else (None, quiet (w\<lparr>w_sources := sql_update (live_source k u) (deleted_at (w_clock w)) (w_sources w)\<rparr>)))"
  by (rule ds_delete_quiet)


definition sample_driver :: driver where
  "sample_driver = \<lparr>dr_sys_cas = None, dr_random = Inr ''12345678'', dr_connector = (\<lambda>c. None), dr_ping = (\<lambda>a c. None)\<rparr>"


definition no_change :: update_input where
  "no_change = \<lparr>ui_label = None, ui_host = None, ui_port = None, ui_database_name = None, ui_username = None,
     ui_password = None, ui_tls_mode = None, ui_connect_timeout_sec = None\<rparr>"

text \<open>
  A connect timeout of zero passes the validation of an update, which stores it as it is - unlike
  creation, where zero stands for the default - and from then on the connection test of the source
  fails whatever the database answers.
\<close>

theorem zero_timeout_breaks_the_test:
  "validateUpdateInput (no_change\<lparr>ui_connect_timeout_sec := Some 0\<rparr>) = None \<and>
   ds_connect_timeout_sec (apply_patch t (patch_of (no_change\<lparr>ui_connect_timeout_sec := Some 0\<rparr>)) ds) = 0 \<and>
   (\<exists>e reg'. openAndPing d s (ds\<lparr>ds_connect_timeout_sec := 0\<rparr>) reg = Some (Some e, reg'))"
proof (intro conjI)
  let ?ds = "ds\<lparr>ds_connect_timeout_sec := 0\<rparr>"
  show "\<exists>e reg'. openAndPing d s ?ds reg = Some (Some e, reg')"
  proof (cases "sv_decrypt s (ds_password_ciphertext ds) (AAD (ds_id ds))")
    case (Inr password)
    note decrypted = this
    show ?thesis
    proof (cases "net_validate (sv_guard s) (ds_host ds) (ds_port ds)")
      case (Inr t)
      obtain r reg' where "buildDB d (sv_guard s) ?ds password t reg = Some (r, reg')"
        using buildDB_total [OF Inr, of d ?ds password reg] by auto
      then show ?thesis using decrypted Inr by (cases r) (simp_all add: openAndPing_def ping_def)
    qed (simp add: openAndPing_def decrypted)
  qed (simp add: openAndPing_def)
qed (simp_all add: validateUpdateInput_def no_change_def when_given_def apply_patch_def patch_of_def set_if_def)

end
