(* ===== verification/Job_Service_Props.thy ===== *)
theory Job_Service_Props
  imports Job_Service Datasource_Properties
begin

text \<open>
  What the API side of query jobs guarantees: an accepted submission is kept for the dispatcher, a
  result is only handed to the owner of a succeeded job, and the race of a submission with a deletion
  of its data source.
\<close>

section \<open>Submission\<close>

lemma read_only_triple:
  assumes "stable R P" and "evolution R" and "\<And>t w. snd (op_stmt op t w) = w"
  shows "triple R P (on_pool op) (\<lambda>r. P)"
  by (rule evolution.triple_pool [OF assms(2,1)]) (simp_all add: assms(3))

lemma submitted_fresh [simp]: "jb_status (submitted_job u q d t) = StatusPending"
  by (simp add: submitted_job_def)

lemma ownsJob_submitted: "u < 2 ^ 64 \<Longrightarrow> ownsJob (submitted_job u q d t) u"
  by (simp add: ownsJob_def submitted_job_def)

text \<open>What a committed submission leaves: the job as submitted, queued, and accounted for.\<close>

definition submission_kept :: "query_job \<Rightarrow> query_job \<Rightarrow> world \<Rightarrow> bool" where
  "submission_kept job j w = (jb_status j = StatusQueued \<and> job_accounted (jb_id j) w \<and>
     (\<exists>row. job_at w (jb_id j) = Some row \<and> jb_status row = StatusQueued \<and> jb_question row = jb_question job \<and>
        jb_user_id row = jb_user_id job \<and> jb_data_source_id row = jb_data_source_id job))"

lemma enqueue_kept:
  assumes "jobs_wf w" and "jb_status job = StatusPending" and "create_and_enqueue_tx t job event w = (Inr j, w')"
  shows "submission_kept job j w'"
proof -
  note s = enqueue_success [OF assms(3)]
  have jobs: "w_jobs w' = sql_update (\<lambda>r. jb_id r = w_next_job_id w \<and> jb_status r = StatusPending)
      (\<lambda>r. r\<lparr>jb_status := StatusQueued, jb_updated_at := t\<rparr>) (w_jobs w @ [job\<lparr>jb_id := w_next_job_id w\<rparr>])"
    using s(5) by (simp add: cas_job_def insert_job_def Let_def)
  have "job_at w' (jb_id j) = Some (job\<lparr>jb_id := w_next_job_id w, jb_status := StatusQueued, jb_updated_at := t\<rparr>)"
    by (simp add: jobs s(1) transition_cas.lookup_self jobs_wf_fresh [OF assms(1)] assms(2))
  moreover have "job_accounted (jb_id j) w'"
    by (simp add: job_accounted_def s(1,3) enqueued_event_def)
  ultimately show ?thesis by (simp add: submission_kept_def s(2))
qed

lemma enqueue_succeeds:
  assumes "jobs_wf w" and "jb_status job = StatusPending"
    and "\<And>e. e \<in> set (w_outbox w) \<Longrightarrow> ob_message_id e \<noteq> ob_message_id event \<and> ob_job_id e \<noteq> w_next_job_id w"
  shows "\<exists>j w'. create_and_enqueue_tx t job event w = (Inr j, w') \<and> w_sources w' = w_sources w \<and>
    jb_data_source_id j = jb_data_source_id job \<and> jb_status j = StatusQueued"
proof -
  obtain j w1 where ins: "insert_job job w = (j, w1)" by fastforce
  note hit = pending_to_queued_hit [OF assms(1,2) ins]
  have frame: "w_sources w1 = w_sources w" "w_outbox w1 = w_outbox w" "jb_data_source_id j = jb_data_source_id job"
    using ins by (auto simp: insert_job_def Let_def)
  show ?thesis
    using hit(3) [of t] assms(3) frame
    by (auto simp: create_and_enqueue_tx_def ins Let_def hit(1) cas_job_def list_ex_iff)
qed

lemma triple_enqueue:
  assumes "sys.knows P" and "fresh_event event" and "jb_status job = StatusPending"
  shows "triple sys_evolves P (ext (create_and_enqueue_tx t job event))
    (\<lambda>r w. P w \<and> (\<forall>j. r = Inr j \<longrightarrow> submission_kept job j w))"
proof (rule sys.triple_ext [OF sys.knows_stable [OF assms(1)]])
  fix w assume w: "P w"
  have step: "P (snd (create_and_enqueue_tx t job event w))"
    by (rule sys.knows_step [OF assms(1) w sys_enqueue [OF assms(2)]])
  have "submission_kept job j (snd (create_and_enqueue_tx t job event w))"
    if "fst (create_and_enqueue_tx t job event w) = Inr j" for j
    using enqueue_kept [OF sys.knows_wf [OF assms(1) w] assms(3), of t event j] that by (metis prod.collapse)
  with step show "P (snd (create_and_enqueue_tx t job event w)) \<and>
      (\<forall>j. fst (create_and_enqueue_tx t job event w) = Inr j \<longrightarrow>
        submission_kept job j (snd (create_and_enqueue_tx t job event w)))" by blast
  show "\<And>e. P (snd (create_and_enqueue_tx t job event w)) \<and>
      (\<forall>j. Inl e = Inr j \<longrightarrow> submission_kept job j (snd (create_and_enqueue_tx t job event w)))"
    using step by simp
qed simp

definition submit_errors :: "go_error set" where
  "submit_errors = {ServiceError ErrCodeInvalidQuestion ''question must be 1-500 characters'',
     ServiceError ErrCodeMissingDataSource ''data_source_id is required'',
     ServiceError ErrCodeDataSourceNotFound ''data source not found'',
     ServiceError ErrCodeInternal msgInternal}"

lemma triple_Submit:
  assumes P: "sys.knows P" and "\<And>k u. triple sys_evolves P (existsForUser k u) (\<lambda>r. P)"
  shows "triple sys_evolves P (Submit existsForUser messageID u q d) (\<lambda>r w. P w \<and>
    (\<forall>j. r = Inr j \<longrightarrow> trim_space q \<noteq> [] \<and> rune_count (trim_space q) \<le> maxQuestionLen \<and> d \<noteq> 0 \<and>
       (\<exists>t. submission_kept (submitted_job u (trim_space q) d t) j w)) \<and>
    (\<forall>e. r = Inl e \<longrightarrow> e \<in> submit_errors))"
    (is "triple _ _ _ ?Q")
proof -
  have commit: "triple sys_evolves P
      (State_Monad.bind (create_and_enqueue (submitted_job u (trim_space q) d t) (newOutboxEvent 0 messageID t))
        (\<lambda>r. State_Monad.return (case r of Inl err \<Rightarrow> Inl (ServiceError ErrCodeInternal msgInternal) | Inr j \<Rightarrow> Inr j)))
      (\<lambda>r w. P w \<and> (\<forall>j. r = Inr j \<longrightarrow> submission_kept (submitted_job u (trim_space q) d t) j w) \<and>
        (\<forall>e. r = Inl e \<longrightarrow> e \<in> submit_errors))" for t
    unfolding create_and_enqueue_def
    by (rule triple_bind [OF triple_bind [OF triple_now [where Q = "\<lambda>_. P"]]], assumption,
        rule triple_enqueue [OF P]) (auto intro!: triple_return simp: submit_errors_def split: sum.splits)
  show ?thesis
    unfolding Submit_def Let_def
    by (auto intro!: triple_return triple_bind [OF assms(2)] triple_bind [OF triple_now [where Q = "\<lambda>_. P"]]
          triple_conseq [OF commit] simp: submit_errors_def not_le split: sum.split bool.split, blast)
qed

section \<open>Results\<close>

definition result_errors :: "go_error set" where
  "result_errors = {ServiceError ErrCodeQueryJobFailed ''query job failed'',
     ServiceError ErrCodeResultNotReady ''result is not ready yet'',
     ServiceError ErrCodeResultUnavailable ''result is not available'',
     ServiceError ErrCodeResultExpired ''result has expired'',
     ServiceError ErrCodeResultCorrupted ''result data is corrupted'',
     ServiceError ErrCodeResultStoreUnavail ''result store is unavailable''}"

lemma mapStoreError_range: "mapStoreError e t x \<in> result_errors"
  by (simp add: mapStoreError_def result_errors_def)

text \<open>An owned job in a final state stays that: rows are never taken over, final rows never change.\<close>

definition finished_for :: "nat \<Rightarrow> nat \<Rightarrow> world \<Rightarrow> bool" where
  "finished_for callerID k w = (\<exists>job. job_at w k = Some job \<and> ownsJob job callerID \<and> is_terminal (jb_status job) \<and>
     jb_status job \<noteq> StatusFailed \<and> jb_result_expires_at job \<noteq> None)"

definition owned_by :: "nat \<Rightarrow> nat \<Rightarrow> world \<Rightarrow> bool" where
  "owned_by callerID k w = (\<exists>job. job_at w k = Some job \<and> ownsJob job callerID)"

lemma finished_owned: "finished_for callerID k w \<Longrightarrow> owned_by callerID k w"
  by (auto simp: finished_for_def owned_by_def)

lemma owned_before:
  assumes "sys_evolves w w'" and "job_at w k = Some row" and "owned_by callerID k w'"
  shows "ownsJob row callerID"
proof -
  obtain row' where "job_at w' k = Some row'" "job_row_evolves row row'"
    by (rule job_evolvesD [OF sys_evolvesD(1) [OF assms(1)] assms(2)])
  with assms(3) show ?thesis by (auto simp: owned_by_def ownsJob_def job_row_evolves_def)
qed

lemma stable_finished: "stable sys_evolves (finished_for callerID k)"
  unfolding stable_def
proof (intro allI impI)
  fix w w' assume "finished_for callerID k w" and R: "sys_evolves w w'"
  then obtain job where job: "job_at w k = Some job" "ownsJob job callerID" "is_terminal (jb_status job)"
      "jb_status job \<noteq> StatusFailed" "jb_result_expires_at job \<noteq> None"
    by (auto simp: finished_for_def)
  obtain job' where "job_at w' k = Some job'" "job_row_evolves job job'"
    by (rule job_evolvesD [OF sys_evolvesD(1) [OF R] job(1)])
  with job job_row_evolves_terminal [of job job'] show "finished_for callerID k w'"
    by (simp add: finished_for_def)
qed

lemma triple_GetResult:
  assumes P: "sys.knows P" and "\<And>Q. stable sys_evolves Q \<Longrightarrow> triple sys_evolves Q (storeGet k) (\<lambda>r. Q)"
  shows "triple sys_evolves P (GetResult storeGet callerID k) (\<lambda>r w. P w \<and>
    (\<forall>res. r = Inr res \<longrightarrow> finished_for callerID k w) \<and>
    (\<forall>e. r = Inl e \<longrightarrow> e \<in> result_errors \<and> owned_by callerID k w \<or> e = Sentinel ErrJobNotFound \<or> driver_error e))"
    (is "triple _ _ _ ?Q")
proof -
  have read: "triple sys_evolves (\<lambda>w. P w \<and> finished_for callerID k w)
      (State_Monad.bind (storeGet k) (\<lambda>s. case s of
          Inr res \<Rightarrow> State_Monad.return (Inr res)
        | Inl err \<Rightarrow> State_Monad.bind now (\<lambda>t. State_Monad.return (Inl (mapStoreError err t expires))))) ?Q" for expires
    by (rule triple_bind [OF assms(2) [OF stable_conj [OF sys.knows_stable [OF P] stable_finished]]])
       (auto intro!: triple_return triple_bind [OF triple_now [where Q = "\<lambda>_ w. P w \<and> finished_for callerID k w"]]
          simp: mapStoreError_range finished_owned split: sum.split)
  show ?thesis
    unfolding GetResult_def
  proof (rule triple_bind [OF sys.triple_find [OF P]])
    fix r :: "go_error + query_job"
    show "triple sys_evolves (\<lambda>w. P w \<and> (\<forall>j. r = Inr j \<longrightarrow> job_at w k = Some j) \<and>
          (\<forall>e. r = Inl e \<longrightarrow> driver_error e \<or> e = Sentinel ErrJobNotFound \<and> job_at w k = None))
       (case r of Inl e \<Rightarrow> State_Monad.return (Inl e)
        | Inr job \<Rightarrow> if \<not> ownsJob job callerID then State_Monad.return (Inl (Sentinel ErrJobNotFound))
            else if jb_status job = StatusFailed
            then State_Monad.return (Inl (ServiceError ErrCodeQueryJobFailed ''query job failed''))
            else if \<not> is_terminal (jb_status job)
            then State_Monad.return (Inl (ServiceError ErrCodeResultNotReady ''result is not ready yet''))
            else case jb_result_expires_at job of
                None \<Rightarrow> State_Monad.return (Inl (ServiceError ErrCodeResultUnavailable ''result is not available''))
              | Some expires \<Rightarrow> State_Monad.bind (storeGet k) (\<lambda>s. case s of
                  Inl err \<Rightarrow> State_Monad.bind now (\<lambda>t. State_Monad.return (Inl (mapStoreError err t expires)))
                | Inr res \<Rightarrow> State_Monad.return (Inr res))) ?Q"
      by (auto intro!: triple_return triple_conseq [OF read] simp: result_errors_def finished_for_def owned_by_def
          split: sum.split option.split)
  qed
qed

lemma store_get_keeps:
  assumes "stable sys_evolves Q"
  shows "triple sys_evolves Q (store_get decode k) (\<lambda>r. Q)"
  unfolding store_get_def
  by (rule triple_bind [OF sys.triple_ext [OF assms, where Q = "\<lambda>r. Q"]]) (auto intro: triple_return)

section \<open>Properties\<close>

text \<open>
  C27. An accepted submission is kept: whatever the other processes do within the evolution of the system
  and whatever calls fail, a job that Submit returns has a trimmed question of 1 to 500 characters, is in
  the table, queued, with the caller as owner and the data source it names, and is accounted for - its
  outbox event or a message of it exists. Every error is one of the four for clients.
\<close>

theorem accepted_submission_is_kept:
  assumes "rely sys_evolves m" and "jobs_wf (m_world m)" and "u < 2 ^ 64"
    and "run_state (Submit (\<lambda>k u. on_pool (exists_for_user k u)) messageID u q d) m = (r, m')"
  shows "(\<forall>j. r = Inr j \<longrightarrow> jb_status j = StatusQueued \<and> trim_space q \<noteq> [] \<and> rune_count (trim_space q) \<le> 500 \<and> d \<noteq> 0 \<and>
      job_accounted (jb_id j) (m_world m') \<and>
      (\<exists>row. job_at (m_world m') (jb_id j) = Some row \<and> jb_status row = StatusQueued \<and> ownsJob row u \<and>
         jb_question row = trim_space q \<and> jb_data_source_id row = Some (int64_of (int d)))) \<and>
    (\<forall>e. r = Inl e \<longrightarrow> e \<in> submit_errors)"
proof -
  let ?P = "\<lambda>w. sys_evolves (m_world m) w \<and> jobs_wf (m_world m)"
  have P: "sys.knows ?P" by (rule sys.knows_history)
  have "triple sys_evolves ?P (on_pool (exists_for_user k u)) (\<lambda>r. ?P)" for k u
    by (rule read_only_triple [OF sys.knows_stable [OF P] sys.evolution_axioms]) (simp add: exists_for_user_def)
  from tripleD [OF triple_Submit [OF P this] assms(1) _ assms(4)] assms(2) sys.R_refl
  have "(\<forall>j. r = Inr j \<longrightarrow> trim_space q \<noteq> [] \<and> rune_count (trim_space q) \<le> maxQuestionLen \<and> d \<noteq> 0 \<and>
       (\<exists>t. submission_kept (submitted_job u (trim_space q) d t) j (m_world m'))) \<and> (\<forall>e. r = Inl e \<longrightarrow> e \<in> submit_errors)"
    by blast
  then show ?thesis
    using ownsJob_submitted [OF assms(3)]
    by (fastforce simp: submission_kept_def maxQuestionLen_def ownsJob_def submitted_job_def)
qed

definition shop_world :: world where
  "shop_world = ready_world\<lparr>w_sources := [sample_source], w_next_source_id := 4\<rparr>"

lemma shop_world_wf [simp]: "jobs_wf shop_world" "sources_wf ck shop_world"
  using ready_world_wf(2) source_world_wf [of ck]
  by (simp_all add: shop_world_def jobs_wf_def sources_wf_def source_world_def)

lemma sample_question [simp]: "trim_space ''top products'' = ''top products''" "rune_count ''top products'' = 12"
proof -
  have "runes ''top products'' = map (\<lambda>c. (byte c, [c])) ''top products''"
    by (simp add: runes_ascii_Cons byte_def)
  then show "rune_count ''top products'' = 12" "trim_space ''top products'' = ''top products''"
    by (simp_all add: rune_count_def trim_space_def is_space_def byte_def)
qed

lemma sample_submission:
  "fst (run_state (Submit (\<lambda>k u. on_pool (exists_for_user k u)) ''m2'' 7 ''top products'' 3) (quiet shop_world)) =
     Inr ((submitted_job 7 ''top products'' 3 6)\<lparr>jb_id := 2, jb_status := StatusQueued\<rparr>)"
  by (simp add: Submit_def on_pool_quiet exists_for_user_def shop_world_def sample_source_def new_source_def
      sql_count_def live_source_def maxQuestionLen_def create_and_enqueue_def create_and_enqueue_tx_def
      insert_job_def cas_job_def Let_def ready_world_def submitted_world_def empty_world_def sample_job_def
      sample_event_def sql_affected_def sql_update_def newOutboxEvent_def submitted_job_def)

theorem accepted_submission_is_kept_witness:
  "\<exists>row. job_at (m_world (snd (run_state (Submit (\<lambda>k u. on_pool (exists_for_user k u)) ''m2'' 7 ''top products'' 3)
     (quiet shop_world)))) 2 = Some row \<and> jb_status row = StatusQueued \<and> ownsJob row 7"
proof -
  obtain r m' where run: "run_state (Submit (\<lambda>k u. on_pool (exists_for_user k u)) ''m2'' 7 ''top products'' 3)
      (quiet shop_world) = (r, m')" by fastforce
  then have "r = Inr ((submitted_job 7 ''top products'' 3 6)\<lparr>jb_id := 2, jb_status := StatusQueued\<rparr>)"
    using sample_submission by simp
  with accepted_submission_is_kept [OF _ _ _ run] show ?thesis by (auto simp: run)
qed

text \<open>
  C28. Results are private: a cached result is only handed out when the job of that id belongs to the
  caller, is in a final state and did not fail; about a job of someone else the caller learns what he
  learns about one that does not exist, or that a driver failed. Other errors are the six for clients.
\<close>

theorem results_are_private:
  assumes "rely sys_evolves m" and "jobs_wf (m_world m)"
    and "run_state (GetResult (store_get decode) callerID k) m = (r, m')"
  shows "(\<forall>res. r = Inr res \<longrightarrow> finished_for callerID k (m_world m')) \<and>
    (\<forall>e. r = Inl e \<longrightarrow> e \<in> result_errors \<or> e = Sentinel ErrJobNotFound \<or> driver_error e) \<and>
    (\<forall>row. job_at (m_world m) k = Some row \<and> \<not> ownsJob row callerID \<longrightarrow>
       (\<exists>e. r = Inl e \<and> (e = Sentinel ErrJobNotFound \<or> driver_error e)))"
proof -
  have "triple sys_evolves (\<lambda>w. sys_evolves (m_world m) w \<and> jobs_wf (m_world m)) (GetResult (store_get decode) callerID k)
    (\<lambda>r w. (sys_evolves (m_world m) w \<and> jobs_wf (m_world m)) \<and> (\<forall>res. r = Inr res \<longrightarrow> finished_for callerID k w) \<and>
      (\<forall>e. r = Inl e \<longrightarrow> e \<in> result_errors \<and> owned_by callerID k w \<or> e = Sentinel ErrJobNotFound \<or> driver_error e))"
    by (rule triple_GetResult [OF sys.knows_history store_get_keeps])
  from tripleD [OF this assms(1) _ assms(3)] assms(2) sys.R_refl
  have run: "sys_evolves (m_world m) (m_world m')" "\<forall>res. r = Inr res \<longrightarrow> finished_for callerID k (m_world m')"
    "\<forall>e. r = Inl e \<longrightarrow> e \<in> result_errors \<and> owned_by callerID k (m_world m') \<or> e = Sentinel ErrJobNotFound \<or> driver_error e"
    by blast+
  have "ownsJob row callerID" if "job_at (m_world m) k = Some row" "owned_by callerID k (m_world m')" for row
    using owned_before [OF run(1) that] .
  then show ?thesis using run(2,3) finished_owned by (cases r) blast+
qed

theorem results_are_private_witness:
  "\<exists>e. fst (run_state (GetResult (store_get (\<lambda>s. Inl (NewError ''bad''))) 8 1) (quiet ready_world)) = Inl e \<and>
     (e = Sentinel ErrJobNotFound \<or> driver_error e)"
proof -
  obtain r m' where run: "run_state (GetResult (store_get (\<lambda>s. Inl (NewError ''bad''))) 8 1) (quiet ready_world) = (r, m')"
    by fastforce
  have "\<not> ownsJob (sample_job\<lparr>jb_id := 1, jb_status := StatusQueued, jb_updated_at := 6\<rparr>) 8"
    by (simp add: ownsJob_def sample_job_def uint64_of_def)
  with results_are_private [OF _ _ run] ready_world_job show ?thesis unfolding run by simp
qed

definition ok_call :: "(world \<Rightarrow> world) \<Rightarrow> ext_call" where
  "ok_call f = \<lparr>xc_interference = f, xc_delay = 0, xc_outcome = CallOk\<rparr>"

text \<open>
  C29. A submission can slip past a deletion: between the check of the data source and the commit of the
  job, its owner can delete the source. The deletion succeeds, the submission is accepted, and the
  queued job names a deleted source - the shared lock of the deletion reads rows that do not exist yet.
\<close>

theorem submission_slips_past_deletion:
  assumes "source_at w k = Some ds" and "live_source k u ds" and "\<And>j. j \<in> set (w_jobs w) \<Longrightarrow> \<not> protects k j"
    and "k \<noteq> 0" and "trim_space q \<noteq> []" and "rune_count (trim_space q) \<le> 500"
    and "jobs_wf w" and "\<And>e. e \<in> set (w_outbox w) \<Longrightarrow> ob_message_id e \<noteq> messageID \<and> ob_job_id e \<noteq> w_next_job_id w"
  shows "\<exists>j m' ds'. run_state (Submit (\<lambda>k u. on_pool (exists_for_user k u)) messageID u q k)
       \<lparr>m_world = w, m_script = [ok_call (\<lambda>w. w), ok_call (\<lambda>w. m_world (snd (run_state (ds_delete [] k u) (quiet w))))]\<rparr>
       = (Inr j, m') \<and>
     jb_status j = StatusQueued \<and> jb_data_source_id j = Some (int64_of (int k)) \<and>
     fst (run_state (ds_delete [] k u) (quiet w)) = None \<and>
     source_at (m_world m') k = Some ds' \<and> ds_deleted_at ds' \<noteq> None"
proof -
  let ?del = "\<lambda>w. m_world (snd (run_state (ds_delete [] k u) (quiet w)))"
  let ?w' = "w\<lparr>w_sources := sql_update (live_source k u) (deleted_at (w_clock w)) (w_sources w)\<rparr>"
  let ?job = "submitted_job u (trim_space q) k (w_clock w)"
  have ds: "ds \<in> set (w_sources w)" using assms(1) lookup_key by metis
  have first: "sql_first (live_source k u) (w_sources w) \<noteq> None"
    using ds assms(2) by (auto simp: sql_first_def find_None_iff)
  have del: "run_state (ds_delete [] k u) (quiet w) = (None, quiet ?w')"
    using first assms(3) by (auto simp: ds_delete_quiet)
  have exists: "0 < sql_count (live_source k u) (w_sources w)"
    using ds assms(2) by (auto simp: sql_count_def filter_empty_conv)
  have gone: "source_at ?w' k = Some (deleted_at (w_clock w) ds)"
    using assms(1,2) by (simp add: lookup_update deleted_at_def)
  have "jobs_wf ?w'" using assms(7) by (simp add: jobs_wf_def)
  from enqueue_succeeds [OF this submitted_fresh, of "newOutboxEvent 0 messageID (w_clock w)" "w_clock w" u "trim_space q" k "w_clock w"]
  obtain j w2 where enq: "create_and_enqueue_tx (w_clock w) ?job (newOutboxEvent 0 messageID (w_clock w)) ?w' = (Inr j, w2)"
      "w_sources w2 = w_sources ?w'" "jb_data_source_id j = jb_data_source_id ?job" "jb_status j = StatusQueued"
    using assms(8) by (auto simp: newOutboxEvent_def)
  have marked: "ds_deleted_at (deleted_at t ds) \<noteq> None" for t by (simp add: deleted_at_def)
  have tick: "tick 0 v = v" for v by (simp add: tick_def)
  have "run_state (Submit (\<lambda>k u. on_pool (exists_for_user k u)) messageID u q k)
       \<lparr>m_world = w, m_script = [ok_call (\<lambda>w. w), ok_call ?del]\<rparr> = (Inr j, \<lparr>m_world = w2, m_script = []\<rparr>)"
    using assms(4-6) exists enq(1)
    by (simp add: Submit_def Let_def maxQuestionLen_def on_pool_def exists_for_user_def ext_def ok_call_def tick
        create_and_enqueue_def del)
  then show ?thesis
    using enq(2-4) gone del marked by (intro exI conjI) (assumption, simp_all add: submitted_job_def)
qed

theorem submission_slips_past_deletion_witness:
  "\<exists>j m' ds'. run_state (Submit (\<lambda>k u. on_pool (exists_for_user k u)) ''m2'' 7 ''top products'' 3)
       \<lparr>m_world = source_world, m_script = [ok_call (\<lambda>w. w),
          ok_call (\<lambda>w. m_world (snd (run_state (ds_delete [] 3 7) (quiet w))))]\<rparr> = (Inr j, m') \<and>
     source_at (m_world m') 3 = Some ds' \<and> ds_deleted_at ds' \<noteq> None"
proof -
  have "source_at source_world 3 = Some sample_source" "live_source 3 7 sample_source" "w_jobs source_world = []"
      "w_outbox source_world = []" "jobs_wf source_world"
    by (simp_all add: source_world_def sample_source_def live_source_def new_source_def empty_world_def jobs_wf_def)
  with submission_slips_past_deletion [where w = source_world and k = 3 and ds = sample_source and u = 7 and q = "''top products''" and messageID = "''m2''"]
  show ?thesis by auto
qed

end
