(* ===== verification/Http_Props.thy ===== *)
theory Http_Props
  imports Http_Api Job_Service_Props
begin

text \<open>
  What clients of the API learn from errors: every error response is one of a fixed list of statuses,
  codes and messages, whatever errors the database, the drivers or the encrypter reported inside.
\<close>

section \<open>The error responses\<close>

definition job_error_responses :: "response list" where
  "job_error_responses = [
     (400, ErrorBody ErrCodeInvalidQuestion ''invalid request body''),
     (400, ErrorBody ErrCodeInvalidQuestion ''question must be 1-500 characters''),
     (400, ErrorBody ErrCodeMissingDataSource ''data_source_id is required''),
     (404, ErrorBody ErrCodeDataSourceNotFound ''data source not found''),
     (400, ErrorBody ErrCodeInvalidJobID ''invalid job id''),
     (404, ErrorBody ErrCodeJobNotFound ''job not found''),
     (409, ErrorBody ErrCodeQueryJobFailed ''query job failed''),
     (409, ErrorBody ErrCodeResultNotReady ''result is not ready yet''),
     (410, ErrorBody ErrCodeResultExpired ''result has expired''),
     (503, ErrorBody ErrCodeResultUnavailable ''result is not available''),
     (503, ErrorBody ErrCodeResultCorrupted ''result data is corrupted''),
     (503, ErrorBody ErrCodeResultStoreUnavail ''result store is unavailable''),
     internal_error]"

definition input_messages :: "string list" where
  "input_messages = [''invalid request body'', ''invalid id'', up_to ''label'' ''100'', up_to ''host'' ''253'',
     ''host contains invalid characters'', ''port must be non-zero'', up_to ''database_name'' ''64'',
     up_to ''username'' ''64'', ''password must not be empty'', ''password must not be empty when provided'',
     ''password too long'']"

definition source_error_responses :: "response list" where
  "source_error_responses = map (\<lambda>m. (400, ErrorBody ''DATA_SOURCE_INVALID_INPUT'' m)) input_messages @
     map writeServiceError [the (validateTLSMode []), errNotFound, errDuplicateLabel, errHasActiveJobs,
       errConnectFailed ''address validation failed'', errConnectFailed ''could not build connection'',
       errConnectFailed ''connection test failed'', errInternal]"

definition opaque :: "response \<Rightarrow> bool" where
  "opaque r = (fst r < 400 \<and> (\<forall>c m. snd r \<noteq> ErrorBody c m) \<or> r \<in> set job_error_responses \<union> set source_error_responses)"

lemma opaque_ok [simp]: "c < 400 \<Longrightarrow> opaque (c, SubmitBody k s t)" "c < 400 \<Longrightarrow> opaque (c, JobBody j)"
  "c < 400 \<Longrightarrow> opaque (c, ResultBody k cols rows n t t')" "c < 400 \<Longrightarrow> opaque (c, SourceBody s')"
  "c < 400 \<Longrightarrow> opaque (c, SourcesBody ss)" "c < 400 \<Longrightarrow> opaque (c, StatusBody s)" "c < 400 \<Longrightarrow> opaque (c, NoBody)"
  by (simp_all add: opaque_def)

lemma opaque_job: "r \<in> set job_error_responses \<Longrightarrow> opaque r"
  by (simp add: opaque_def)

lemma opaque_source: "r \<in> set source_error_responses \<Longrightarrow> opaque r"
  by (simp add: opaque_def)

lemma opaque_fixed [simp]: "opaque internal_error"
  "opaque (400, ErrorBody ErrCodeInvalidQuestion ''invalid request body'')"
  "opaque (400, ErrorBody ErrCodeInvalidJobID ''invalid job id'')"
  "opaque (404, ErrorBody ErrCodeJobNotFound ''job not found'')"
  by (simp_all add: opaque_def job_error_responses_def)

lemma opaque_fixed_source [simp]: "opaque bad_request" "opaque (400, ErrorBody ''DATA_SOURCE_INVALID_INPUT'' ''invalid id'')"
  by (simp_all add: opaque_def source_error_responses_def bad_request_def input_messages_def)

lemma job_codes_distinct: "distinct [ErrCodeInvalidQuestion, ErrCodeMissingDataSource, ErrCodeDataSourceNotFound,
    ErrCodePublishFailed, ErrCodeInternal, ErrCodeResultNotReady, ErrCodeQueryJobFailed, ErrCodeResultExpired,
    ErrCodeResultUnavailable, ErrCodeResultStoreUnavail, ErrCodeResultCorrupted]"
  by (simp add: job_codes)

lemma submit_statuses: "serviceErrorStatus ErrCodeInvalidQuestion = 400" "serviceErrorStatus ErrCodeMissingDataSource = 400"
  "serviceErrorStatus ErrCodeDataSourceNotFound = 404" "serviceErrorStatus ErrCodeInternal = 500"
  using job_codes_distinct by (auto simp: serviceErrorStatus_def)

lemma result_statuses: "resultErrorStatus ErrCodeQueryJobFailed = 409" "resultErrorStatus ErrCodeResultNotReady = 409"
  "resultErrorStatus ErrCodeResultExpired = 410" "resultErrorStatus ErrCodeResultUnavailable = 503"
  "resultErrorStatus ErrCodeResultCorrupted = 503" "resultErrorStatus ErrCodeResultStoreUnavail = 503"
  using job_codes_distinct by (auto simp: resultErrorStatus_def)

lemma opaque_submit: "e \<in> submit_errors \<Longrightarrow> \<exists>c m. e = ServiceError c m \<and> opaque (serviceErrorStatus c, ErrorBody c m)"
  unfolding submit_errors_def
  by (elim insertE emptyE) (simp_all add: submit_statuses opaque_def job_error_responses_def internal_error_def msgInternal_def)

lemma opaque_result: "e \<in> result_errors \<Longrightarrow> \<exists>c m. e = ServiceError c m \<and> opaque (resultErrorStatus c, ErrorBody c m)"
  unfolding result_errors_def
  by (elim insertE emptyE) (simp_all add: result_statuses opaque_def job_error_responses_def)

text \<open>The errors of the data source service.\<close>

definition input_errors :: "go_error set" where
  "input_errors = insert (the (validateTLSMode [])) (errBadInput ` set input_messages)"

definition service_errors :: "go_error set" where
  "service_errors = input_errors \<union> {errNotFound, errDuplicateLabel, errHasActiveJobs, errInternal,
     errConnectFailed ''address validation failed'', errConnectFailed ''could not build connection'',
     errConnectFailed ''connection test failed''}"

lemma TLS_error: "validateTLSMode m = Some e \<Longrightarrow> e = the (validateTLSMode [])"
  by (auto simp: validateTLSMode_def TLSDisabled_def TLSVerifyFull_def split: if_splits)

lemmas validate_defs = validateLabel_def validateHost_def validateDBName_def validateUsername_def bad_if_def Let_def

lemma field_errors:
  "validateLabel s = Some e \<Longrightarrow> e \<in> input_errors" "validateHost s = Some e \<Longrightarrow> e \<in> input_errors"
  "validateDBName s = Some e \<Longrightarrow> e \<in> input_errors" "validateUsername s = Some e \<Longrightarrow> e \<in> input_errors"
  "validateTLSMode s = Some e \<Longrightarrow> e \<in> input_errors"
  "bad_if b m = Some e \<Longrightarrow> m \<in> set input_messages \<Longrightarrow> e \<in> input_errors"
  by (auto simp: validate_defs input_errors_def input_messages_def dest: TLS_error split: if_splits)

lemmas field_errors_sym = field_errors [OF sym]

lemma create_errors: "validateCreateInput i = Some e \<Longrightarrow> e \<in> input_errors"
  unfolding validateCreateInput_def
  by (drule first_error_Some) (auto dest: field_errors_sym simp: input_messages_def)

lemma when_given_Some: "when_given x check = Some e \<Longrightarrow> \<exists>v. check v = Some e"
  by (auto simp: when_given_def split: option.splits)

lemma update_errors: "validateUpdateInput i = Some e \<Longrightarrow> e \<in> input_errors"
  unfolding validateUpdateInput_def
  by (drule first_error_Some)
     (auto dest!: when_given_Some [OF sym] dest: field_errors simp: input_messages_def)

lemma opaque_service:
  assumes "e \<in> service_errors"
  shows "opaque (writeServiceError e)"
proof -
  have "writeServiceError (errBadInput m) = (400, ErrorBody ''DATA_SOURCE_INVALID_INPUT'' m)" for m
    by (simp add: writeServiceError_def errBadInput_def)
  then show ?thesis
    using assms by (auto simp: service_errors_def input_errors_def source_error_responses_def intro!: opaque_source)
qed

lemma opaque_driver: "driver_error e \<Longrightarrow> opaque (writeServiceError e)"
  using opaque_service [of errInternal]
  by (auto simp: driver_error_def writeServiceError_def service_errors_def errInternal_def)

section \<open>The handlers\<close>

text \<open>What another process may do to jobs and sources at once.\<close>

definition api_evolves :: "(string \<Rightarrow> string) \<Rightarrow> world \<Rightarrow> world \<Rightarrow> bool" where
  "api_evolves ck w w' = (sys_evolves w w' \<and> sources_evolve ck w w')"

lemma opaque_bind:
  assumes "triple R P p Q" and "\<And>r w. Q r w \<Longrightarrow> opaque (f r)"
  shows "triple R P (State_Monad.bind p (\<lambda>r. State_Monad.return (f r))) (\<lambda>r w. opaque r)"
  by (rule triple_bind [OF assms(1)]) (auto intro: triple_return assms(2))

lemma opaque_return: "opaque r \<Longrightarrow> triple R P (State_Monad.return r) (\<lambda>r w. opaque r)"
  by (rule triple_return)

lemma opaque_with_id: "(\<And>k. triple R P (h k) (\<lambda>r w. opaque r)) \<Longrightarrow> triple R P (with_id param h) (\<lambda>r w. opaque r)"
  by (auto simp: with_id_def intro: opaque_return split: option.split)

lemma opaque_job_handlers:
  assumes P: "sys.knows P"
  shows "triple sys_evolves P (handle_submit (Submit (\<lambda>k u. on_pool (exists_for_user k u)) messageID) u req) (\<lambda>r w. opaque r)"
    and "triple sys_evolves P (handle_get_job u param) (\<lambda>r w. opaque r)"
    and "triple sys_evolves P (handle_get_result (GetResult (store_get decode)) u param) (\<lambda>r w. opaque r)"
proof -
  have exists: "triple sys_evolves P (on_pool (exists_for_user k u)) (\<lambda>r. P)" for k u
    by (rule read_only_triple [OF sys.knows_stable [OF P] sys.evolution_axioms]) (simp add: exists_for_user_def)
  show "triple sys_evolves P (handle_submit (Submit (\<lambda>k u. on_pool (exists_for_user k u)) messageID) u req) (\<lambda>r w. opaque r)"
    unfolding handle_submit_def
    by (auto intro!: opaque_return opaque_bind [OF triple_Submit [OF P exists]] dest!: opaque_submit
        split: option.split sum.splits)
  show "triple sys_evolves P (handle_get_job u param) (\<lambda>r w. opaque r)"
    unfolding handle_get_job_def job_get_def
    by (auto intro!: opaque_return opaque_bind triple_bind [OF sys.triple_find [OF P]] triple_return [where Q = "\<lambda>_ _. True"]
        split: option.split sum.splits)
  have "opaque (case r of Inl e \<Rightarrow> (if errors_is e ErrJobNotFound then (404, ErrorBody ErrCodeJobNotFound ''job not found'')
                      else case as_service_error e of
                        Some (c, m) \<Rightarrow> (resultErrorStatus c, ErrorBody c m) | None \<Rightarrow> internal_error)
           | Inr res \<Rightarrow> (200, ResultBody (cr_job_id res) (cr_columns res) (cr_rows res) (cr_row_count res)
               (cr_cached_at res) (cr_expires_at res)))"
    if "\<forall>e. r = Inl e \<longrightarrow> e \<in> result_errors \<or> e = Sentinel ErrJobNotFound \<or> driver_error e" for r
    using that by (auto simp: driver_error_def dest!: opaque_result split: sum.split option.split)
  then show "triple sys_evolves P (handle_get_result (GetResult (store_get decode)) u param) (\<lambda>r w. opaque r)"
    unfolding handle_get_result_def
    by (auto intro!: opaque_return opaque_bind [OF triple_GetResult [OF P store_get_keeps]] split: option.split)
qed

lemma opaque_result_response:
  assumes "\<And>e. r = Inl e \<Longrightarrow> e \<in> service_errors" and "c < 400"
  shows "opaque (source_or_error c r)"
  using assms by (auto simp: source_or_error_def opaque_service split: sum.split)

lemma input_service: "e \<in> input_errors \<Longrightarrow> e \<in> service_errors"
  by (simp add: service_errors_def)

lemma fixed_service [simp]: "errNotFound \<in> service_errors" "errDuplicateLabel \<in> service_errors"
  "errHasActiveJobs \<in> service_errors" "errInternal \<in> service_errors"
  by (simp_all add: service_errors_def)

lemma openAndPing_errors: "openAndPing d s ds reg = Some (Some e, reg') \<Longrightarrow> e \<in> service_errors"
  by (auto simp: openAndPing_def service_errors_def split: sum.splits option.splits prod.splits)

text \<open>The outcome of a connection test, which cannot panic.\<close>

definition test_outcome :: "driver \<Rightarrow> ds_service \<Rightarrow> dialers \<Rightarrow> nat \<Rightarrow> nat \<Rightarrow> go_error option prog" where
  "test_outcome d s reg k u =
     State_Monad.bind (TestConnection d s k u reg) (\<lambda>r. State_Monad.return (case r of Some (e, reg') \<Rightarrow> e | None \<Rightarrow> None))"

context source_client
begin

lemma triple_test_outcome:
  assumes "sees P"
  shows "triple R P (test_outcome d s reg k u) (\<lambda>r w. \<forall>e. r = Some e \<longrightarrow> e \<in> service_errors)"
proof -
  have "triple R P (TestConnection d s k u reg) (\<lambda>r w. \<forall>e reg'. r = Some (Some e, reg') \<longrightarrow> e \<in> service_errors)"
    unfolding TestConnection_def
    by (rule triple_bind [OF triple_source_find [OF assms]])
       (auto intro!: triple_return dest: openAndPing_errors split: sum.splits option.splits if_splits)
  then show ?thesis
    unfolding test_outcome_def
    by (rule triple_bind) (auto intro!: triple_return split: option.split)
qed

end

lemma opaque_source_handlers:
  assumes P: "source_evol.sees ck P" and ck: "sv_collate s = ck" and ok: "faults_ok fs"
  shows "triple (sources_evolve ck) P (handle_create_source (ds_create s fs) u creq) (\<lambda>r w. opaque r)"
    and "triple (sources_evolve ck) P (handle_get_source u param) (\<lambda>r w. opaque r)"
    and "triple (sources_evolve ck) P (handle_list_sources u) (\<lambda>r w. opaque r)"
    and "triple (sources_evolve ck) P (handle_update_source (ds_update s fs) u param ureq) (\<lambda>r w. opaque r)"
    and "triple (sources_evolve ck) P (handle_delete_source (ds_delete fs) u param) (\<lambda>r w. opaque r)"
    and "triple (sources_evolve ck) P (handle_test_source (test_outcome d s reg) u param) (\<lambda>r w. opaque r)"
proof -
  note create = source_evol.triple_ds_create [OF P ck TrueI TrueI ok]
    and update = source_evol.triple_ds_update [OF P ck TrueI TrueI ok]
  show "triple (sources_evolve ck) P (handle_create_source (ds_create s fs) u creq) (\<lambda>r w. opaque r)"
    unfolding handle_create_source_def
    by (auto intro!: opaque_return opaque_bind [OF create] opaque_service dest!: input_service [OF create_errors]
        split: option.split sum.split)
  show "triple (sources_evolve ck) P (handle_get_source u param) (\<lambda>r w. opaque r)"
    unfolding handle_get_source_def
    by (auto intro!: opaque_with_id opaque_bind [OF source_evol.triple_ds_get [OF P]] opaque_result_response)
  show "triple (sources_evolve ck) P (handle_list_sources u) (\<lambda>r w. opaque r)"
    unfolding handle_list_sources_def
    by (auto intro!: opaque_bind [OF source_evol.triple_ds_list [OF P]] opaque_service split: sum.split)
  show "triple (sources_evolve ck) P (handle_update_source (ds_update s fs) u param ureq) (\<lambda>r w. opaque r)"
    unfolding handle_update_source_def
    by (auto intro!: opaque_with_id opaque_return opaque_bind [OF update] opaque_result_response
        dest!: input_service [OF update_errors] split: option.split)
  show "triple (sources_evolve ck) P (handle_delete_source (ds_delete fs) u param) (\<lambda>r w. opaque r)"
    unfolding handle_delete_source_def
    by (auto intro!: opaque_with_id opaque_bind [OF source_evol.triple_ds_delete [OF P TrueI ok]]
        simp: opaque_service opaque_driver split: option.split)
  show "triple (sources_evolve ck) P (handle_test_source (test_outcome d s reg) u param) (\<lambda>r w. opaque r)"
    unfolding handle_test_source_def
    by (auto intro!: opaque_with_id opaque_bind [OF source_evol.triple_test_outcome [OF P]] opaque_service
        split: option.split)
qed

section \<open>Properties\<close>

text \<open>
  C30. Errors are opaque: every response of every job and data source endpoint is a success or one of the
  fixed error responses: no error response ever carries the text of a database, driver or encryption
  error, whatever fails and whatever other processes do.
\<close>

theorem api_errors_are_opaque:
  assumes "rely (api_evolves (sv_collate s)) m" and "jobs_wf (m_world m)" and "sources_wf (sv_collate s) (m_world m)"
    and "faults_ok fs"
  shows "list_all (\<lambda>h. opaque (fst (run_state h m)))
    [handle_submit (Submit (\<lambda>k u. on_pool (exists_for_user k u)) messageID) u req,
     handle_get_job u param,
     handle_get_result (GetResult (store_get decode)) u param,
     handle_create_source (ds_create s fs) u creq,
     handle_get_source u param,
     handle_list_sources u,
     handle_update_source (ds_update s fs) u param ureq,
     handle_delete_source (ds_delete fs) u param,
     handle_test_source (test_outcome d s reg) u param]"
proof -
  let ?ck = "sv_collate s"
  have sys: "rely sys_evolves m" and src: "rely (sources_evolve ?ck) m"
    by (rule rely_mono [OF _ assms(1)], simp add: api_evolves_def)+
  have jobs: "sys_evolves (m_world m) (m_world m) \<and> jobs_wf (m_world m)"
    and sources: "sources_evolve ?ck (m_world m) (m_world m) \<and> sources_wf ?ck (m_world m)"
    using assms(2,3) sys.R_refl source_evol.R_refl by blast+
  note J = opaque_job_handlers [OF sys.knows_history]
  note S = opaque_source_handlers [OF source_evol.sees_history refl assms(4)]
  show ?thesis
    using triple_run [OF J(1) sys jobs, THEN conjunct1] triple_run [OF J(2) sys jobs, THEN conjunct1]
      triple_run [OF J(3) sys jobs, THEN conjunct1] triple_run [OF S(1) src sources, THEN conjunct1]
      triple_run [OF S(2) src sources, THEN conjunct1] triple_run [OF S(3) src sources, THEN conjunct1]
      triple_run [OF S(4) src sources, THEN conjunct1] triple_run [OF S(5) src sources, THEN conjunct1]
      triple_run [OF S(6) src sources, THEN conjunct1]
    by simp
qed

theorem api_errors_are_opaque_witness:
  "opaque (fst (run_state (handle_create_source (ds_create plain_service []) 9 (Some sample_input)) (quiet shop_world))) \<and>
   opaque (fst (run_state (handle_get_job 8 ''1'') (quiet shop_world)))"
proof -
  have "rely (api_evolves (sv_collate plain_service)) (quiet shop_world)" "faults_ok []" by simp_all
  from api_errors_are_opaque [OF this(1) _ _ this(2), where u = 9 and creq = "Some sample_input"]
    api_errors_are_opaque [OF this(1) _ _ this(2), where u = 8 and param = "''1''"]
  show ?thesis by simp
qed

end
