(* ===== verification/Accounts.thy ===== *)
theory Accounts
  imports Datasource_Repo
begin

text \<open>
  Accounts: the users repository and the service that registers users and logs them in
  (internal/user/repository.go, service.go), and the tokens it hands out (internal/auth/token.go). The
  JWT library, bcrypt and the Unicode case mapping are fields of the records that use them; two emails
  are the same for the unique key when their collation keys are.
\<close>

section \<open>Tokens\<close>

record claims =
  cl_subject :: string
  cl_issuer :: string
  cl_issued_at :: "instant option"
  cl_not_before :: "instant option"
  cl_expires_at :: "instant option"

text \<open>
  What the code uses of golang-jwt: \<open>NewNumericDate\<close>, \<open>SignedString\<close> for HS256, and \<open>ParseWithClaims\<close>
  under the secret and the options of \<open>Verify\<close> (HS256 only, expiry required, issued-at and issuer
  checked) at a given time, giving \<open>tok.Valid\<close> and the claims.
\<close>

record jwt_lib =
  jl_numeric_date :: "instant \<Rightarrow> instant"
  jl_signed_string :: "string \<Rightarrow> claims \<Rightarrow> go_error + string"
  jl_parse :: "string \<Rightarrow> string \<Rightarrow> instant \<Rightarrow> string \<Rightarrow> go_error + bool \<times> claims"

record jwt_manager =
  jm_secret :: string
  jm_issuer :: string
  jm_access_ttl :: duration

definition token_claims :: "jwt_lib \<Rightarrow> jwt_manager \<Rightarrow> nat \<Rightarrow> instant \<Rightarrow> claims" where
  "token_claims lib m userID t = \<lparr>cl_subject = format_uint userID, cl_issuer = jm_issuer m,
     cl_issued_at = Some (jl_numeric_date lib t), cl_not_before = Some (jl_numeric_date lib t),
     cl_expires_at = Some (jl_numeric_date lib (t + jm_access_ttl m))\<rparr>"

definition Sign :: "jwt_lib \<Rightarrow> jwt_manager \<Rightarrow> nat \<Rightarrow> instant \<Rightarrow> go_error + string \<times> instant" where
  "Sign lib m userID t = (case jl_signed_string lib (jm_secret m) (token_claims lib m userID t) of
       Inl e \<Rightarrow> Inl (Wrap ''auth: sign: '' e '''') | Inr signed \<Rightarrow> Inr (signed, t + jm_access_ttl m))"

definition Verify :: "jwt_lib \<Rightarrow> jwt_manager \<Rightarrow> instant \<Rightarrow> string \<Rightarrow> go_error + nat" where
  "Verify lib m t tokenStr = (case jl_parse lib (jm_secret m) (jm_issuer m) t tokenStr of
       Inl e \<Rightarrow> Inl (Sentinel ErrInvalidToken)
     | Inr (valid, c) \<Rightarrow>
         (if \<not> valid then Inl (Sentinel ErrInvalidToken)
          else if cl_subject c = [] then Inl (Sentinel ErrInvalidToken)
          else if cl_issued_at c = None then Inl (Sentinel ErrInvalidToken)
          else case parse_uint 64 (cl_subject c) of
              None \<Rightarrow> Inl (Sentinel ErrInvalidToken)
            | Some uid \<Rightarrow> (if uid = 0 then Inl (Sentinel ErrInvalidToken) else Inr uid)))"

section \<open>The users table\<close>

definition insert_user :: "(string \<Rightarrow> string) \<Rightarrow> user_row \<Rightarrow> world \<Rightarrow> (go_error + user_row) \<times> world" where
  "insert_user ck u w =
     (if list_ex (\<lambda>r. ck (us_email r) = ck (us_email u)) (w_users w) then (Inl duplicate_entry, w)
      else let u' = u\<lparr>us_id := w_next_user_id w\<rparr> in
        (Inr u', w\<lparr>w_users := w_users w @ [u'], w_next_user_id := Suc (w_next_user_id w)\<rparr>))"

definition user_create :: "(string \<Rightarrow> string) \<Rightarrow> user_row \<Rightarrow> (user_row, go_error + user_row) operation" where
  "user_create ck u = \<lparr>op_stmt = (\<lambda>t. insert_user ck u),
     op_read = (\<lambda>r. case r of
         Inl e \<Rightarrow> (if isDuplicateEntry e then Inl (Sentinel UserErrDuplicateEmail)
                  else Inl (Wrap ''user: create: '' e ''''))
       | Inr u' \<Rightarrow> Inr u')\<rparr>"

definition user_find_by_email :: "(string \<Rightarrow> string) \<Rightarrow> string \<Rightarrow> (user_row, go_error + user_row) operation" where
  "user_find_by_email ck email = \<lparr>
     op_stmt = (\<lambda>t w. (case sql_first (\<lambda>r. ck (us_email r) = ck email) (w_users w) of
         None \<Rightarrow> Inl (Sentinel GormErrRecordNotFound) | Some r \<Rightarrow> Inr r, w)),
     op_read = (\<lambda>r. case r of
         Inl e \<Rightarrow> (if errors_is e GormErrRecordNotFound then Inl (Sentinel UserErrNotFound)
                  else Inl (Wrap ''user: find by email: '' e ''''))
       | Inr u \<Rightarrow> Inr u)\<rparr>"

section \<open>Emails\<close>

text \<open>\<open>utf8.ValidString\<close>: no byte is decoded as an error of width 1.\<close>

definition valid_utf8 :: "string \<Rightarrow> bool" where
  "valid_utf8 s = list_all (\<lambda>(r, bs). \<not> (r = rune_error \<and> length bs = 1)) (runes s)"

definition index_byte :: "string \<Rightarrow> char \<Rightarrow> int" where
  "index_byte s c = (if c \<in> set s then int (length (takeWhile (\<lambda>d. d \<noteq> c) s)) else -1)"

definition isValidEmail :: "string \<Rightarrow> bool" where
  "isValidEmail email =
     (if \<not> valid_utf8 email then False
      else let at = index_byte email (CHR ''@'') in
        if at \<le> 0 then False
        else let domain = drop (nat (at + 1)) email in 0 < length domain \<and> contains_byte domain (CHR ''.''))"

text \<open>
  \<open>strings.ToLower\<close> on a string that is not ASCII maps its runes, an undecodable byte as U+FFFD, and
  writes each as UTF-8; \<open>uni\<close> is \<open>unicode.ToLower\<close> beyond ASCII.
\<close>

definition lower_rune :: "(nat \<Rightarrow> nat) \<Rightarrow> nat \<Rightarrow> nat" where
  "lower_rune uni r = (if 65 \<le> r \<and> r \<le> 90 then r + 32 else if r < 128 then r else uni r)"

definition lower_text :: "(nat \<Rightarrow> nat) \<Rightarrow> string \<Rightarrow> string" where
  "lower_text uni s = to_lower (\<lambda>s. concat (map (\<lambda>(r, bs). encode_rune (lower_rune uni r)) (runes s))) s"

section \<open>Registration and login\<close>

definition UserErrCodeInvalidEmail :: string where "UserErrCodeInvalidEmail = ''INVALID_EMAIL''"
definition UserErrCodeInvalidPassword :: string where "UserErrCodeInvalidPassword = ''INVALID_PASSWORD''"
definition UserErrCodeEmailAlreadyRegistered :: string where "UserErrCodeEmailAlreadyRegistered = ''EMAIL_ALREADY_REGISTERED''"
definition UserErrCodeInvalidCredentials :: string where "UserErrCodeInvalidCredentials = ''INVALID_CREDENTIALS''"
definition UserErrCodeInternal :: string where "UserErrCodeInternal = ''INTERNAL_ERROR''"

lemmas user_codes = UserErrCodeInvalidEmail_def UserErrCodeInvalidPassword_def UserErrCodeEmailAlreadyRegistered_def
  UserErrCodeInvalidCredentials_def UserErrCodeInternal_def

definition minPasswordBytes :: nat where "minPasswordBytes = 8"
definition maxPasswordBytes :: nat where "maxPasswordBytes = 72"

text \<open>\<open>au_hash\<close> and \<open>au_compare\<close> are bcrypt's \<open>GenerateFromPassword\<close> and \<open>CompareHashAndPassword\<close>.\<close>

record auth_service =
  au_collate :: "string \<Rightarrow> string"
  au_lower :: "nat \<Rightarrow> nat"
  au_hash :: "string \<Rightarrow> go_error + string"
  au_compare :: "string \<Rightarrow> string \<Rightarrow> go_error option"
  au_dummy_hash :: string
  au_jwt :: jwt_lib
  au_tokens :: jwt_manager

definition normalised :: "auth_service \<Rightarrow> string \<Rightarrow> string" where
  "normalised s email = lower_text (au_lower s) (trim_space email)"

definition user_internal :: go_error where
  "user_internal = UserServiceError UserErrCodeInternal ''internal error''"

definition Register :: "auth_service \<Rightarrow> string \<Rightarrow> string \<Rightarrow> (go_error + user_row) prog" where
  "Register s email0 password = (let email = normalised s email0 in
     if \<not> isValidEmail email
     then State_Monad.return (Inl (UserServiceError UserErrCodeInvalidEmail ''invalid email address''))
     else if length password < minPasswordBytes \<or> maxPasswordBytes < length password
     then State_Monad.return (Inl (UserServiceError UserErrCodeInvalidPassword ''password must be 8-72 bytes''))
     else case au_hash s password of
       Inl e \<Rightarrow> State_Monad.return (Inl user_internal)
     | Inr hash \<Rightarrow> do {
         t \<leftarrow> now;
         r \<leftarrow> on_pool (user_create (au_collate s) \<lparr>us_id = 0, us_email = email, us_password_hash = hash,
                us_created_at = t, us_updated_at = t\<rparr>);
         State_Monad.return (case r of
             Inl e \<Rightarrow> Inl (if errors_is e UserErrDuplicateEmail
               then UserServiceError UserErrCodeEmailAlreadyRegistered ''email already registered'' else user_internal)
           | Inr u \<Rightarrow> Inr u)
       })"

definition invalid_credentials :: go_error where
  "invalid_credentials = UserServiceError UserErrCodeInvalidCredentials ''invalid email or password''"

text \<open>
  The outcome of \<open>Login\<close>, and the hashes it compared the password with: what a comparison takes is time,
  its only other effect.
\<close>

definition Login :: "auth_service \<Rightarrow> string \<Rightarrow> string \<Rightarrow> ((go_error + string \<times> instant) \<times> string list) prog" where
  "Login s email0 password = do {
     r \<leftarrow> on_pool (user_find_by_email (au_collate s) (normalised s email0));
     (case r of
        Inl findErr \<Rightarrow> (let ignored = au_compare s (au_dummy_hash s) password in
          State_Monad.return (Inl invalid_credentials, [au_dummy_hash s]))
      | Inr u \<Rightarrow> (case au_compare s (us_password_hash u) password of
            Some e \<Rightarrow> State_Monad.return (Inl invalid_credentials, [us_password_hash u])
          | None \<Rightarrow> do {
              t \<leftarrow> now;
              State_Monad.return (case Sign (au_jwt s) (au_tokens s) (us_id u) t of
                  Inl e \<Rightarrow> Inl user_internal | Inr token \<Rightarrow> Inr token, [us_password_hash u])
            }))
   }"

section \<open>Evolution of the table\<close>

text \<open>Users are only added; ids and emails stay unique, ids are never 0.\<close>

definition users_wf :: "(string \<Rightarrow> string) \<Rightarrow> world \<Rightarrow> bool" where
  "users_wf ck w = (distinct (map us_id (w_users w)) \<and>
     (\<forall>r \<in> set (w_users w). 0 < us_id r \<and> us_id r < w_next_user_id w) \<and> 0 < w_next_user_id w \<and>
     distinct (map (\<lambda>r. ck (us_email r)) (w_users w)))"

definition users_evolve :: "(string \<Rightarrow> string) \<Rightarrow> world \<Rightarrow> world \<Rightarrow> bool" where
  "users_evolve ck w w' = ((\<exists>new. w_users w' = w_users w @ new) \<and> (users_wf ck w \<longrightarrow> users_wf ck w') \<and>
     w_clock w \<le> w_clock w')"

lemma users_evolve_same:
  "w_users w' = w_users w \<Longrightarrow> w_next_user_id w' = w_next_user_id w \<Longrightarrow> w_clock w \<le> w_clock w' \<Longrightarrow> users_evolve ck w w'"
  by (simp add: users_evolve_def users_wf_def)

interpretation user_evol: evolution "users_evolve ck" for ck
proof
  show "users_evolve ck w w" for w by (simp add: users_evolve_same)
  show "users_evolve ck a c" if "users_evolve ck a b" and "users_evolve ck b c" for a b c
  proof -
    from that obtain n where "w_users b = w_users a @ n" unfolding users_evolve_def by blast
    moreover from that obtain n' where "w_users c = w_users b @ n'" unfolding users_evolve_def by blast
    ultimately have "w_users c = w_users a @ (n @ n')" by simp
    then show ?thesis using that unfolding users_evolve_def by (meson order_trans)
  qed
  show "users_evolve ck w (tick d w)" for w d
    by (rule users_evolve_same) (simp_all add: tick_def)
qed

lemma insert_user_evolves: "users_evolve ck w (snd (insert_user ck u w))"
proof (cases "list_ex (\<lambda>r. ck (us_email r) = ck (us_email u)) (w_users w)")
  case True
  then show ?thesis by (simp add: insert_user_def user_evol.R_refl)
next
  case False
  let ?u = "u\<lparr>us_id := w_next_user_id w\<rparr>"
  let ?w = "w\<lparr>w_users := w_users w @ [?u], w_next_user_id := Suc (w_next_user_id w)\<rparr>"
  have "users_wf ck w \<Longrightarrow> users_wf ck ?w"
    using False by (auto simp: users_wf_def less_Suc_eq list_ex_iff)
  moreover have "snd (insert_user ck u w) = ?w"
    using False by (simp add: insert_user_def Let_def)
  ultimately show ?thesis by (simp add: users_evolve_def)
qed

end
