(* ===== verification/Http_Auth.thy ===== *)
theory Http_Auth
  imports Http_Api Datasource_Conn Accounts
begin

text \<open>
  The public endpoints and the gate to the others: registration and login (internal/user/handler.go),
  health (internal/handler/health.go) and the bearer middleware (internal/middleware/auth.go).
\<close>

section \<open>Registration and login\<close>

definition authErrStatus :: "string \<Rightarrow> nat" where
  "authErrStatus code =
     (if code \<in> {UserErrCodeInvalidEmail, UserErrCodeInvalidPassword} then 400
      else if code = UserErrCodeEmailAlreadyRegistered then 409
      else if code = UserErrCodeInvalidCredentials then 401
      else 500)"

definition auth_error :: "go_error \<Rightarrow> response" where
  "auth_error e = (case as_user_error e of
       Some (code, msg) \<Rightarrow> (authErrStatus code, AuthErrorBody code)
     | None \<Rightarrow> (500, AuthErrorBody UserErrCodeInternal))"

definition handle_register :: "(string \<Rightarrow> string \<Rightarrow> (go_error + user_row) prog) \<Rightarrow> (string \<times> string) option \<Rightarrow> response prog" where
  "handle_register register req = (case req of
       None \<Rightarrow> State_Monad.return (400, AuthErrorBody ''invalid_request'')
     | Some (email, password) \<Rightarrow> do {
         r \<leftarrow> register email password;
         State_Monad.return (case r of
             Inl e \<Rightarrow> auth_error e
           | Inr u \<Rightarrow> (201, UserBody (us_id u) (us_email u) (us_created_at u)))
       })"

definition handle_login :: "(string \<Rightarrow> string \<Rightarrow> ((go_error + string \<times> instant) \<times> string list) prog) \<Rightarrow> (string \<times> string) option \<Rightarrow>
    response prog" where
  "handle_login login req = (case req of
       None \<Rightarrow> State_Monad.return (400, AuthErrorBody ''invalid_request'')
     | Some (email, password) \<Rightarrow> do {
         r \<leftarrow> login email password;
         State_Monad.return (case fst r of
             Inl e \<Rightarrow> auth_error e
           | Inr (token, expiresAt) \<Rightarrow> (200, TokenBody token expiresAt))
       })"

section \<open>Health\<close>

text \<open>What \<open>Ping\<close> of MySQL and Redis answer, and whether the RabbitMQ channel is open.\<close>

record health_deps =
  hd_mysql :: "go_error option"
  hd_redis :: "go_error option"
  hd_rabbit :: bool

definition handle_healthz :: response where
  "handle_healthz = (200, StatusBody ''ok'')"

definition ok_or :: "bool \<Rightarrow> string" where
  "ok_or b = (if b then ''ok'' else ''unreachable'')"

definition handle_readyz :: "health_deps \<Rightarrow> response" where
  "handle_readyz d = (let mysql = hd_mysql d = None; redis = hd_redis d = None; rabbit = hd_rabbit d;
       allOK = (mysql \<and> redis \<and> rabbit) in
     (if allOK then 200 else 503,
      HealthBody [(''mysql'', ok_or mysql), (''redis'', ok_or redis), (''rabbitmq'', ok_or rabbit),
        (''status'', if allOK then ''ok'' else ''degraded'')]))"

section \<open>The bearer middleware\<close>

definition abort401 :: response where
  "abort401 = (401, AuthErrorBody ''unauthorized'')"

text \<open>\<open>header\<close> is the Authorization header, empty when absent; the rest of the chain gets the user id.\<close>

definition Bearer :: "(instant \<Rightarrow> string \<Rightarrow> go_error + nat) \<Rightarrow> string \<Rightarrow> (nat \<Rightarrow> response prog) \<Rightarrow> response prog" where
  "Bearer verify header next =
     (if \<not> has_prefix header ''Bearer '' then State_Monad.return abort401
      else do {
        t \<leftarrow> now;
        case verify t (drop (length ''Bearer '') header) of
          Inl e \<Rightarrow> State_Monad.return abort401
        | Inr uid \<Rightarrow> next uid
      })"

section \<open>Routes\<close>

text \<open>
  The routes of the API process (cmd/api/main.go), each with what its handler reads of the request: the
  bound body (or \<open>None\<close>), the path parameter, and what the libraries contribute to this call - the
  message id, the statement faults of a transaction, the driver.
\<close>

datatype endpoint =
    Healthz | Readyz health_deps
  | PostRegister "(string \<times> string) option" | PostLogin "(string \<times> string) option"
  | PostQueryJob string "(string \<times> nat) option" | GetQueryJob string | GetQueryJobResult string
  | PostDataSource "go_error option list" "create_input option" | GetDataSources | GetDataSource string
  | PutDataSource "go_error option list" string "update_input option"
  | DeleteDataSource "go_error option list" string
  | PostDataSourceTest driver dialers string

record app =
  ap_auth :: auth_service
  ap_sources :: ds_service
  ap_decode :: "string \<Rightarrow> go_error + cached_query_result"

text \<open>The outcome of a connection test; a panic would be turned into a 500 by \<open>gin.Recovery\<close>.\<close>

definition test_source :: "driver \<Rightarrow> ds_service \<Rightarrow> dialers \<Rightarrow> nat \<Rightarrow> nat \<Rightarrow> go_error option prog" where
  "test_source d s reg k u = do {
     r \<leftarrow> TestConnection d s k u reg;
     State_Monad.return (case r of Some (e, reg') \<Rightarrow> e | None \<Rightarrow> Some (NewError ''panic''))
   }"

fun protected :: "app \<Rightarrow> endpoint \<Rightarrow> (nat \<Rightarrow> response prog) option" where
  "protected a (PostQueryJob messageID body) =
     Some (\<lambda>uid. handle_submit (Submit (\<lambda>k u. on_pool (exists_for_user k u)) messageID) uid body)"
| "protected a (GetQueryJob param) = Some (\<lambda>uid. handle_get_job uid param)"
| "protected a (GetQueryJobResult param) = Some (\<lambda>uid. handle_get_result (GetResult (store_get (ap_decode a))) uid param)"
| "protected a (PostDataSource faults body) = Some (\<lambda>uid. handle_create_source (ds_create (ap_sources a) faults) uid body)"
| "protected a GetDataSources = Some handle_list_sources"
| "protected a (GetDataSource param) = Some (\<lambda>uid. handle_get_source uid param)"
| "protected a (PutDataSource faults param body) = Some (\<lambda>uid. handle_update_source (ds_update (ap_sources a) faults) uid param body)"
| "protected a (DeleteDataSource faults param) = Some (\<lambda>uid. handle_delete_source (ds_delete faults) uid param)"
| "protected a (PostDataSourceTest d reg param) = Some (\<lambda>uid. handle_test_source (test_source d (ap_sources a) reg) uid param)"
| "protected a _ = None"

fun public :: "app \<Rightarrow> endpoint \<Rightarrow> response prog" where
  "public a Healthz = State_Monad.return handle_healthz"
| "public a (Readyz d) = State_Monad.return (handle_readyz d)"
| "public a (PostRegister body) = handle_register (Register (ap_auth a)) body"
| "public a (PostLogin body) = handle_login (Login (ap_auth a)) body"
| "public a _ = State_Monad.return (404, NoBody)"

record http_request =
  hr_endpoint :: endpoint
  hr_authorization :: string

definition verify_token :: "app \<Rightarrow> instant \<Rightarrow> string \<Rightarrow> go_error + nat" where
  "verify_token a = Verify (au_jwt (ap_auth a)) (au_tokens (ap_auth a))"

definition respond :: "app \<Rightarrow> http_request \<Rightarrow> response prog" where
  "respond a req = (case protected a (hr_endpoint req) of
       Some handler \<Rightarrow> Bearer (verify_token a) (hr_authorization req) handler
     | None \<Rightarrow> public a (hr_endpoint req))"

fun respond_all :: "app \<Rightarrow> http_request list \<Rightarrow> response list prog" where
  "respond_all a [] = State_Monad.return []"
| "respond_all a (req # reqs) = do {
     r \<leftarrow> respond a req;
     rs \<leftarrow> respond_all a reqs;
     State_Monad.return (r # rs)
   }"

end
