(* ===== verification/Accounts_Props.thy ===== *)
theory Accounts_Props
  imports Accounts
begin

text \<open>
  What registration, login and tokens guarantee together: who registered can log in, with a token that
  stands for exactly his id while it is valid, and a login tells nothing about which accounts exist.
\<close>

section \<open>The libraries\<close>

text \<open>
  What golang-jwt documents: dates are truncated to whole seconds; signing with a byte key succeeds; a
  token parses under the secret and issuer it was signed with, to its claims, from its issued-at and
  not-before dates on and before its expiry. Of bcrypt: a password matches the hash generated from it.
\<close>

definition whole_dates :: "jwt_lib \<Rightarrow> claims \<Rightarrow> bool" where
  "whole_dates lib c = (\<forall>d \<in> {cl_issued_at c, cl_not_before c, cl_expires_at c}. \<forall>t. d = Some t \<longrightarrow> jl_numeric_date lib t = t)"

definition current :: "claims \<Rightarrow> instant \<Rightarrow> bool" where
  "current c t = ((\<forall>d. cl_issued_at c = Some d \<longrightarrow> d \<le> t) \<and> (\<forall>d. cl_not_before c = Some d \<longrightarrow> d \<le> t) \<and>
     (\<exists>d. cl_expires_at c = Some d \<and> t < d))"

definition jwt_documented :: "jwt_lib \<Rightarrow> bool" where
  "jwt_documented lib =
     ((\<forall>t. jl_numeric_date lib t \<le> t \<and> jl_numeric_date lib (jl_numeric_date lib t) = jl_numeric_date lib t) \<and>
      (\<forall>secret c. whole_dates lib c \<longrightarrow> (\<exists>tok. jl_signed_string lib secret c = Inr tok \<and>
         (\<forall>t. current c t \<longrightarrow> jl_parse lib secret (cl_issuer c) t tok = Inr (True, c)))))"

definition bcrypt_documented :: "auth_service \<Rightarrow> bool" where
  "bcrypt_documented s = (\<forall>p h. au_hash s p = Inr h \<longrightarrow> au_compare s h p = None)"

lemma sign_verify:
  assumes "jwt_documented lib" and "0 < uid" and "uid < 2 ^ 64"
  shows "\<exists>tok. Sign lib m uid t0 = Inr (tok, t0 + jm_access_ttl m) \<and>
    (\<forall>t. t0 \<le> t \<and> t < jl_numeric_date lib (t0 + jm_access_ttl m) \<longrightarrow> Verify lib m t tok = Inr uid)"
proof -
  let ?c = "token_claims lib m uid t0"
  have "whole_dates lib ?c" using assms(1) by (simp add: whole_dates_def token_claims_def jwt_documented_def)
  then obtain tok where tok: "jl_signed_string lib (jm_secret m) ?c = Inr tok"
      "\<And>t. current ?c t \<Longrightarrow> jl_parse lib (jm_secret m) (cl_issuer ?c) t tok = Inr (True, ?c)"
    using assms(1) unfolding jwt_documented_def by blast
  have "Verify lib m t tok = Inr uid" if t: "t0 \<le> t" "t < jl_numeric_date lib (t0 + jm_access_ttl m)" for t
  proof -
    have "jl_numeric_date lib t0 \<le> t" using assms(1) t(1) unfolding jwt_documented_def by (meson order_trans)
    with t have "current ?c t" by (simp add: current_def token_claims_def)
    from tok(2) [OF this] assms(2,3) show ?thesis
      by (simp add: Verify_def token_claims_def parse_format_uint)
  qed
  with tok(1) show ?thesis by (auto simp: Sign_def)
qed

section \<open>Registration\<close>

definition registration_errors :: "go_error set" where
  "registration_errors = {UserServiceError UserErrCodeInvalidEmail ''invalid email address'',
     UserServiceError UserErrCodeInvalidPassword ''password must be 8-72 bytes'',
     UserServiceError UserErrCodeEmailAlreadyRegistered ''email already registered'', user_internal}"

definition registered :: "auth_service \<Rightarrow> string \<Rightarrow> string \<Rightarrow> user_row \<Rightarrow> world \<Rightarrow> bool" where
  "registered s email password u w = (u \<in> set (w_users w) \<and> us_email u = normalised s email \<and>
     isValidEmail (us_email u) \<and> 8 \<le> length password \<and> length password \<le> 72 \<and>
     au_hash s password = Inr (us_password_hash u))"

lemma triple_Register:
  assumes P: "stable (users_evolve (au_collate s)) P"
    and step: "\<And>u w. P w \<Longrightarrow> P (snd (insert_user (au_collate s) u w))"
  shows "triple (users_evolve (au_collate s)) P (Register s email password) (\<lambda>r w. P w \<and>
    (\<forall>u. r = Inr u \<longrightarrow> registered s email password u w) \<and> (\<forall>e. r = Inl e \<longrightarrow> e \<in> registration_errors))"
proof -
  have insert: "triple (users_evolve (au_collate s)) P (ext (insert_user (au_collate s) u))
      (\<lambda>r w. P w \<and> (\<forall>u'. r = Inr u' \<longrightarrow> u' \<in> set (w_users w) \<and> (\<exists>n. u' = u\<lparr>us_id := n\<rparr>)))" for u
    by (rule user_evol.triple_ext [OF P]) (use step in \<open>auto simp: insert_user_def Let_def\<close>)
  show ?thesis
  proof (cases "au_hash s password")
    case (Inl e)
    then show ?thesis
      by (auto simp: Register_def Let_def registration_errors_def intro!: triple_return)
  next
    case (Inr h)
    let ?u = "\<lambda>t. \<lparr>us_id = 0, us_email = normalised s email, us_password_hash = h, us_created_at = t, us_updated_at = t\<rparr>"
    have create: "triple (users_evolve (au_collate s)) P (on_pool (user_create (au_collate s) (?u t)))
        (\<lambda>r w. P w \<and> (\<forall>u. r = Inr u \<longrightarrow> u \<in> set (w_users w) \<and> (\<exists>n. u = (?u t)\<lparr>us_id := n\<rparr>)))" for t
      unfolding on_pool_def user_create_def operation.simps
      by (rule triple_bind [OF triple_now [where Q = "\<lambda>_. P"]], assumption, rule triple_bind [OF insert], rule triple_return)
         (auto split: sum.splits if_splits)
    show ?thesis
      using Inr
      by (auto simp: Register_def Let_def registration_errors_def registered_def minPasswordBytes_def maxPasswordBytes_def
          intro!: triple_return triple_bind [OF triple_now [where Q = "\<lambda>_. P"]] triple_bind [OF create] split: sum.splits)
  qed
qed

section \<open>Login\<close>

lemma email_unique:
  assumes "users_wf ck w" and "u \<in> set (w_users w)" and "ck (us_email u) = k"
  shows "sql_first (\<lambda>r. ck (us_email r) = k) (w_users w) = Some u"
proof -
  have "\<exists>r. sql_first (\<lambda>r. ck (us_email r) = k) (w_users w) = Some r"
    using assms(2,3) by (auto simp: sql_first_def find_None_iff not_None_eq [symmetric] simp del: not_None_eq)
  then obtain r where r: "sql_first (\<lambda>r. ck (us_email r) = k) (w_users w) = Some r" by blast
  then have "r \<in> set (w_users w)" "ck (us_email r) = k"
    by (auto simp: sql_first_def find_Some_iff)
  with assms have "r = u"
    unfolding users_wf_def distinct_map inj_on_def by blast
  with r show ?thesis by simp
qed

lemma login_registered:
  assumes "users_wf (au_collate s) w" and "u \<in> set (w_users w)" and "us_email u = normalised s email"
    and "au_compare s (us_password_hash u) password = None"
  shows "run_state (Login s email password) (quiet w) =
    ((case Sign (au_jwt s) (au_tokens s) (us_id u) (w_clock w) of Inl e \<Rightarrow> Inl user_internal | Inr t \<Rightarrow> Inr t,
      [us_password_hash u]), quiet w)"
  using email_unique [OF assms(1,2)] assms(3,4)
  by (simp add: Login_def on_pool_quiet user_find_by_email_def)

definition login_matches :: "auth_service \<Rightarrow> string \<Rightarrow> string \<Rightarrow> user_row \<Rightarrow> world \<Rightarrow> bool" where
  "login_matches s email password u w = (u \<in> set (w_users w) \<and>
     au_collate s (us_email u) = au_collate s (normalised s email) \<and> au_compare s (us_password_hash u) password = None)"

lemma stable_login_matches: "stable (users_evolve ck) (login_matches s email password u)"
  by (auto simp: stable_def login_matches_def users_evolve_def)

lemma triple_find_user:
  assumes P: "stable (users_evolve ck) P"
  shows "triple (users_evolve ck) P (on_pool (user_find_by_email ck' k))
    (\<lambda>r w. P w \<and> (\<forall>u. r = Inr u \<longrightarrow> u \<in> set (w_users w) \<and> ck' (us_email u) = ck' k))"
  unfolding on_pool_def user_find_by_email_def operation.simps
  by (rule triple_bind [OF triple_now [where Q = "\<lambda>_. P"]], assumption,
      rule triple_bind [OF user_evol.triple_ext [OF P, where Q = "\<lambda>r w. P w \<and>
        (\<forall>u. r = Inr u \<longrightarrow> u \<in> set (w_users w) \<and> ck' (us_email u) = ck' k)"]])
     (auto intro!: triple_return simp: sql_first_def find_Some_iff split: option.splits sum.splits if_splits)

lemma triple_Login:
  assumes P: "stable (users_evolve ck) P"
  shows "triple (users_evolve ck) P (Login s email password) (\<lambda>(out, compared) w. P w \<and> length compared = 1 \<and>
    (\<forall>e. out = Inl e \<longrightarrow> e = invalid_credentials \<or> e = user_internal \<and> (\<exists>u. login_matches s email password u w)) \<and>
    (\<forall>tok expires. out = Inr (tok, expires) \<longrightarrow> (\<exists>u t. login_matches s email password u w \<and>
       Sign (au_jwt s) (au_tokens s) (us_id u) t = Inr (tok, expires))))"
  unfolding Login_def
  by (rule triple_bind [OF triple_find_user [OF P]])
     (auto simp: Let_def login_matches_def split: sum.splits option.splits
       intro!: triple_return triple_bind [OF triple_now [where Q = "\<lambda>t w. P w \<and> login_matches s email password u w" for u]], blast)

section \<open>A sample library\<close>

text \<open>
  A token that is its claims in plain text: enough to see that the documented behaviour above is
  consistent. Every byte of a text is preceded by an x, and a point ends it.
\<close>

fun enc_text :: "string \<Rightarrow> string" where
  "enc_text [] = ''.''"
| "enc_text (c # s) = CHR ''x'' # c # enc_text s"

fun dec_text :: "string \<Rightarrow> (string \<times> string) option" where
  "dec_text (CHR ''x'' # c # s) = map_option (\<lambda>(p, q). (c # p, q)) (dec_text s)"
| "dec_text (CHR ''.'' # s) = Some ([], s)"
| "dec_text _ = None"

lemma dec_enc_text [simp]: "dec_text (enc_text s @ r) = Some (s, r)"
  by (induction s) auto

fun enc_date :: "instant option \<Rightarrow> string" where
  "enc_date None = ''n''"
| "enc_date (Some t) = (if t < 0 then ''-'' else ''+'') @ enc_text (format_uint (nat \<bar>t\<bar>))"

fun dec_date :: "string \<Rightarrow> (instant option \<times> string) option" where
  "dec_date (CHR ''n'' # s) = Some (None, s)"
| "dec_date (CHR ''-'' # s) = map_option (\<lambda>(p, q). (Some (- int (digits_value p)), q)) (dec_text s)"
| "dec_date (CHR ''+'' # s) = map_option (\<lambda>(p, q). (Some (int (digits_value p)), q)) (dec_text s)"
| "dec_date _ = None"

lemma dec_enc_date [simp]: "dec_date (enc_date d @ r) = Some (d, r)"
  by (cases d) auto

definition plain_token :: "string \<Rightarrow> claims \<Rightarrow> string" where
  "plain_token secret c = enc_text secret @ enc_text (cl_subject c) @ enc_text (cl_issuer c) @
     enc_date (cl_issued_at c) @ enc_date (cl_not_before c) @ enc_date (cl_expires_at c)"

definition plain_parse :: "string \<Rightarrow> string \<Rightarrow> instant \<Rightarrow> string \<Rightarrow> go_error + bool \<times> claims" where
  "plain_parse secret iss t tok = (case dec_text tok of
       None \<Rightarrow> Inl (NewError ''malformed'')
     | Some (k, s1) \<Rightarrow> (case dec_text s1 of
           None \<Rightarrow> Inl (NewError ''malformed'')
         | Some (subj, s2) \<Rightarrow> (case dec_text s2 of
               None \<Rightarrow> Inl (NewError ''malformed'')
             | Some (i, s3) \<Rightarrow> (case dec_date s3 of
                   None \<Rightarrow> Inl (NewError ''malformed'')
                 | Some (iat, s4) \<Rightarrow> (case dec_date s4 of
                       None \<Rightarrow> Inl (NewError ''malformed'')
                     | Some (nbf, s5) \<Rightarrow> (case dec_date s5 of
                           None \<Rightarrow> Inl (NewError ''malformed'')
                         | Some (exp, s6) \<Rightarrow>
                             (let past = (\<lambda>d. case d of None \<Rightarrow> True | Some x \<Rightarrow> x \<le> t) in
                              if k = secret \<and> i = iss \<and> past iat \<and> past nbf \<and>
                                 (case exp of None \<Rightarrow> False | Some x \<Rightarrow> t < x) \<and> s6 = []
                              then Inr (True, \<lparr>cl_subject = subj, cl_issuer = i, cl_issued_at = iat, cl_not_before = nbf, cl_expires_at = exp\<rparr>)
                              else Inl (NewError ''invalid''))))))))"

definition plain_jwt :: jwt_lib where
  "plain_jwt = \<lparr>jl_numeric_date = (\<lambda>t. t - t mod second), jl_signed_string = (\<lambda>secret c. Inr (plain_token secret c)),
     jl_parse = plain_parse\<rparr>"

lemma plain_parse_token:
  assumes "current c t"
  shows "plain_parse secret (cl_issuer c) t (plain_token secret c) = Inr (True, c)"
proof -
  have "dec_date (enc_date (cl_expires_at c)) = Some (cl_expires_at c, [])"
    using dec_enc_date [of "cl_expires_at c" "[]"] by (simp only: append_Nil2)
  then show ?thesis
    using assms by (auto simp: plain_parse_def plain_token_def current_def Let_def split: option.split)
qed

lemma plain_jwt_documented: "jwt_documented plain_jwt"
proof -
  have "(t - t mod second) - (t - t mod second) mod second = t - t mod second" and "0 \<le> t mod second" for t :: int
    by (simp_all add: second_def millisecond_def mod_diff_left_eq)
  then show ?thesis
    using plain_parse_token by (auto simp: jwt_documented_def plain_jwt_def)
qed

definition plain_accounts :: auth_service where
  "plain_accounts = \<lparr>au_collate = (\<lambda>s. s), au_lower = (\<lambda>r. r), au_hash = (\<lambda>p. Inr (CHR ''h'' # p)),
     au_compare = (\<lambda>h p. if h = CHR ''h'' # p then None else Some (NewError ''mismatch'')),
     au_dummy_hash = ''d'', au_jwt = plain_jwt,
     au_tokens = \<lparr>jm_secret = ''secret'', jm_issuer = ''askdb-api'', jm_access_ttl = 3600 * second\<rparr>\<rparr>"

section \<open>Properties\<close>

text \<open>
  C32. Who registered can log in: once Register returned a user, in every later state of the table a
  login with the same password and any spelling of the email that is normalised alike succeeds, after one
  comparison with his stored hash, and from then on until the (whole second of the) expiry the token is
  accepted and stands for that user's id.
\<close>

theorem registered_user_logs_in:
  assumes "rely (users_evolve (au_collate s)) m" and "users_wf (au_collate s) (m_world m)"
    and "run_state (Register s email password) m = (Inr u, m1)"
    and "users_evolve (au_collate s) (m_world m1) w" and "us_id u < 2 ^ 64"
    and "jwt_documented (au_jwt s)" and "bcrypt_documented s" and "normalised s email' = normalised s email"
  shows "\<exists>tok. run_state (Login s email' password) (quiet w) =
      ((Inr (tok, w_clock w + jm_access_ttl (au_tokens s)), [us_password_hash u]), quiet w) \<and>
    (\<forall>t. w_clock w \<le> t \<and> t < jl_numeric_date (au_jwt s) (w_clock w + jm_access_ttl (au_tokens s)) \<longrightarrow>
       Verify (au_jwt s) (au_tokens s) t tok = Inr (us_id u))"
proof -
  let ?P = "\<lambda>w. users_evolve (au_collate s) (m_world m) w"
  have stable: "stable (users_evolve (au_collate s)) ?P" by (rule user_evol.stable_history)
  have step: "?P w \<Longrightarrow> ?P (snd (insert_user (au_collate s) u w))" for u w
    using user_evol.R_trans insert_user_evolves by blast
  from tripleD [OF triple_Register [OF stable step] assms(1) user_evol.R_refl assms(3)]
  have "?P (m_world m1)" and u: "registered s email password u (m_world m1)" by simp_all
  with assms(4) have "?P w" using user_evol.R_trans by blast
  then have wf: "users_wf (au_collate s) w" using assms(2) by (simp add: users_evolve_def)
  have mem: "u \<in> set (w_users w)" using u assms(4) by (auto simp: registered_def users_evolve_def)
  have "0 < us_id u" using wf mem by (simp add: users_wf_def)
  from sign_verify [OF assms(6) this assms(5)] obtain tok where
    tok: "Sign (au_jwt s) (au_tokens s) (us_id u) (w_clock w) = Inr (tok, w_clock w + jm_access_ttl (au_tokens s))"
      "\<And>t. w_clock w \<le> t \<and> t < jl_numeric_date (au_jwt s) (w_clock w + jm_access_ttl (au_tokens s)) \<Longrightarrow>
         Verify (au_jwt s) (au_tokens s) t tok = Inr (us_id u)" by blast
  have "au_compare s (us_password_hash u) password = None" "us_email u = normalised s email'"
    using u assms(7,8) by (simp_all add: registered_def bcrypt_documented_def)
  from login_registered [OF wf mem this(2,1)] tok show ?thesis by auto
qed

definition users_world :: world where
  "users_world = empty_world\<lparr>w_next_user_id := 1\<rparr>"

theorem registered_user_logs_in_witness:
  "\<exists>u tok. fst (run_state (Register plain_accounts ''Ada@b.org'' ''12345678'') (quiet users_world)) = Inr u \<and>
     fst (fst (run_state (Login plain_accounts ''ada@b.org'' ''12345678'')
       (snd (run_state (Register plain_accounts ''Ada@b.org'' ''12345678'') (quiet users_world))))) = Inr (tok, 3600000000000) \<and>
     Verify plain_jwt (au_tokens plain_accounts) 5000000000 tok = Inr (us_id u)"
proof -
  let ?s = plain_accounts and ?pw = "''12345678''"
  let ?u = "\<lparr>us_id = 1, us_email = ''ada@b.org'', us_password_hash = CHR ''h'' # ?pw, us_created_at = 0, us_updated_at = 0\<rparr>"
  let ?w = "users_world\<lparr>w_users := [?u], w_next_user_id := 2\<rparr>"
  have solid: "solid ''Ada@b.org''" "solid ''ada@b.org''" by (simp_all add: solid_def byte_def is_space_def)
  have email: "normalised ?s ''Ada@b.org'' = ''ada@b.org''" "normalised ?s ''ada@b.org'' = ''ada@b.org''"
    using solid by (simp_all add: normalised_def lower_text_def to_lower_def ascii_def byte_def lower_char_def char_of_def bit_simps)
  have valid: "isValidEmail ''ada@b.org''"
    using solid by (simp add: isValidEmail_def valid_utf8_def runes_solid byte_def rune_error_def index_byte_def contains_byte_def Let_def)
  have clock: "w_clock ?w = 0" "w_users users_world = []" "w_next_user_id users_world = 1" "w_clock users_world = 0"
    by (simp_all add: users_world_def empty_world_def)
  have run: "run_state (Register ?s ''Ada@b.org'' ?pw) (quiet users_world) = (Inr ?u, quiet ?w)"
    using valid email clock by (simp add: Register_def Let_def minPasswordBytes_def maxPasswordBytes_def on_pool_quiet user_create_def
        insert_user_def plain_accounts_def)
  have pre: "rely (users_evolve (au_collate ?s)) (quiet users_world)" "users_wf (au_collate ?s) (m_world (quiet users_world))"
    "users_evolve (au_collate ?s) (m_world (quiet ?w)) ?w" "us_id ?u < 2 ^ 64" "jwt_documented (au_jwt ?s)" "bcrypt_documented ?s"
    "normalised ?s ''ada@b.org'' = normalised ?s ''Ada@b.org''"
    using plain_jwt_documented clock email
    by (simp_all add: users_wf_def user_evol.R_refl plain_accounts_def bcrypt_documented_def)
  from registered_user_logs_in [OF pre(1,2) run pre(3-7)] obtain tok where
    "run_state (Login ?s ''ada@b.org'' ?pw) (quiet ?w) = ((Inr (tok, 0 + jm_access_ttl (au_tokens ?s)), [us_password_hash ?u]), quiet ?w)"
    "\<forall>t. 0 \<le> t \<and> t < jl_numeric_date (au_jwt ?s) (0 + jm_access_ttl (au_tokens ?s)) \<longrightarrow>
       Verify (au_jwt ?s) (au_tokens ?s) t tok = Inr (us_id ?u)"
    unfolding clock by blast
  then show ?thesis
    by (intro exI [of _ ?u] exI [of _ tok]) (simp add: run, simp add: plain_accounts_def plain_jwt_def second_def millisecond_def)
qed

text \<open>
  C33. A login reveals nothing: whatever calls fail and whoever registers meanwhile, every login makes
  exactly one comparison of hashes, and a failure is the same error for an unknown email, a wrong
  password and an unavailable database - unless the password matched a hash stored under that email and
  only signing failed. A token is only handed out for such a match, and signed for that user.
\<close>

theorem login_reveals_nothing:
  assumes "rely (users_evolve ck) m" and "run_state (Login s email password) m = ((out, compared), m')"
  shows "length compared = 1 \<and>
    (\<forall>e. out = Inl e \<longrightarrow> e = invalid_credentials \<or> e = user_internal \<and> (\<exists>u. login_matches s email password u (m_world m'))) \<and>
    (\<forall>tok expires. out = Inr (tok, expires) \<longrightarrow> (\<exists>u t. login_matches s email password u (m_world m') \<and>
       Sign (au_jwt s) (au_tokens s) (us_id u) t = Inr (tok, expires)))"
  using tripleD [OF triple_Login [OF stable_const [of _ True]] assms(1) TrueI assms(2)] by simp

theorem login_reveals_nothing_witness:
  "fst (fst (run_state (Login plain_accounts ''nobody@b.org'' ''12345678'') (quiet users_world))) = Inl invalid_credentials"
proof -
  obtain out compared m' where run: "run_state (Login plain_accounts ''nobody@b.org'' ''12345678'') (quiet users_world) = ((out, compared), m')"
    by (metis surj_pair)
  then have "m' = quiet users_world" "out = Inl invalid_credentials \<or> out = Inl user_internal"
    by (auto simp: Login_def on_pool_quiet user_find_by_email_def users_world_def empty_world_def sql_first_def)
  with login_reveals_nothing [OF rely_quiet run] run show ?thesis
    by (auto simp: login_matches_def users_world_def empty_world_def)
qed

end
