(* ===== verification/Http_Auth_Props.thy ===== *)
theory Http_Auth_Props
  imports Http_Auth Accounts_Props Job_Service_Props
begin

text \<open>
  The API as its clients meet it: every protected endpoint acts for the user its token stands for, and
  requests without a token of a user neither change nor show any of his data sources or jobs.
\<close>

section \<open>Programs that leave a relation alone\<close>

text \<open>\<open>harmless R p\<close>: whatever can be known in spite of changes within \<open>R\<close> is still known after \<open>p\<close>.\<close>

definition harmless :: "(world \<Rightarrow> world \<Rightarrow> bool) \<Rightarrow> 'a prog \<Rightarrow> bool" where
  "harmless R p = (\<forall>P. stable R P \<longrightarrow> triple R P p (\<lambda>_. P))"

lemma harmlessD: "harmless R p \<Longrightarrow> stable R P \<Longrightarrow> triple R P p (\<lambda>_. P)"
  by (simp add: harmless_def)

lemma harmless_return [simp]: "harmless R (State_Monad.return x)"
  by (simp add: harmless_def triple_return)

lemma harmless_now [simp]: "harmless R now"
  by (simp add: harmless_def triple_now)

lemma harmless_bind: "harmless R p \<Longrightarrow> (\<And>x. harmless R (g x)) \<Longrightarrow> harmless R (State_Monad.bind p g)"
  unfolding harmless_def using triple_bind by blast

context evolution
begin

lemma harmless_ext: "(\<And>w. R w (snd (f w))) \<Longrightarrow> harmless R (ext f)"
  by (simp add: harmless_def triple_keep)

lemma harmless_pool: "(\<And>t w. R w (snd (op_stmt op t w))) \<Longrightarrow> harmless R (on_pool op)"
  unfolding on_pool_def by (intro harmless_bind harmless_ext) simp_all

lemma harmless_read: "harmless R (job_find_by_id k)" "harmless R (store_get decode k)"
  unfolding job_find_by_id_def store_get_def by (intro harmless_bind harmless_ext; simp add: R_refl)+

lemma harmless_job_reads: "harmless R (job_get u k)" "harmless R (GetResult (store_get decode) u k)"
  unfolding job_get_def GetResult_def
  by (auto intro!: harmless_bind harmless_read split: sum.split option.split)

lemma harmless_submit:
  assumes "\<And>t job event w. R w (snd (create_and_enqueue_tx t job event w))"
  shows "harmless R (Submit (\<lambda>k u. on_pool (exists_for_user k u)) messageID u q d)"
  unfolding Submit_def create_and_enqueue_def Let_def
  by (auto intro!: harmless_bind harmless_ext harmless_pool assms split: sum.split bool.split
      simp: exists_for_user_def R_refl)

lemma harmless_accounts:
  assumes "\<And>ck u w. R w (snd (insert_user ck u w))"
  shows "harmless R (Register s email password)" and "harmless R (Login s email password)"
  unfolding Register_def Login_def Let_def
  by (auto intro!: harmless_bind harmless_pool split: sum.split option.split simp: user_create_def
      user_find_by_email_def assms R_refl)

end

section \<open>Changes to other tables\<close>

lemma tenant_keeps_same:
  "w_sources w' = w_sources w \<Longrightarrow> w_next_source_id w' = w_next_source_id w \<Longrightarrow> w_clock w \<le> w_clock w' \<Longrightarrow>
     tenant_keeps ck v w w'"
  by (simp add: tenant_keeps_def sources_evolve_same tenant_rows_def)

lemma tenant_enqueue: "tenant_keeps ck v w (snd (create_and_enqueue_tx t job event w))"
  by (rule tenant_keeps_same) (auto simp: create_and_enqueue_tx_def insert_job_def cas_job_def Let_def)

lemma tenant_insert_user: "tenant_keeps ck v w (snd (insert_user ck' u w))"
  by (rule tenant_keeps_same) (simp_all add: insert_user_def Let_def)

section \<open>What a response shows\<close>

fun shown_sources :: "response \<Rightarrow> nat set" where
  "shown_sources (c, SourceBody s) = {sr_id s}"
| "shown_sources (c, SourcesBody ss) = sr_id ` set ss"
| "shown_sources _ = {}"

definition shows_others :: "nat \<Rightarrow> response \<Rightarrow> world \<Rightarrow> bool" where
  "shows_others v r w = (\<forall>k \<in> shown_sources r. \<exists>u. u \<noteq> v \<and> owner_at w k = Some u)"

lemma shows_others_none [simp]: "shown_sources r = {} \<Longrightarrow> shows_others v r w"
  by (simp add: shows_others_def)

lemma stable_shows_others: "stable (tenant_keeps ck v) (shows_others v r)"
  unfolding stable_def shows_others_def tenant_keeps_def by (blast dest: owner_at_evolves)

lemma shown_errors [simp]: "shown_sources (writeServiceError e) = {}" "shown_sources internal_error = {}"
  "shown_sources bad_request = {}" "shown_sources abort401 = {}" "shown_sources (auth_error e) = {}"
  by (auto simp: writeServiceError_def internal_error_def bad_request_def abort401_def auth_error_def split: option.split)

lemma shown_source_or_error:
  "shown_sources (source_or_error c r) = (case r of Inl e \<Rightarrow> {} | Inr ds \<Rightarrow> {ds_id ds})"
  by (auto simp: source_or_error_def toDataSourceResponse_def split: sum.split)

lemmas shown_created = shown_source_or_error [unfolded source_or_error_def]

lemma stored_as_owner: "stored_as (new_source u i t) c w ds \<Longrightarrow> owner_at w (ds_id ds) = Some u"
  by (auto simp: stored_as_def owner_at_def new_source_def)

lemma triple_shown:
  assumes "harmless R p" and "stable R P" and "\<And>x. shown_sources (f x) = {}"
  shows "triple R P (State_Monad.bind p (\<lambda>x. State_Monad.return (f x))) (\<lambda>r w. P w \<and> shows_others v r w)"
  by (rule triple_bind [OF harmlessD [OF assms(1,2)]]) (simp add: triple_return assms(3))

section \<open>Handlers\<close>


lemma job_handlers_show_nothing:
  assumes "stable (tenant_keeps ck v) P"
  shows "triple (tenant_keeps ck v) P (handle_submit (Submit (\<lambda>k u. on_pool (exists_for_user k u)) messageID) u body)
      (\<lambda>r w. P w \<and> shows_others v r w)"
    and "triple (tenant_keeps ck v) P (handle_get_job u param) (\<lambda>r w. P w \<and> shows_others v r w)"
    and "triple (tenant_keeps ck v) P (handle_get_result (GetResult (store_get decode)) u param) (\<lambda>r w. P w \<and> shows_others v r w)"
  unfolding handle_submit_def handle_get_job_def handle_get_result_def
  by (auto intro!: triple_return triple_shown [OF tenant.harmless_submit [OF tenant_enqueue] assms]
      triple_shown [OF tenant.harmless_job_reads(1) assms] triple_shown [OF tenant.harmless_job_reads(2) assms]
      split: option.splits sum.splits if_splits)

lemma public_shows_nothing:
  assumes "stable (tenant_keeps ck v) P"
  shows "triple (tenant_keeps ck v) P (public a ep) (\<lambda>r w. P w \<and> shows_others v r w)"
  by (cases "(a, ep)" rule: public.cases)
     (auto simp: handle_register_def handle_login_def handle_healthz_def handle_readyz_def Let_def
       intro!: triple_return triple_shown [OF tenant.harmless_accounts(1) [OF tenant_insert_user] assms]
         triple_shown [OF tenant.harmless_accounts(2) [OF tenant_insert_user] assms] split: option.splits sum.splits)

lemma source_handlers_show_own:
  assumes P: "tenant.sees ck v P" and ck: "sv_collate s = ck" and u: "u \<noteq> v" and ok: "faults_ok fs"
  shows "triple (tenant_keeps ck v) P (handle_create_source (ds_create s fs) u creq) (\<lambda>r w. P w \<and> shows_others v r w)"
    and "triple (tenant_keeps ck v) P (handle_get_source u param) (\<lambda>r w. P w \<and> shows_others v r w)"
    and "triple (tenant_keeps ck v) P (handle_list_sources u) (\<lambda>r w. P w \<and> shows_others v r w)"
    and "triple (tenant_keeps ck v) P (handle_update_source (ds_update s fs) u param ureq) (\<lambda>r w. P w \<and> shows_others v r w)"
    and "triple (tenant_keeps ck v) P (handle_delete_source (ds_delete fs) u param) (\<lambda>r w. P w \<and> shows_others v r w)"
    and "triple (tenant_keeps ck v) P (handle_test_source (test_source d s reg) u param) (\<lambda>r w. P w \<and> shows_others v r w)"
proof -
  have with_id: "triple R P (with_id param h) (\<lambda>r w. P w \<and> shows_others v r w)"
    if "\<And>k. triple R P (h k) (\<lambda>r w. P w \<and> shows_others v r w)" for R h
    using that by (auto simp: with_id_def intro!: triple_return split: option.split)
  show "triple (tenant_keeps ck v) P (handle_create_source (ds_create s fs) u creq) (\<lambda>r w. P w \<and> shows_others v r w)"
    unfolding handle_create_source_def
    by (auto intro!: triple_return triple_bind [OF tenant.triple_ds_create [OF P ck u _ ok]]
        dest!: stored_as_owner simp: shows_others_def shown_created u split: option.split sum.splits)
  show "triple (tenant_keeps ck v) P (handle_get_source u param) (\<lambda>r w. P w \<and> shows_others v r w)"
    unfolding handle_get_source_def
    by (rule with_id) (auto intro!: triple_return triple_bind [OF tenant.triple_ds_get [OF P]]
        simp: shows_others_def shown_source_or_error live_source_def u split: sum.splits)
  show "triple (tenant_keeps ck v) P (handle_list_sources u) (\<lambda>r w. P w \<and> shows_others v r w)"
    unfolding handle_list_sources_def
    by (auto intro!: triple_return triple_bind [OF tenant.triple_ds_list [OF P]]
        simp: shows_others_def toDataSourceResponse_def u split: sum.splits)
  show "triple (tenant_keeps ck v) P (handle_update_source (ds_update s fs) u param ureq) (\<lambda>r w. P w \<and> shows_others v r w)"
    unfolding handle_update_source_def
    by (rule with_id) (auto intro!: triple_return triple_bind [OF tenant.triple_ds_update [OF P ck u _ ok]]
        simp: shows_others_def shown_source_or_error live_source_def u split: option.split sum.splits)
  show "triple (tenant_keeps ck v) P (handle_delete_source (ds_delete fs) u param) (\<lambda>r w. P w \<and> shows_others v r w)"
    unfolding handle_delete_source_def
    by (rule with_id) (auto intro!: triple_return triple_bind [OF tenant.triple_ds_delete [OF P u ok]] split: option.split)
  have "triple (tenant_keeps ck v) P (test_source d s reg k u) (\<lambda>_. P)" for k
  proof -
    have "triple (tenant_keeps ck v) P (TestConnection d s k u reg) (\<lambda>_. P)"
      unfolding TestConnection_def
      by (rule triple_bind [OF tenant.triple_source_find [OF P]], rule triple_return, simp)
    then show ?thesis
      unfolding test_source_def by (rule triple_bind) (simp add: triple_return)
  qed
  note test = this
  show "triple (tenant_keeps ck v) P (handle_test_source (test_source d s reg) u param) (\<lambda>r w. P w \<and> shows_others v r w)"
    unfolding handle_test_source_def
    by (rule with_id) (auto intro!: triple_return triple_bind [OF test] split: option.split)
qed

section \<open>The gate\<close>

text \<open>The faults of the transactions a request runs, as its endpoint carries them.\<close>

fun endpoint_faults :: "endpoint \<Rightarrow> go_error option list" where
  "endpoint_faults (PostDataSource fs _) = fs"
| "endpoint_faults (PutDataSource fs _ _) = fs"
| "endpoint_faults (DeleteDataSource fs _) = fs"
| "endpoint_faults _ = []"

text \<open>A request that carries a token of user \<open>v\<close> at some time.\<close>

definition speaks_for :: "app \<Rightarrow> nat \<Rightarrow> http_request \<Rightarrow> bool" where
  "speaks_for a v req = (has_prefix (hr_authorization req) ''Bearer '' \<and>
     (\<exists>t. verify_token a t (drop (length ''Bearer '') (hr_authorization req)) = Inr v))"

lemma triple_Bearer:
  assumes "\<And>t uid. verify t (drop (length ''Bearer '') header) = Inr uid \<Longrightarrow> has_prefix header ''Bearer '' \<Longrightarrow> triple R P (next uid) Q"
    and "\<And>w. P w \<Longrightarrow> Q abort401 w"
  shows "triple R P (Bearer verify header next) Q"
  unfolding Bearer_def
  using assms
  by (auto intro!: triple_return triple_bind [OF triple_now [where Q = "\<lambda>_. P"]] split: sum.split)

lemma Bearer_run:
  "run_state (Bearer verify header next) m =
     (case (if has_prefix header ''Bearer '' then verify (w_clock (m_world m)) (drop (length ''Bearer '') header)
            else Inl (Sentinel ErrInvalidToken)) of
        Inl e \<Rightarrow> (abort401, m) | Inr uid \<Rightarrow> run_state (next uid) m)"
  by (auto simp: Bearer_def split: sum.split)

lemma triple_respond:
  assumes P: "tenant.sees ck v P" and ck: "sv_collate (ap_sources a) = ck" and "\<not> speaks_for a v req"
    and ok: "faults_ok (endpoint_faults (hr_endpoint req))"
  shows "triple (tenant_keeps ck v) P (respond a req) (\<lambda>r w. P w \<and> shows_others v r w)"
proof (cases "protected a (hr_endpoint req)")
  case None
  then show ?thesis
    by (simp add: respond_def public_shows_nothing [OF tenant.sees_stable [OF P]])
next
  case (Some h)
  have "triple (tenant_keeps ck v) P (h uid) (\<lambda>r w. P w \<and> shows_others v r w)" if "uid \<noteq> v" for uid
  proof -
    note S = source_handlers_show_own [OF P ck that]
    note plain = S(2,3,6) [of "[]", OF faults_ok_simps(1)]
    show ?thesis
      using Some ok
      by (cases "hr_endpoint req")
         (auto intro: job_handlers_show_nothing [OF tenant.sees_stable [OF P]] S(1,4,5) plain)
  qed
  then show ?thesis
    unfolding respond_def Some option.case
    by (rule triple_Bearer) (use assms(3) in \<open>auto simp: speaks_for_def\<close>)
qed

lemma triple_respond_all:
  assumes P: "tenant.sees ck v P" and ck: "sv_collate (ap_sources a) = ck"
    and "\<And>req. req \<in> set reqs \<Longrightarrow> \<not> speaks_for a v req \<and> faults_ok (endpoint_faults (hr_endpoint req))"
  shows "triple (tenant_keeps ck v) P (respond_all a reqs) (\<lambda>rs w. P w \<and> (\<forall>r \<in> set rs. shows_others v r w))"
  using assms(1,3)
proof (induction reqs arbitrary: P)
  case Nil
  then show ?case by (auto intro: triple_return)
next
  case (Cons req reqs)
  let ?P = "\<lambda>r w. P w \<and> shows_others v r w"
  have first: "triple (tenant_keeps ck v) P (respond a req) ?P"
    using Cons.prems(2) by (intro triple_respond [OF Cons.prems(1) ck]) auto
  have "tenant.sees ck v (?P r)" for r
    using Cons.prems(1) stable_conj [OF tenant.sees_stable stable_shows_others] tenant.sees_wf
    unfolding tenant.sees_def by blast
  then have rest: "triple (tenant_keeps ck v) (?P r) (respond_all a reqs) (\<lambda>rs w. ?P r w \<and> (\<forall>r \<in> set rs. shows_others v r w))" for r
    by (rule Cons.IH) (use Cons.prems(2) in auto)
  show ?case
    unfolding respond_all.simps
    by (rule triple_bind [OF first], rule triple_bind [OF rest], rule triple_return) auto
qed

section \<open>Properties\<close>

text \<open>
  C31. The API isolates its users: no sequence of requests without a token of user v, whatever fails
  and whatever other processes do to others' rows, changes a data source of v, and every source such
  a request is shown belongs to someone else; a protected endpoint called without a token that is valid
  at that time answers 401 and changes nothing at all.
\<close>

theorem api_isolates_users:
  assumes "rely (tenant_keeps (sv_collate (ap_sources a)) v) m" and "sources_wf (sv_collate (ap_sources a)) (m_world m)"
    and "\<And>req. req \<in> set reqs \<Longrightarrow> \<not> speaks_for a v req \<and> faults_ok (endpoint_faults (hr_endpoint req))"
    and "run_state (respond_all a reqs) m = (rs, m')"
  shows "tenant_rows v (m_world m') = tenant_rows v (m_world m) \<and>
    (\<forall>r \<in> set rs. \<forall>k \<in> shown_sources r. \<exists>u. u \<noteq> v \<and> owner_at (m_world m') k = Some u) \<and>
    (\<forall>req. protected a (hr_endpoint req) \<noteq> None \<and>
       (\<forall>uid. verify_token a (w_clock (m_world m)) (drop 7 (hr_authorization req)) \<noteq> Inr uid) \<longrightarrow>
       run_state (respond a req) m = (abort401, m))"
proof -
  let ?ck = "sv_collate (ap_sources a)"
  let ?P = "\<lambda>w. tenant_keeps ?ck v (m_world m) w \<and> sources_wf ?ck (m_world m)"
  have P: "tenant.sees ?ck v ?P" by (rule tenant.sees_history)
  from tripleD [OF triple_respond_all [OF P refl assms(3)] assms(1) _ assms(4)] assms(2) tenant.R_refl
  have "tenant_keeps ?ck v (m_world m) (m_world m')" "\<forall>r \<in> set rs. shows_others v r (m_world m')" by blast+
  moreover have "run_state (respond a req) m = (abort401, m)"
    if guarded: "protected a (hr_endpoint req) \<noteq> None"
      and bad: "\<And>uid. verify_token a (w_clock (m_world m)) (drop 7 (hr_authorization req)) \<noteq> Inr uid" for req
  proof -
    obtain h where "protected a (hr_endpoint req) = Some h" using guarded by blast
    moreover obtain e where "verify_token a (w_clock (m_world m)) (drop 7 (hr_authorization req)) = Inl e"
      using bad by (cases "verify_token a (w_clock (m_world m)) (drop 7 (hr_authorization req))") auto
    ultimately show ?thesis by (simp add: respond_def Bearer_run eval_nat_numeral)
  qed
  ultimately show ?thesis by (auto simp: tenant_keeps_def shows_others_def)
qed

definition plain_app :: app where
  "plain_app = \<lparr>ap_auth = plain_accounts, ap_sources = plain_service, ap_decode = (\<lambda>s. Inl (NewError ''bad''))\<rparr>"

definition user_8_token :: string where
  "user_8_token = plain_token ''secret'' \<lparr>cl_subject = ''8'', cl_issuer = ''askdb-api'', cl_issued_at = Some 0,
     cl_not_before = Some 0, cl_expires_at = Some 1000\<rparr>"

lemma plain_parse_only:
  "plain_parse k iss t (plain_token secret c) = Inr (b, c') \<Longrightarrow> c' = c"
proof -
  have "dec_date (enc_date (cl_expires_at c)) = Some (cl_expires_at c, [])"
    using dec_enc_date [of "cl_expires_at c" "[]"] by (simp only: append_Nil2)
  then show "plain_parse k iss t (plain_token secret c) = Inr (b, c') \<Longrightarrow> c' = c"
    by (auto simp: plain_parse_def plain_token_def Let_def split: if_splits)
qed

lemma user_8_token: "verify_token plain_app t user_8_token = Inr uid \<Longrightarrow> uid = 8"
  by (auto simp: verify_token_def plain_app_def plain_accounts_def Verify_def plain_jwt_def user_8_token_def
      parse_uint_def digits_value_def is_digit_def digit_val_def dest!: plain_parse_only split: sum.splits if_splits option.splits)

theorem api_isolates_users_witness:
  "tenant_rows 7 (m_world (snd (run_state (respond_all plain_app
     [\<lparr>hr_endpoint = DeleteDataSource [] ''3'', hr_authorization = ''Bearer '' @ user_8_token\<rparr>,
      \<lparr>hr_endpoint = GetDataSources, hr_authorization = []\<rparr>]) (quiet source_world)))) = [sample_source]"
proof -
  let ?reqs = "[\<lparr>hr_endpoint = DeleteDataSource [] ''3'', hr_authorization = ''Bearer '' @ user_8_token\<rparr>,
      \<lparr>hr_endpoint = GetDataSources, hr_authorization = []\<rparr>]"
  have "\<not> speaks_for plain_app 7 req \<and> faults_ok (endpoint_faults (hr_endpoint req))" if "req \<in> set ?reqs" for req
    using that by (auto simp: speaks_for_def has_prefix_def dest!: user_8_token)
  moreover have "tenant_rows 7 source_world = [sample_source]"
    by (simp add: tenant_rows_def source_world_def sample_source_def new_source_def)
  moreover obtain rs m' where "run_state (respond_all plain_app ?reqs) (quiet source_world) = (rs, m')" by fastforce
  ultimately show ?thesis
    using api_isolates_users [where a = plain_app and v = 7 and reqs = ?reqs and m = "quiet source_world"]
    by (simp del: respond_all.simps)
qed

end
