(* ===== verification/Config.thy ===== *)
theory Config
  imports Go_Numbers Base64
begin

text \<open>
  Configuration (internal/config/config.go): reading the environment with defaults, the checks shared by
  both processes, and those of one process each. The environment is what \<open>os.Getenv\<close> answers after
  godotenv loaded the .env file, empty for an unset variable. Package \<open>time\<close> is modelled
  as far as the readers use it; rounding to float64 is the argument \<open>fp\<close>.
\<close>

section \<open>Durations (package time)\<close>

text \<open>
  What float64 arithmetic contributes: \<open>strconv.ParseFloat\<close>, and \<open>uint64(float64(f) * (float64(unit) / scale))\<close>
  for a fraction of \<open>f\<close> units over the given power of ten.
\<close>

record float_ops =
  fp_parse :: "string \<Rightarrow> float64 option"
  fp_fraction :: "nat \<Rightarrow> nat \<Rightarrow> nat \<Rightarrow> nat"

definition parse_bool :: "string \<Rightarrow> bool option" where
  "parse_bool s = (if s \<in> {''1'', ''t'', ''T'', ''TRUE'', ''true'', ''True''} then Some True
     else if s \<in> {''0'', ''f'', ''F'', ''FALSE'', ''false'', ''False''} then Some False else None)"

text \<open>\<open>time.ParseDuration\<close>: the leading digits, the fraction with its power of ten, the unit.\<close>

fun leading_int :: "nat \<Rightarrow> string \<Rightarrow> (nat \<times> string) option" where
  "leading_int x [] = Some (x, [])"
| "leading_int x (c # s) =
     (if \<not> is_digit c then Some (x, c # s)
      else if 2 ^ 63 div 10 < x then None
      else if 2 ^ 63 < 10 * x + digit_val c then None
      else leading_int (10 * x + digit_val c) s)"

fun leading_fraction :: "nat \<Rightarrow> nat \<Rightarrow> bool \<Rightarrow> string \<Rightarrow> nat \<times> nat \<times> string" where
  "leading_fraction x scale overflow [] = (x, scale, [])"
| "leading_fraction x scale overflow (c # s) =
     (if \<not> is_digit c then (x, scale, c # s)
      else if overflow \<or> (2 ^ 63 - 1) div 10 < x \<or> 2 ^ 63 < 10 * x + digit_val c
      then leading_fraction x scale True s
      else leading_fraction (10 * x + digit_val c) (10 * scale) False s)"

definition unit_ns :: "string \<Rightarrow> nat option" where
  "unit_ns u = map_of [(''ns'', 1), (''us'', 10 ^ 3), ([char_of (194::nat), char_of (181::nat), CHR ''s''], 10 ^ 3),
     ([char_of (206::nat), char_of (188::nat), CHR ''s''], 10 ^ 3), (''ms'', 10 ^ 6), (''s'', 10 ^ 9),
     (''m'', 60 * 10 ^ 9), (''h'', 3600 * 10 ^ 9)] u"

definition unit_char :: "char \<Rightarrow> bool" where
  "unit_char c = (c \<noteq> CHR ''.'' \<and> \<not> is_digit c)"

text \<open>One number with its unit: its nanoseconds and what follows.\<close>

definition duration_part :: "float_ops \<Rightarrow> string \<Rightarrow> (nat \<times> string) option" where
  "duration_part fp s = (case leading_int 0 s of
       None \<Rightarrow> None
     | Some (v, s1) \<Rightarrow>
         (let (f, scale, s2) = (if has_prefix s1 ''.'' then leading_fraction 0 1 False (tl s1) else (0, 1, s1));
              pre = length s1 \<noteq> length s; post = has_prefix s1 ''.'' \<and> length s2 \<noteq> length (tl s1);
              u = takeWhile unit_char s2; rest = dropWhile unit_char s2
          in if \<not> pre \<and> \<not> post then None
             else if u = [] then None
             else case unit_ns u of
                None \<Rightarrow> None
              | Some unit \<Rightarrow>
                  (if 2 ^ 63 div unit < v then None
                   else let ns = v * unit + (if 0 < f then fp_fraction fp f unit scale else 0)
                     in if 2 ^ 63 < ns then None else Some (ns, rest))))"

lemma leading_int_shrinks: "leading_int x s = Some (v, r) \<Longrightarrow> length r \<le> length s"
  by (induction x s rule: leading_int.induct) (auto split: if_splits)

lemma leading_fraction_shrinks: "leading_fraction x k b s = (v, k', r) \<Longrightarrow> length r \<le> length s"
  by (induction x k b s rule: leading_fraction.induct) (auto split: if_splits)

lemma takeWhile_shrinks: "takeWhile P s \<noteq> [] \<Longrightarrow> length (dropWhile P s) < length s"
  by (cases s) (auto simp: le_imp_less_Suc length_dropWhile_le split: if_splits)

lemma duration_part_shrinks:
  assumes "duration_part fp s = Some (ns, rest)"
  shows "length rest < length s"
proof -
  obtain v s1 where v: "leading_int 0 s = Some (v, s1)"
    using assms by (auto simp: duration_part_def split: option.splits)
  obtain f k s2 where f: "(if has_prefix s1 ''.'' then leading_fraction 0 1 False (tl s1) else (0, 1, s1)) = (f, k, s2)"
    by (metis surj_pair)
  have "length s2 \<le> length s1"
    using f leading_fraction_shrinks [of 0 1 False "tl s1" f k s2] by (auto split: if_splits)
  moreover have "takeWhile unit_char s2 \<noteq> []" "rest = dropWhile unit_char s2"
    using assms by (auto simp: duration_part_def v f Let_def split: if_splits option.splits)
  ultimately show ?thesis
    using leading_int_shrinks [OF v] takeWhile_shrinks [of unit_char s2] by simp
qed

function duration_parts :: "float_ops \<Rightarrow> nat \<Rightarrow> string \<Rightarrow> nat option" where
  "duration_parts fp d s =
     (if s = [] then Some d
      else case duration_part fp s of
        None \<Rightarrow> None
      | Some (ns, rest) \<Rightarrow> (if 2 ^ 63 < d + ns then None else duration_parts fp (d + ns) rest))"
  by auto
termination
  by (relation "measure (\<lambda>(fp, d, s). length s)") (auto dest: duration_part_shrinks)

declare duration_parts.simps [simp del]

definition parse_duration :: "float_ops \<Rightarrow> string \<Rightarrow> duration option" where
  "parse_duration fp s0 = (let neg = has_prefix s0 ''-''; s = (if neg \<or> has_prefix s0 ''+'' then tl s0 else s0) in
     if s = ''0'' then Some 0
     else if s = [] then None
     else case duration_parts fp 0 s of
         None \<Rightarrow> None
       | Some d \<Rightarrow> (if neg then Some (- int d) else if 2 ^ 63 - 1 < d then None else Some (int d)))"

text \<open>\<open>Duration.String\<close>.\<close>

fun frac_digits :: "nat \<Rightarrow> nat \<Rightarrow> bool \<Rightarrow> string \<Rightarrow> string \<times> nat" where
  "frac_digits 0 v shown acc = (if shown then CHR ''.'' # acc else acc, v)"
| "frac_digits (Suc n) v shown acc =
     (let shown' = (shown \<or> v mod 10 \<noteq> 0)
      in frac_digits n (v div 10) shown' (if shown' then digit_char (v mod 10) # acc else acc))"

definition duration_text :: "duration \<Rightarrow> string" where
  "duration_text d = (let u = nat \<bar>d\<bar>;
       small = (\<lambda>prec unit. let (frac, v) = frac_digits prec u False unit in format_uint v @ frac);
       body = (if u = 0 then ''0s''
         else if u < 10 ^ 3 then small 0 ''ns''
         else if u < 10 ^ 6 then small 3 [char_of (194::nat), char_of (181::nat), CHR ''s'']
         else if u < 10 ^ 9 then small 6 ''ms''
         else let (frac, secs) = frac_digits 9 u False ''s''; mins = secs div 60; hours = mins div 60 in
           (if 0 < hours then format_uint hours @ ''h'' else []) @
           (if 0 < mins then format_uint (mins mod 60) @ ''m'' else []) @ format_uint (secs mod 60) @ frac)
     in (if d < 0 then ''-'' else []) @ body)"

section \<open>Reading the environment\<close>

type_synonym environment = "string \<Rightarrow> string"

definition getEnv :: "environment \<Rightarrow> string \<Rightarrow> string \<Rightarrow> string" where
  "getEnv env key defaultVal = (if env key \<noteq> [] then env key else defaultVal)"

text \<open>The common body of the typed readers: a variable that is unset or unreadable gives the default.\<close>

definition read_or :: "(string \<Rightarrow> 'v option) \<Rightarrow> string \<Rightarrow> 'v \<Rightarrow> 'v" where
  "read_or parse v defaultVal = (if v = [] then defaultVal else case parse v of None \<Rightarrow> defaultVal | Some x \<Rightarrow> x)"

definition getDurationEnv :: "float_ops \<Rightarrow> environment \<Rightarrow> string \<Rightarrow> duration \<Rightarrow> duration" where
  "getDurationEnv fp env key = read_or (parse_duration fp) (env key)"

definition getIntEnv :: "environment \<Rightarrow> string \<Rightarrow> int \<Rightarrow> int" where
  "getIntEnv env key = read_or parse_int64 (env key)"

definition getInt64Env :: "environment \<Rightarrow> string \<Rightarrow> int \<Rightarrow> int" where
  "getInt64Env env key = read_or parse_int64 (env key)"

definition getFloat64Env :: "float_ops \<Rightarrow> environment \<Rightarrow> string \<Rightarrow> float64 \<Rightarrow> float64" where
  "getFloat64Env fp env key = read_or (fp_parse fp) (env key)"

definition getBoolEnv :: "environment \<Rightarrow> string \<Rightarrow> bool \<Rightarrow> bool" where
  "getBoolEnv env key = read_or parse_bool (env key)"

section \<open>The configuration\<close>

record config =
  cf_api_port :: string
  cf_mysql_dsn :: string
  cf_mysql_reader_dsn :: string
  cf_query_timeout :: duration
  cf_redis_addr :: string
  cf_redis_pass :: string
  cf_query_result_ttl :: duration
  cf_max_query_rows :: int
  cf_max_result_bytes :: int
  cf_rabbitmq_url :: string
  cf_jwt_secret :: string
  cf_jwt_issuer :: string
  cf_jwt_access_ttl :: duration
  cf_data_source_key :: string
  cf_allowed_db_ports :: string
  cf_private_host_allowlist :: string
  cf_data_source_connect_timeout :: duration
  cf_mq_confirm_timeout :: duration
  cf_retry_max_attempts :: int
  cf_retry_delay :: duration
  cf_outbox_poll_interval :: duration
  cf_outbox_batch_size :: int
  cf_outbox_lease_ttl :: duration
  cf_outbox_base_backoff :: duration
  cf_outbox_max_backoff :: duration
  cf_outbox_published_retain :: duration
  cf_outbox_clean_batch :: int
  cf_llm_provider :: string
  cf_llm_base_url :: string
  cf_llm_api_key :: string
  cf_llm_model :: string
  cf_llm_timeout :: duration
  cf_llm_temperature :: float64
  cf_llm_max_tokens :: int
  cf_llm_max_resp_bytes :: int
  cf_llm_max_schema_bytes :: int
  cf_llm_allow_local_http :: bool

definition minute :: duration where "minute = 60 * second"
definition hour :: duration where "hour = 60 * minute"

text \<open>The struct literal of \<open>Load\<close>; the data source key is set after it.\<close>

definition read_config :: "float_ops \<Rightarrow> environment \<Rightarrow> config" where
  "read_config fp env = \<lparr>
     cf_api_port = getEnv env ''API_PORT'' ''8080'',
     cf_mysql_dsn = env ''MYSQL_DSN'',
     cf_mysql_reader_dsn = env ''MYSQL_READER_DSN'',
     cf_query_timeout = getDurationEnv fp env ''QUERY_TIMEOUT'' (5 * second),
     cf_redis_addr = getEnv env ''REDIS_ADDR'' ''localhost:6379'',
     cf_redis_pass = env ''REDIS_PASS'',
     cf_query_result_ttl = getDurationEnv fp env ''QUERY_RESULT_TTL'' (15 * minute),
     cf_max_query_rows = getIntEnv env ''MAX_QUERY_ROWS'' 100,
     cf_max_result_bytes = getInt64Env env ''MAX_RESULT_BYTES'' 1048576,
     cf_rabbitmq_url = env ''RABBITMQ_URL'',
     cf_jwt_secret = env ''JWT_SECRET'',
     cf_jwt_issuer = getEnv env ''JWT_ISSUER'' ''askdb-api'',
     cf_jwt_access_ttl = getDurationEnv fp env ''JWT_ACCESS_TTL'' (24 * hour),
     cf_data_source_key = [],
     cf_allowed_db_ports = getEnv env ''ALLOWED_DB_PORTS'' ''3306'',
     cf_private_host_allowlist = env ''PRIVATE_HOST_ALLOWLIST'',
     cf_data_source_connect_timeout = getDurationEnv fp env ''DATA_SOURCE_CONNECT_TIMEOUT'' (5 * second),
     cf_mq_confirm_timeout = getDurationEnv fp env ''MQ_CONFIRM_TIMEOUT'' (5 * second),
     cf_retry_max_attempts = getIntEnv env ''RETRY_MAX_ATTEMPTS'' 3,
     cf_retry_delay = getDurationEnv fp env ''RETRY_DELAY'' (30 * second),
     cf_outbox_poll_interval = getDurationEnv fp env ''OUTBOX_POLL_INTERVAL'' (2 * second),
     cf_outbox_batch_size = getIntEnv env ''OUTBOX_BATCH_SIZE'' 10,
     cf_outbox_lease_ttl = getDurationEnv fp env ''OUTBOX_LEASE_TTL'' (30 * second),
     cf_outbox_base_backoff = getDurationEnv fp env ''OUTBOX_BASE_BACKOFF'' (5 * second),
     cf_outbox_max_backoff = getDurationEnv fp env ''OUTBOX_MAX_BACKOFF'' (10 * minute),
     cf_outbox_published_retain = getDurationEnv fp env ''OUTBOX_PUBLISHED_RETAIN'' (24 * hour),
     cf_outbox_clean_batch = getIntEnv env ''OUTBOX_CLEAN_BATCH'' 100,
     cf_llm_provider = getEnv env ''LLM_PROVIDER'' ''fake'',
     cf_llm_base_url = env ''LLM_BASE_URL'',
     cf_llm_api_key = env ''LLM_API_KEY'',
     cf_llm_model = getEnv env ''LLM_MODEL'' ''gpt-4o-mini'',
     cf_llm_timeout = getDurationEnv fp env ''LLM_TIMEOUT'' (60 * second),
     cf_llm_temperature = getFloat64Env fp env ''LLM_TEMPERATURE'' (Finite False 0 0),
     cf_llm_max_tokens = getIntEnv env ''LLM_MAX_TOKENS'' 512,
     cf_llm_max_resp_bytes = getInt64Env env ''LLM_MAX_RESP_BYTES'' 524288,
     cf_llm_max_schema_bytes = getIntEnv env ''LLM_MAX_SCHEMA_BYTES'' 16384,
     cf_llm_allow_local_http = getBoolEnv env ''LLM_ALLOW_LOCAL_HTTP'' False\<rparr>"

section \<open>Validation\<close>

definition missing_variables :: "config \<Rightarrow> string list" where
  "missing_variables c = (if cf_mysql_dsn c = [] then [''MYSQL_DSN''] else []) @
     (if cf_mysql_reader_dsn c = [] then [''MYSQL_READER_DSN''] else []) @
     (if cf_rabbitmq_url c = [] then [''RABBITMQ_URL''] else [])"

definition not_positive :: "string \<Rightarrow> (int \<Rightarrow> string) \<Rightarrow> int \<Rightarrow> go_error option" where
  "not_positive name show n =
     (if n \<le> 0 then Some (NewError (''config: '' @ name @ '' must be greater than zero, got '' @ show n)) else None)"

fun first_of :: "go_error option list \<Rightarrow> go_error option" where
  "first_of [] = None"
| "first_of (Some e # es) = Some e"
| "first_of (None # es) = first_of es"

definition validate :: "config \<Rightarrow> go_error option" where
  "validate c =
     (if missing_variables c \<noteq> []
      then Some (NewError (''config: missing required environment variables: ['' @ join_with '' '' (missing_variables c) @ '']''))
      else first_of [
        not_positive ''QUERY_RESULT_TTL'' duration_text (cf_query_result_ttl c),
        not_positive ''MAX_QUERY_ROWS'' int_text (cf_max_query_rows c),
        not_positive ''MAX_RESULT_BYTES'' int_text (cf_max_result_bytes c),
        not_positive ''OUTBOX_POLL_INTERVAL'' duration_text (cf_outbox_poll_interval c),
        not_positive ''OUTBOX_BATCH_SIZE'' int_text (cf_outbox_batch_size c),
        not_positive ''OUTBOX_LEASE_TTL'' duration_text (cf_outbox_lease_ttl c),
        not_positive ''OUTBOX_BASE_BACKOFF'' duration_text (cf_outbox_base_backoff c),
        not_positive ''OUTBOX_MAX_BACKOFF'' duration_text (cf_outbox_max_backoff c),
        not_positive ''OUTBOX_PUBLISHED_RETAIN'' duration_text (cf_outbox_published_retain c),
        not_positive ''OUTBOX_CLEAN_BATCH'' int_text (cf_outbox_clean_batch c)])"

text \<open>The error of package base64, without the offset its text ends with.\<close>

definition illegal_base64 :: go_error where
  "illegal_base64 = NewError ''illegal base64 data''"

definition Load :: "float_ops \<Rightarrow> environment \<Rightarrow> go_error + config" where
  "Load fp env = (let raw = env ''DATA_SOURCE_KEY'' in
     case (if raw = [] then Some [] else base64_decode raw) of
       None \<Rightarrow> Inl (Wrap ''config: DATA_SOURCE_KEY is not valid base64: '' illegal_base64 '''')
     | Some key \<Rightarrow>
         (let cfg = (read_config fp env)\<lparr>cf_data_source_key := key\<rparr> in
          case validate cfg of Some e \<Rightarrow> Inl e | None \<Rightarrow> Inr cfg))"

definition ValidateJWT :: "config \<Rightarrow> go_error option" where
  "ValidateJWT c =
     (if length (cf_jwt_secret c) = 0 then Some (NewError ''config: missing required environment variable: JWT_SECRET'')
      else if length (cf_jwt_secret c) < 32
      then Some (NewError (''config: JWT_SECRET must be at least 32 bytes, got '' @ format_uint (length (cf_jwt_secret c))))
      else None)"

definition ValidateDataSourceKey :: "config \<Rightarrow> go_error option" where
  "ValidateDataSourceKey c =
     (if length (cf_data_source_key c) = 0
      then Some (NewError ''config: missing required environment variable: DATA_SOURCE_KEY'')
      else if length (cf_data_source_key c) \<noteq> 32
      then Some (NewError (''config: DATA_SOURCE_KEY must decode to exactly 32 bytes, got '' @
             format_uint (length (cf_data_source_key c))))
      else None)"

text \<open>\<open>math.IsNaN(t) || math.IsInf(t, 0) || t < 0 || t > 2\<close>\<close>

fun bad_temperature :: "float64 \<Rightarrow> bool" where
  "bad_temperature NaN = True"
| "bad_temperature (Infinite _) = True"
| "bad_temperature (Finite neg m x) = (neg \<and> 0 < m \<or> \<not> neg \<and> above_two m x)"

definition ValidateLLM :: "config \<Rightarrow> go_error option" where
  "ValidateLLM c =
     (if cf_llm_provider c = ''fake'' then None
      else if cf_llm_provider c \<noteq> ''openai-compatible'' then Some (NewError ''config: unsupported LLM_PROVIDER'')
      else if cf_llm_base_url c = []
      then Some (NewError ''config: LLM_BASE_URL is required when LLM_PROVIDER=openai-compatible'')
      else if cf_llm_api_key c = []
      then Some (NewError ''config: LLM_API_KEY is required when LLM_PROVIDER=openai-compatible'')
      else if cf_llm_timeout c \<le> 0 \<or> cf_llm_max_tokens c \<le> 0 \<or> cf_llm_max_resp_bytes c \<le> 0 \<or> cf_llm_max_schema_bytes c \<le> 0
      then Some (NewError ''config: LLM limits must be positive'')
      else if bad_temperature (cf_llm_temperature c)
      then Some (NewError ''config: LLM_TEMPERATURE must be between 0 and 2'')
      else None)"

end
