(* ===== verification/Config_Props.thy ===== *)
theory Config_Props
  imports Config Crypto
begin

text \<open>
  What a configuration that loads guarantees, which settings are read but not checked, and what happens
  to values that cannot be read.
\<close>

section \<open>Ranges\<close>

lemma duration_parts_bound: "duration_parts fp d s = Some n \<Longrightarrow> d \<le> 2 ^ 63 \<Longrightarrow> n \<le> 2 ^ 63"
proof (induction fp d s rule: duration_parts.induct)
  case (1 fp d s)
  show ?case
  proof (cases "s = []")
    case True
    then show ?thesis using "1.prems" by (simp add: duration_parts.simps)
  next
    case False
    with "1.prems"(1) obtain ns rest where part: "duration_part fp s = Some (ns, rest)" "\<not> 2 ^ 63 < d + ns"
        "duration_parts fp (d + ns) rest = Some n"
      by (subst (asm) duration_parts.simps) (auto split: option.splits if_splits)
    from "1.IH" [OF False part(1) refl part(2,3)] part(2) show ?thesis by simp
  qed
qed

lemma parse_duration_range:
  assumes "parse_duration fp s = Some d"
  shows "int64_range d"
proof -
  have bound: "int n \<le> 2 ^ 63" if "duration_parts fp 0 s' = Some n" for s' n
  proof -
    have "n \<le> 2 ^ 63" by (rule duration_parts_bound [OF that]) simp
    then have "int n \<le> int (2 ^ 63)" by (simp only: of_nat_le_iff)
    then show ?thesis by simp
  qed
  define s' where "s' = (if has_prefix s ''-'' \<or> has_prefix s ''+'' then tl s else s)"
  have "d = 0 \<or> (\<exists>n. duration_parts fp 0 s' = Some n \<and> (d = - int n \<or> n \<le> 2 ^ 63 - 1 \<and> d = int n))"
    using assms unfolding parse_duration_def Let_def s'_def [symmetric]
    by (auto split: if_splits option.splits)
  then show ?thesis
  proof (elim disjE exE conjE)
    fix n assume "duration_parts fp 0 s' = Some n" "d = - int n"
    then show ?thesis using bound [of s' n] by (simp add: int64_range_def)
  qed (simp_all add: int64_range_def)
qed

lemma read_or_range:
  "(\<And>s x. parse s = Some x \<Longrightarrow> int64_range x) \<Longrightarrow> int64_range d \<Longrightarrow> int64_range (read_or parse v d)"
  by (auto simp: read_or_def split: option.split)

lemmas readers_range = read_or_range [OF parse_int64_range] read_or_range [OF parse_duration_range]

text \<open>Every machine integer and duration of a configuration.\<close>

definition config_numbers :: "config \<Rightarrow> int list" where
  "config_numbers c = [cf_query_timeout c, cf_query_result_ttl c, cf_max_query_rows c, cf_max_result_bytes c,
     cf_jwt_access_ttl c, cf_data_source_connect_timeout c, cf_mq_confirm_timeout c, cf_retry_max_attempts c,
     cf_retry_delay c, cf_outbox_poll_interval c, cf_outbox_batch_size c, cf_outbox_lease_ttl c,
     cf_outbox_base_backoff c, cf_outbox_max_backoff c, cf_outbox_published_retain c, cf_outbox_clean_batch c,
     cf_llm_timeout c, cf_llm_max_tokens c, cf_llm_max_resp_bytes c, cf_llm_max_schema_bytes c]"

definition config_positive :: "config \<Rightarrow> int list" where
  "config_positive c = [cf_query_result_ttl c, cf_max_query_rows c, cf_max_result_bytes c, cf_outbox_poll_interval c,
     cf_outbox_batch_size c, cf_outbox_lease_ttl c, cf_outbox_base_backoff c, cf_outbox_max_backoff c,
     cf_outbox_published_retain c, cf_outbox_clean_batch c]"

lemma default_ranges: "list_all int64_range [5 * second, 15 * minute, 100, 1048576, 24 * hour, 3, 30 * second, 2 * second,
    10, 10 * minute, 60 * second, 512, 524288, 16384]"
  by (simp add: int64_range_def second_def millisecond_def minute_def hour_def)

lemma read_config_range: "list_all int64_range (config_numbers (read_config fp env))"
  using default_ranges
  by (simp add: config_numbers_def read_config_def getDurationEnv_def getIntEnv_def getInt64Env_def readers_range)

lemma first_of_None [simp]: "first_of es = None \<longleftrightarrow> list_all (\<lambda>e. e = None) es"
  by (induction es rule: first_of.induct) auto

lemma not_positive_None [simp]: "not_positive name show n = None \<longleftrightarrow> 0 < n"
  by (auto simp: not_positive_def)

lemma validate_ok:
  "validate c = None \<longleftrightarrow> missing_variables c = [] \<and> list_all (\<lambda>n. 0 < n) (config_positive c)"
  by (simp add: validate_def config_positive_def)

lemma Load_Inr:
  assumes "Load fp env = Inr c"
  shows "\<exists>key. c = (read_config fp env)\<lparr>cf_data_source_key := key\<rparr> \<and> validate c = None \<and>
    (env ''DATA_SOURCE_KEY'' = [] \<and> key = [] \<or> base64_decode (env ''DATA_SOURCE_KEY'') = Some key)"
  using assms by (auto simp: Load_def Let_def split: if_splits option.splits)

section \<open>Properties\<close>

text \<open>
  C34. A configuration that loads is valid: the three connection strings are present, the ten limits that
  must be positive are, every number and duration fits 64 bits, the key is what DATA_SOURCE_KEY encodes -
  and if the key check passes as well, a cipher is made from it.
\<close>

theorem loaded_config_is_valid:
  assumes "Load fp env = Inr c"
  shows "cf_mysql_dsn c \<noteq> [] \<and> cf_mysql_reader_dsn c \<noteq> [] \<and> cf_rabbitmq_url c \<noteq> [] \<and> cf_api_port c \<noteq> [] \<and>
    list_all (\<lambda>n. 0 < n) (config_positive c) \<and> list_all int64_range (config_numbers c) \<and>
    (env ''DATA_SOURCE_KEY'' \<noteq> [] \<longrightarrow> base64_decode (env ''DATA_SOURCE_KEY'') = Some (cf_data_source_key c)) \<and>
    (ValidateDataSourceKey c = None \<longrightarrow> NewCipher (cf_data_source_key c) = Inr \<lparr>ci_key = cf_data_source_key c\<rparr>)"
proof -
  obtain key where c: "c = (read_config fp env)\<lparr>cf_data_source_key := key\<rparr>" "validate c = None"
      "env ''DATA_SOURCE_KEY'' = [] \<and> key = [] \<or> base64_decode (env ''DATA_SOURCE_KEY'') = Some key"
    using Load_Inr [OF assms] by blast
  have "list_all int64_range (config_numbers c)"
    using read_config_range by (simp add: c(1) config_numbers_def)
  moreover have "cf_api_port c \<noteq> []"
    by (simp add: c(1) read_config_def getEnv_def)
  moreover have "ValidateDataSourceKey c = None \<longrightarrow> NewCipher (cf_data_source_key c) = Inr \<lparr>ci_key = cf_data_source_key c\<rparr>"
    by (simp add: ValidateDataSourceKey_def NewCipher_def keyLen_def)
  ultimately show ?thesis
    using c by (auto simp: validate_ok missing_variables_def split: if_splits)
qed

text \<open>A development environment: the required variables, and two settings of its own.\<close>

definition sample_env :: environment where
  "sample_env key = (case map_of [(''MYSQL_DSN'', ''app@tcp(db)/askdb_app''), (''MYSQL_READER_DSN'', ''reader@tcp(db)/askdb_demo''),
     (''RABBITMQ_URL'', ''amqp://mq''), (''OUTBOX_LEASE_TTL'', ''1s''), (''RETRY_MAX_ATTEMPTS'', ''-1'')] key of
       None \<Rightarrow> [] | Some v \<Rightarrow> v)"

definition no_floats :: float_ops where
  "no_floats = \<lparr>fp_parse = (\<lambda>s. None), fp_fraction = (\<lambda>f u s. 0)\<rparr>"

lemma parse_one_second: "parse_duration no_floats ''1s'' = Some second" "parse_int64 ''-1'' = Some (- 1)"
  by (simp_all add: parse_duration_def duration_parts.simps duration_part_def unit_ns_def unit_char_def has_prefix_def
      is_digit_def digit_val_def Let_def second_def millisecond_def parse_int64_def digits_value_def)

lemma sample_env_valid: "validate (read_config no_floats sample_env) = None"
  using parse_one_second
  by (simp add: validate_ok config_positive_def missing_variables_def read_config_def sample_env_def getDurationEnv_def
      getIntEnv_def getInt64Env_def read_or_def second_def millisecond_def minute_def hour_def)

lemma sample_env_loads: "Load no_floats sample_env = Inr (read_config no_floats sample_env)"
proof -
  have "(read_config no_floats sample_env)\<lparr>cf_data_source_key := []\<rparr> = read_config no_floats sample_env"
    by (simp add: read_config_def)
  moreover have "sample_env ''DATA_SOURCE_KEY'' = []"
    by (simp add: sample_env_def)
  ultimately show ?thesis
    using sample_env_valid by (simp add: Load_def Let_def)
qed

theorem loaded_config_is_valid_witness:
  "list_all (\<lambda>n. 0 < n) (config_positive (read_config no_floats sample_env)) \<and>
   cf_mysql_dsn (read_config no_floats sample_env) \<noteq> []"
  using loaded_config_is_valid [OF sample_env_loads] by simp

text \<open>
  A configuration with a lease shorter than the poll interval and a negative number of retries loads:
  neither the order the comment of OutboxLeaseTTL asks for nor the retry bound is checked.
\<close>

theorem unchecked_settings:
  "\<exists>c. Load no_floats sample_env = Inr c \<and> cf_outbox_lease_ttl c < cf_outbox_poll_interval c \<and> cf_retry_max_attempts c < 0"
  using sample_env_loads parse_one_second
  by (auto simp: read_config_def sample_env_def getDurationEnv_def getIntEnv_def read_or_def second_def millisecond_def)

text \<open>The settings whose reader falls back to the default, and the values it falls back for.\<close>

definition unreadable :: "float_ops \<Rightarrow> string \<Rightarrow> string \<Rightarrow> bool" where
  "unreadable fp key v =
     (if key \<in> {''QUERY_TIMEOUT'', ''QUERY_RESULT_TTL'', ''JWT_ACCESS_TTL'', ''DATA_SOURCE_CONNECT_TIMEOUT'', ''MQ_CONFIRM_TIMEOUT'',
        ''RETRY_DELAY'', ''OUTBOX_POLL_INTERVAL'', ''OUTBOX_LEASE_TTL'', ''OUTBOX_BASE_BACKOFF'', ''OUTBOX_MAX_BACKOFF'',
        ''OUTBOX_PUBLISHED_RETAIN'', ''LLM_TIMEOUT''} then parse_duration fp v = None
      else if key \<in> {''MAX_QUERY_ROWS'', ''MAX_RESULT_BYTES'', ''RETRY_MAX_ATTEMPTS'', ''OUTBOX_BATCH_SIZE'', ''OUTBOX_CLEAN_BATCH'',
        ''LLM_MAX_TOKENS'', ''LLM_MAX_RESP_BYTES'', ''LLM_MAX_SCHEMA_BYTES''} then parse_int64 v = None
      else if key = ''LLM_TEMPERATURE'' then fp_parse fp v = None
      else if key = ''LLM_ALLOW_LOCAL_HTTP'' then parse_bool v = None
      else False)"

text \<open>The environment without its unreadable settings.\<close>

definition readable_env :: "float_ops \<Rightarrow> environment \<Rightarrow> environment" where
  "readable_env fp env key = (if unreadable fp key (env key) then [] else env key)"

lemma read_or_ignores: "read_or parse (if parse v = None then [] else v) d = read_or parse v d"
  by (simp add: read_or_def)

lemma readable_read_config: "read_config fp (readable_env fp env) = read_config fp env"
  by (simp add: read_config_def readable_env_def unreadable_def getEnv_def getDurationEnv_def getIntEnv_def
      getInt64Env_def getFloat64Env_def getBoolEnv_def read_or_ignores)

lemma readable_key: "readable_env fp env ''DATA_SOURCE_KEY'' = env ''DATA_SOURCE_KEY''"
  by (simp add: readable_env_def unreadable_def)

text \<open>
  C35. Unreadable settings are ignored: where a duration, number or flag cannot be read, loading answers what
  it would answer if the variable were not set, whatever the other variables are.
\<close>

theorem unreadable_settings_are_ignored: "Load fp env = Load fp (readable_env fp env)"
  by (simp add: Load_def Let_def readable_read_config readable_key split: option.split)

end
