(* ===== verification/Query_Exec.thy ===== *)
theory Query_Exec
  imports Worker Config
begin

text \<open>
  The query executor (internal/queryexec/executor.go): what a result set of database/sql becomes, under the
  row cap; and the way back of its cells through the cache (\<open>decodeCachedResult\<close> in
  internal/queryresult/redis_store.go).
\<close>

section \<open>Result sets\<close>

text \<open>
  A result set as the executor sees it through database/sql: the columns with their database type names
  (\<open>Columns\<close> and \<open>ColumnTypes\<close> answer one entry for each column, or fail), the rows as bytes, \<open>None\<close> for
  NULL (a row may fail to be converted by \<open>Scan\<close>), and what \<open>rows.Err()\<close> answers after a number of calls of
  \<open>rows.Next()\<close>. \<open>Scan\<close> refuses a row that has not one value for each destination.
\<close>

record result_set =
  rs_columns :: "(string \<times> string) list"
  rs_columns_err :: "go_error option"
  rs_types_err :: "go_error option"
  rs_rows :: "(go_error + string option list) list"
  rs_err :: "nat \<Rightarrow> go_error option"

definition scan :: "nat \<Rightarrow> go_error + string option list \<Rightarrow> go_error + string option list" where
  "scan n r = (case r of
       Inl e \<Rightarrow> Inl e
     | Inr raw \<Rightarrow> (if length raw = n then Inr raw
         else Inl (NewError (''sql: expected '' @ format_uint (length raw) @ '' destination arguments in Scan, not '' @ format_uint n))))"

section \<open>Cells\<close>

text \<open>\<open>strings.ToUpper\<close>: the ASCII letters of an ASCII string, and \<open>uni\<close> on any other.\<close>

definition upper_char :: "char \<Rightarrow> char" where
  "upper_char c = (if 97 \<le> byte c \<and> byte c \<le> 122 then char_of (byte c - 32) else c)"

definition to_upper :: "(string \<Rightarrow> string) \<Rightarrow> string \<Rightarrow> string" where
  "to_upper uni s = (if ascii s then map upper_char s else uni s)"

definition integer_types :: "string set" where
  "integer_types = {''TINYINT'', ''SMALLINT'', ''MEDIUMINT'', ''INT'', ''INTEGER'', ''BIGINT'', ''UNSIGNED TINYINT'',
     ''UNSIGNED SMALLINT'', ''UNSIGNED MEDIUMINT'', ''UNSIGNED INT'', ''UNSIGNED BIGINT'', ''YEAR''}"

definition convertCell :: "(string \<Rightarrow> string) \<Rightarrow> (string \<Rightarrow> float64 option) \<Rightarrow> string option \<Rightarrow> string \<Rightarrow> go_value" where
  "convertCell uni parse_float rb dbType = (case rb of
       None \<Rightarrow> GoNil
     | Some s \<Rightarrow>
         (if to_upper uni dbType \<in> integer_types
          then (case parse_int64 s of Some n \<Rightarrow> GoInt64 n | None \<Rightarrow> GoString s)
          else if to_upper uni dbType \<in> {''FLOAT'', ''DOUBLE''}
          then (case parse_float s of Some f \<Rightarrow> GoFloat64 f | None \<Rightarrow> GoString s)
          else if to_upper uni dbType \<in> {''DECIMAL'', ''NEWDECIMAL''} then GoString s
          else GoString s))"

section \<open>The executor\<close>

record query_executor =
  qe_upper :: "string \<Rightarrow> string"
  qe_parse_float :: "string \<Rightarrow> float64 option"
  qe_db :: "string \<Rightarrow> world \<Rightarrow> go_error + result_set"
  qe_max_rows :: int

definition defaultMaxRows :: int where "defaultMaxRows = 100"

definition NewExecutor ::
  "(string \<Rightarrow> string) \<Rightarrow> (string \<Rightarrow> float64 option) \<Rightarrow> (string \<Rightarrow> world \<Rightarrow> go_error + result_set) \<Rightarrow> int \<Rightarrow> query_executor" where
  "NewExecutor uni parse_float db maxRows = \<lparr>qe_upper = uni, qe_parse_float = parse_float, qe_db = db,
     qe_max_rows = (if maxRows \<le> 0 then defaultMaxRows else maxRows)\<rparr>"

text \<open>
  The loop over \<open>rows.Next()\<close>: the rows read and the number of calls of \<open>Next\<close>, or the error of a \<open>Scan\<close>.
\<close>

definition convert_row :: "query_executor \<Rightarrow> string list \<Rightarrow> string option list \<Rightarrow> go_value list" where
  "convert_row e types raw = map2 (convertCell (qe_upper e) (qe_parse_float e)) raw types"

fun read_rows ::
  "query_executor \<Rightarrow> string list \<Rightarrow> go_value list list \<Rightarrow> nat \<Rightarrow> (go_error + string option list) list \<Rightarrow>
     go_error + go_value list list \<times> nat" where
  "read_rows e types result calls [] = Inr (result, Suc calls)"
| "read_rows e types result calls (r # rs) =
     (if qe_max_rows e \<le> int (length result) then Inr (result, Suc calls)
      else case scan (length types) r of
        Inl err \<Rightarrow> Inl (Wrap ''queryexec: scan: '' err '''')
      | Inr raw \<Rightarrow> read_rows e types (result @ [convert_row e types raw]) (Suc calls) rs)"

definition Execute :: "query_executor \<Rightarrow> executor" where
  "Execute e query w = (case qe_db e query w of
       Inl err \<Rightarrow> Inl (Wrap ''queryexec: query: '' err '''')
     | Inr rows \<Rightarrow> (case rs_columns_err rows of
           Some err \<Rightarrow> Inl (Wrap ''queryexec: columns: '' err '''')
         | None \<Rightarrow> (case rs_types_err rows of
               Some err \<Rightarrow> Inl (Wrap ''queryexec: column types: '' err '''')
             | None \<Rightarrow> (case read_rows e (map snd (rs_columns rows)) [] 0 (rs_rows rows) of
                   Inl err \<Rightarrow> Inl err
                 | Inr (result, calls) \<Rightarrow> (case rs_err rows calls of
                       Some err \<Rightarrow> Inl (Wrap ''queryexec: rows: '' err '''')
                     | None \<Rightarrow> Inr (map fst (rs_columns rows), result))))))"

section \<open>Cached cells\<close>

text \<open>
  A decoded cell is a \<open>json.Number\<close>, as \<open>UseNumber\<close> leaves numbers, or another value. \<open>decode\<close> is the JSON
  decoder: it yields the result without its rows, and the rows.
\<close>

datatype decoded_cell = Number string | Decoded go_value

definition normalizeNumber :: "(string \<Rightarrow> float64 option) \<Rightarrow> string \<Rightarrow> go_value" where
  "normalizeNumber parse_float s =
     (case (if plain_digits s then parse_int64 s else None) of
        Some i \<Rightarrow> GoInt64 i
      | None \<Rightarrow> (case parse_float s of Some f \<Rightarrow> GoFloat64 f | None \<Rightarrow> GoString s))"

definition normalize_cell :: "(string \<Rightarrow> float64 option) \<Rightarrow> decoded_cell \<Rightarrow> go_value" where
  "normalize_cell parse_float cell = (case cell of Number s \<Rightarrow> normalizeNumber parse_float s | Decoded v \<Rightarrow> v)"

definition decodeCachedResult ::
  "(string \<Rightarrow> float64 option) \<Rightarrow> (string \<Rightarrow> go_error + cached_query_result \<times> decoded_cell list list) \<Rightarrow>
     string \<Rightarrow> go_error + cached_query_result" where
  "decodeCachedResult parse_float decode data = (case decode data of
       Inl e \<Rightarrow> Inl e
     | Inr (result, rows) \<Rightarrow> Inr (result\<lparr>cr_rows := map (map (normalize_cell parse_float)) rows\<rparr>))"

end
