(* ===== verification/Fake_Llm.thy ===== *)
theory Fake_Llm
  imports Accounts
begin

text \<open>
  The deterministic stand-in for a language model (internal/llm/fake.go): a fixed table from questions to
  SQL. The questions are Chinese; they are given by their code points and compared as UTF-8.
\<close>

definition utf8 :: "nat list \<Rightarrow> string" where
  "utf8 rs = concat (map encode_rune rs)"

text \<open>Query all products\<close>

definition all_products :: string where
  "all_products = utf8 [26597, 35810, 25152, 26377, 21830, 21697]"

text \<open>Query the best selling products\<close>

definition best_sellers :: string where
  "best_sellers = utf8 [26597, 35810, 38144, 37327, 26368, 39640, 30340, 21830, 21697]"

text \<open>Query the latest orders\<close>

definition recent_orders :: string where
  "recent_orders = utf8 [26597, 35810, 26368, 36817, 30340, 35746, 21333]"

type_synonym fake_client = "string \<rightharpoonup> string"

definition NewFakeLLMClient :: fake_client where
  "NewFakeLLMClient = map_of
     [(all_products,
       ''SELECT id, name, category, price, stock, created_at FROM products ORDER BY id LIMIT 100''),
      (best_sellers,
       ''SELECT p.id, p.name, SUM(oi.quantity) AS total_sold FROM products p JOIN order_items oi ON oi.product_id = p.id GROUP BY p.id, p.name ORDER BY total_sold DESC LIMIT 100''),
      (recent_orders,
       ''SELECT id, customer, status, total_amount, created_at FROM orders ORDER BY created_at DESC LIMIT 100'')]"

definition GenerateSQL :: "fake_client \<Rightarrow> string \<Rightarrow> go_error + string" where
  "GenerateSQL c question = (case c (trim_space question) of
       None \<Rightarrow> Inl (Sentinel ErrUnsupportedQuestion) | Some sql \<Rightarrow> Inr sql)"

end
