(* ===== verification/Worker_Main.thy ===== *)
theory Worker_Main
  imports Fake_Llm Query_Exec Net_Guard Datasource_Conn Crypto Guard_Properties Consumer
begin

text \<open>
  The worker process (cmd/worker/main.go): start-up from the environment to a consuming worker, the opener
  of data sources, and the delivery loop of the consumer (\<open>NewConsumer\<close>, \<open>Start\<close> in
  internal/queryjob/consumer.go). What the process gets from libraries and servers is the record
  \<open>worker_libs\<close>. At this commit main.go leaves out the schema readers \<open>NewWorkerService\<close> and
  \<open>DataSourceOpener\<close> ask for; they are fields of that record as well.
\<close>

section \<open>Libraries and servers\<close>

record 's worker_libs =
  wl_floats :: float_ops
  wl_resolver :: "string \<Rightarrow> go_error + string list"
  wl_aead :: aead
  wl_random :: "go_error + string"
  wl_collate :: "string \<Rightarrow> string"
  wl_upper :: "string \<Rightarrow> string"
  wl_driver :: driver
  wl_dialers :: dialers
  wl_reader :: "string \<Rightarrow> world \<Rightarrow> go_error + result_set"
  wl_query :: "db_config \<Rightarrow> string option \<Rightarrow> string \<Rightarrow> world \<Rightarrow> go_error + result_set"
  wl_route :: route
  wl_parser :: parser
  wl_guard_ctx :: "world \<Rightarrow> go_error option"
  wl_marshal :: "cached_query_result \<Rightarrow> go_error + string"
  wl_static_schema :: "'s schema_reader option"
  wl_opened_schema :: "nat \<Rightarrow> 's schema_reader option"
  wl_no_schema :: 's
  wl_is_deterministic :: "go_error \<Rightarrow> bool"
  wl_is_retryable :: "go_error \<Rightarrow> bool"

section \<open>Opening a data source\<close>

text \<open>
  \<open>OpenForJob\<close>: the row, the connection, the executor. \<open>wl_query\<close> is \<open>QueryContext\<close> on a connection with
  the address its dialler was registered for. \<open>OpenDB\<close> never panics, as theory Datasource_Properties shows.
\<close>

definition OpenForJob :: "'s worker_libs \<Rightarrow> ds_service \<Rightarrow> int \<Rightarrow> nat \<Rightarrow> world \<Rightarrow> go_error + string \<times> executor" where
  "OpenForJob L svc maxRows k w =
     (let op = source_find_raw k in
      case op_read op (fst (op_stmt op (w_clock w) w)) of
        Inl e \<Rightarrow> Inl e
      | Inr ds \<Rightarrow> (case OpenDB (wl_driver L) svc ds (wl_dialers L) of
            None \<Rightarrow> Inl (NewError ''panic'')
          | Some (Inl e, reg) \<Rightarrow> Inl e
          | Some (Inr cfg, reg) \<Rightarrow> Inr (ds_database_name ds,
              Execute (NewExecutor (wl_upper L) (fp_parse (wl_floats L)) (wl_query L cfg (dialled reg cfg)) maxRows))))"

section \<open>Start-up\<close>

definition NewConsumer :: "go_error option prog" where
  "NewConsumer = do {
     r \<leftarrow> declareMQTopology;
     (case r of
        Some e \<Rightarrow> State_Monad.return (Some (Wrap ''consumer: declare topology: '' e ''''))
      | None \<Rightarrow> do {
          q \<leftarrow> ext (\<lambda>w. (Inr (), w));
          State_Monad.return (case q of Inl e \<Rightarrow> Some (Wrap ''consumer: set qos: '' e '''') | Inr u \<Rightarrow> None)
        })
   }"

text \<open>\<open>if err != nil { os.Exit(1) }\<close>: start-up ends with the error, or goes on with the value.\<close>

definition or_exit :: "go_error + 'a \<Rightarrow> ('a \<Rightarrow> (go_error + 'b) prog) \<Rightarrow> (go_error + 'b) prog" where
  "or_exit r k = (case r of Inl e \<Rightarrow> State_Monad.return (Inl e) | Inr x \<Rightarrow> k x)"

definition failed :: "go_error option \<Rightarrow> go_error + unit" where
  "failed e = (case e of None \<Rightarrow> Inr () | Some e \<Rightarrow> Inl e)"

text \<open>The clients of servers are opened one after the other; each may fail.\<close>

fun open_clients :: "nat \<Rightarrow> (go_error + unit) prog" where
  "open_clients 0 = State_Monad.return (Inr ())"
| "open_clients (Suc n) = do {
     r \<leftarrow> ext (\<lambda>w. (Inr (), w));
     (case r of Inl e \<Rightarrow> State_Monad.return (Inl e) | Inr (u :: unit) \<Rightarrow> open_clients n)
   }"

definition worker_sources :: "'s worker_libs \<Rightarrow> cipher \<Rightarrow> net_validator \<Rightarrow> ds_service" where
  "worker_sources L cipher guard = \<lparr>sv_collate = wl_collate L, sv_encrypt = Encrypt (wl_aead L) cipher (wl_random L),
     sv_decrypt = Decrypt (wl_aead L) cipher, sv_guard = guard\<rparr>"

definition demo_tables :: "string list" where
  "demo_tables = [''products'', ''orders'', ''order_items'']"

definition worker_of :: "'s worker_libs \<Rightarrow> config \<Rightarrow> cipher \<Rightarrow> net_validator \<Rightarrow> 's worker" where
  "worker_of L cfg cipher guard = \<lparr>
     wk_route = wl_route L,
     wk_generate = (\<lambda>question schema w. GenerateSQL NewFakeLLMClient question),
     wk_validate = (\<lambda>inp w. Validate (wl_parser L) (wl_guard_ctx L w) inp),
     wk_allowed_tables = demo_tables,
     wk_max_rows = cf_max_query_rows cfg,
     wk_exec = Execute (NewExecutor (wl_upper L) (fp_parse (wl_floats L)) (wl_reader L) (cf_max_query_rows cfg)),
     wk_static_db = ''askdb_demo'',
     wk_static_schema = wl_static_schema L,
     wk_opener = Some (\<lambda>k w. map_sum id (\<lambda>(db, exec). (db, exec, wl_opened_schema L k))
       (OpenForJob L (worker_sources L cipher guard) (cf_max_query_rows cfg) k w)),
     wk_no_schema = wl_no_schema L,
     wk_marshal = wl_marshal L,
     wk_result_ttl = cf_query_result_ttl cfg,
     wk_max_result_bytes = cf_max_result_bytes cfg,
     wk_max_retries = cf_retry_max_attempts cfg,
     wk_retry_delay = cf_retry_delay cfg,
     wk_is_deterministic = wl_is_deterministic L,
     wk_is_retryable = wl_is_retryable L\<rparr>"

definition private_hosts :: "config \<Rightarrow> nat list \<Rightarrow> net_config" where
  "private_hosts cfg ports = \<lparr>nc_ports = ports, nc_allowlist = ParsePrivateAllowlist (cf_private_host_allowlist cfg),
     nc_resolver = None\<rparr>"

text \<open>
  The clients of a worker are MySQL, the reader, Redis, RabbitMQ and the channels of consumer and retry
  publisher; the last step is the subscription of \<open>Start\<close>.
\<close>

definition start_worker :: "'s worker_libs \<Rightarrow> environment \<Rightarrow> (go_error + 's worker) prog" where
  "start_worker L env = or_exit (Load (wl_floats L) env) (\<lambda>cfg. do {
     clients \<leftarrow> open_clients 6;
     or_exit clients (\<lambda>u.
     or_exit (failed (ValidateDataSourceKey cfg)) (\<lambda>u.
     or_exit (NewCipher (cf_data_source_key cfg)) (\<lambda>cipher.
     or_exit (ParseAllowedPorts (cf_allowed_db_ports cfg)) (\<lambda>ports.
     or_exit (NewValidator (wl_resolver L) (private_hosts cfg ports)) (\<lambda>guard. do {
       retryPub \<leftarrow> newRabbitMQRetryPublisher (milliseconds (cf_retry_delay cfg));
       or_exit (failed retryPub) (\<lambda>u. do {
         consumer \<leftarrow> NewConsumer;
         or_exit (failed consumer) (\<lambda>u. do {
           deliveries \<leftarrow> ext (\<lambda>w. (Inr (), w));
           or_exit deliveries (\<lambda>u :: unit. State_Monad.return (Inr (worker_of L cfg cipher guard)))
         })
       })
     })))))
   })"

section \<open>The delivery loop\<close>

text \<open>
  Deliveries come with the lease token a claim would use and whether a renewal found the lease lost. A
  fatal outcome closes the channel and ends the loop; what the broker does with an ACK or NACK is in the
  deliveries that follow.
\<close>

fun consume :: "'s worker \<Rightarrow> (string \<times> bool \<times> delivery) list \<Rightarrow> (delivery \<times> delivery_outcome) list prog" where
  "consume s [] = State_Monad.return []"
| "consume s ((token, lost, d) # ds) = do {
     r \<leftarrow> handle s token lost d;
     (case fst r of
        OutcomeFatal \<Rightarrow> State_Monad.return [(d, OutcomeFatal)]
      | out \<Rightarrow> do { rest \<leftarrow> consume s ds; State_Monad.return ((d, out) # rest) })
   }"

definition run_worker ::
  "'s worker_libs \<Rightarrow> environment \<Rightarrow> (string \<times> bool \<times> delivery) list \<Rightarrow> (go_error + (delivery \<times> delivery_outcome) list) prog" where
  "run_worker L env ds = do {
     r \<leftarrow> start_worker L env;
     (case r of
        Inl e \<Rightarrow> State_Monad.return (Inl e)
      | Inr s \<Rightarrow> do { served \<leftarrow> consume s ds; State_Monad.return (Inr served) })
   }"

end
