(* ===== verification/Worker_Main_Props.thy ===== *)
theory Worker_Main_Props
  imports Worker_Main Config_Props Net_Properties
begin

text \<open>
  The parts of the worker process together: whatever environment it starts from, a worker that consumes
  runs guarded SQL only, and acknowledges no delivery without a lasting reason.
\<close>

section \<open>What starting establishes\<close>

lemma run_or_exit:
  "run_state (or_exit r k) m = (Inr x, m') \<longleftrightarrow> (\<exists>y. r = Inr y \<and> run_state (k y) m = (Inr x, m'))"
  by (auto simp: or_exit_def split: sum.split)

lemma run_bind_iff:
  "run_state (State_Monad.bind p k) m = (x, m') \<longleftrightarrow> (\<exists>y m1. run_state p m = (y, m1) \<and> run_state (k y) m1 = (x, m'))"
  by (cases "run_state p m") auto

lemma start_worker_Inr:
  assumes "run_state (start_worker L env) m = (Inr s, m')"
  shows "\<exists>cfg cipher ports guard. Load (wl_floats L) env = Inr cfg \<and> ValidateDataSourceKey cfg = None \<and>
    NewCipher (cf_data_source_key cfg) = Inr cipher \<and> ParseAllowedPorts (cf_allowed_db_ports cfg) = Inr ports \<and>
    NewValidator (wl_resolver L) (private_hosts cfg ports) = Inr guard \<and> s = worker_of L cfg cipher guard"
  using assms unfolding start_worker_def run_or_exit run_bind_iff
  by (auto simp: failed_def split: option.splits)

text \<open>Opening clients changes nothing.\<close>

lemma triple_open_clients: "stable sys_evolves P \<Longrightarrow> triple sys_evolves P (open_clients n) (\<lambda>_. P)"
proof (induction n)
  case 0
  then show ?case by (auto intro: triple_return)
next
  case (Suc n)
  have "triple sys_evolves P (ext (\<lambda>w. (Inr (), w))) (\<lambda>_. P)"
    by (rule sys.triple_keep [OF Suc.prems]) (simp_all add: sys.R_refl)
  then show ?case
    unfolding open_clients.simps
    by (rule triple_bind) (auto split: sum.split intro: triple_return Suc)
qed

text \<open>Declaring the topologies.\<close>

definition retry_ready :: "world \<Rightarrow> bool" where
  "retry_ready w = (bound mqRetryQueue mqRetryRoutingKey mqRetryExchange w \<and> bound mqDLQQueue mqDLQRoutingKey mqDLQExchange w)"

lemma stable_retry_ready: "stable sys_evolves retry_ready"
  unfolding retry_ready_def by (intro stable_conj sys.stable_bound)

lemma triple_or_exit:
  "(\<And>y. r = Inr y \<Longrightarrow> triple R P (k y) Q) \<Longrightarrow> (\<And>e w. P w \<Longrightarrow> Q (Inl e) w) \<Longrightarrow> triple R P (or_exit r k) Q"
  by (auto simp: or_exit_def split: sum.split intro: triple_return)

lemma triple_nop: "stable sys_evolves P \<Longrightarrow> triple sys_evolves P (ext (\<lambda>w. (Inr (), w))) (\<lambda>_. P)"
  by (rule sys.triple_keep) (simp_all add: sys.R_refl)

lemma triple_newRetryPublisher:
  assumes P: "stable sys_evolves P"
  shows "triple sys_evolves P (newRabbitMQRetryPublisher ms) (\<lambda>r w. P w \<and> (r = None \<longrightarrow> retry_ready w))"
proof -
  have topology: "triple sys_evolves P (declareRetryTopology ms) (\<lambda>r w. P w \<and> (r = None \<longrightarrow> retry_ready w))"
    unfolding declareRetryTopology_def
    by (rule triple_conseq [OF sys.triple_declare_all [OF P]]) (auto simp: retry_ready_def)
  have "stable sys_evolves (\<lambda>w. P w \<and> retry_ready w)"
    by (rule stable_conj [OF P stable_retry_ready])
  from triple_nop [OF this] have confirm: "triple sys_evolves (\<lambda>w. P w \<and> retry_ready w) newConfirmPub (\<lambda>_ w. P w \<and> retry_ready w)"
    unfolding newConfirmPub_def by (rule triple_bind) (rule triple_return)
  show ?thesis
    unfolding newRabbitMQRetryPublisher_def
  proof (rule triple_bind [OF topology])
    fix r :: "go_error option"
    show "triple sys_evolves (\<lambda>w. P w \<and> (r = None \<longrightarrow> retry_ready w))
        (case r of
           Some e \<Rightarrow> State_Monad.return (Some (Wrap ''retry publisher: declare topology: '' e ''''))
         | None \<Rightarrow> State_Monad.bind newConfirmPub
             (\<lambda>c. State_Monad.return (map_option (\<lambda>e. Wrap ''retry publisher: '' e '''') c)))
        (\<lambda>r w. P w \<and> (r = None \<longrightarrow> retry_ready w))"
    proof (cases r)
      case None
      show ?thesis
        unfolding None option.case simp_thms
        by (rule triple_bind [OF confirm]) (rule triple_return, simp)
    qed (auto intro: triple_return)
  qed
qed

lemma triple_NewConsumer:
  assumes P: "stable sys_evolves P"
  shows "triple sys_evolves P NewConsumer (\<lambda>_. P)"
proof -
  have "triple sys_evolves P declareMQTopology (\<lambda>_. P)"
    unfolding declareMQTopology_def by (rule triple_conseq [OF sys.triple_declare_all [OF P]]) auto
  then show ?thesis
    unfolding NewConsumer_def
    by (rule triple_bind) (auto split: option.split intro!: triple_return triple_bind [OF triple_nop [OF P]])
qed

lemma triple_start_worker:
  assumes P: "stable sys_evolves P"
  shows "triple sys_evolves P (start_worker L env) (\<lambda>r w. P w \<and> (\<forall>s. r = Inr s \<longrightarrow> retry_ready w))"
proof -
  have ready: "stable sys_evolves (\<lambda>w. P w \<and> retry_ready w)"
    by (rule stable_conj [OF P stable_retry_ready])
  have last: "triple sys_evolves (\<lambda>w. P w \<and> retry_ready w)
      (State_Monad.bind NewConsumer (\<lambda>consumer. or_exit (failed consumer) (\<lambda>u.
         State_Monad.bind (ext (\<lambda>w. (Inr (), w))) (\<lambda>deliveries. or_exit deliveries (\<lambda>u. State_Monad.return (Inr s))))))
      (\<lambda>r w. P w \<and> (\<forall>s. r = Inr s \<longrightarrow> retry_ready w))" for s :: "'a worker"
    by (intro triple_bind [OF triple_NewConsumer [OF ready]] triple_or_exit triple_bind [OF triple_nop [OF ready]] triple_return) auto
  have publisher: "triple sys_evolves P
      (State_Monad.bind (newRabbitMQRetryPublisher ms) (\<lambda>retryPub. or_exit (failed retryPub) (\<lambda>u.
         State_Monad.bind NewConsumer (\<lambda>consumer. or_exit (failed consumer) (\<lambda>u.
         State_Monad.bind (ext (\<lambda>w. (Inr (), w))) (\<lambda>deliveries. or_exit deliveries (\<lambda>u. State_Monad.return (Inr s))))))))
      (\<lambda>r w. P w \<and> (\<forall>s. r = Inr s \<longrightarrow> retry_ready w))" for ms and s :: "'a worker"
  proof (rule triple_bind [OF triple_newRetryPublisher [OF P]], rule triple_or_exit)
    fix r u assume "failed r = Inr u"
    then have "r = None" by (auto simp: failed_def split: option.splits)
    then show "triple sys_evolves (\<lambda>w. P w \<and> (r = None \<longrightarrow> retry_ready w))
        (State_Monad.bind NewConsumer (\<lambda>consumer. or_exit (failed consumer) (\<lambda>u.
         State_Monad.bind (ext (\<lambda>w. (Inr (), w))) (\<lambda>deliveries. or_exit deliveries (\<lambda>u. State_Monad.return (Inr s))))))
        (\<lambda>r w. P w \<and> (\<forall>s. r = Inr s \<longrightarrow> retry_ready w))"
      using last by simp
  qed auto
  show ?thesis
    unfolding start_worker_def
    by (intro triple_or_exit triple_bind [OF triple_open_clients [OF P]] publisher) auto
qed

section \<open>Serving deliveries\<close>

text \<open>A delivery that was acknowledged, some time before: there was a reason then.\<close>

definition acknowledged :: "world \<Rightarrow> delivery \<Rightarrow> world \<Rightarrow> bool" where
  "acknowledged w0 d w = (\<exists>v. sys_evolves w0 v \<and> sys_evolves v w \<and> ack_reason d w0 v)"

definition all_accounted :: "world \<Rightarrow> (delivery \<times> delivery_outcome) list \<Rightarrow> world \<Rightarrow> bool" where
  "all_accounted w0 served w = (\<forall>(d, out) \<in> set served. out = OutcomeAck \<longrightarrow> acknowledged w0 d w)"

lemma stable_acknowledged: "stable sys_evolves (acknowledged w0 d)"
  unfolding stable_def acknowledged_def using sys.R_trans by blast

lemma on_watch_now: "on_watch w0 w \<Longrightarrow> on_watch w w"
  by (simp add: on_watch_def at_work_def sys.R_refl)

text \<open>What is stable survives a handled delivery.\<close>

lemma acks_frame:
  assumes "\<And>w0. acks w0 (on_watch w0) p (Q w0)" and P: "stable sys_evolves P"
  shows "triple sys_evolves (\<lambda>w. on_watch w0 w \<and> P w) p
    (\<lambda>r w. (on_watch w0 w \<and> P w) \<and> (fst r = OutcomeAck \<longrightarrow> Q w0 w))"
proof (rule tripleI)
  fix m assume m: "rely sys_evolves m" "on_watch w0 (m_world m) \<and> P (m_world m)"
  note run = triple_run [OF assms(1) [unfolded acks_def] m(1)]
  have "sys_evolves (m_world m) (m_world (snd (run_state p m)))"
    using run [of "m_world m"] on_watch_now m(2) by (auto simp: on_watch_def at_work_def)
  then have "P (m_world (snd (run_state p m)))" using P m(2) unfolding stable_def by blast
  then show "((on_watch w0 (m_world (snd (run_state p m))) \<and> P (m_world (snd (run_state p m)))) \<and>
      (fst (fst (run_state p m)) = OutcomeAck \<longrightarrow> Q w0 (m_world (snd (run_state p m))))) \<and>
      set (m_script (snd (run_state p m))) \<subseteq> set (m_script m)"
    using run [of w0] m(2) by auto
qed

lemma triple_consume:
  assumes ok: "worker_ok s"
  shows "stable sys_evolves P \<Longrightarrow> triple sys_evolves (\<lambda>w. on_watch w0 w \<and> P w) (consume s ds)
    (\<lambda>served w. on_watch w0 w \<and> P w \<and> all_accounted w0 served w)"
proof (induction ds arbitrary: P)
  case Nil
  then show ?case by (auto intro: triple_return simp: all_accounted_def)
next
  case (Cons x ds)
  obtain token lost d where x: "x = (token, lost, d)" by (metis prod_cases3)
  have handled: "triple sys_evolves (\<lambda>w. on_watch w0 w \<and> P w) (handle s token lost d)
      (\<lambda>r w. (on_watch w0 w \<and> P w) \<and> (fst r = OutcomeAck \<longrightarrow> ack_reason d w0 w))"
    by (rule acks_frame [OF acks_handle [OF ok] Cons.prems])
  show ?case
    unfolding x consume.simps
  proof (rule triple_bind [OF handled])
    fix r :: "delivery_outcome \<times> go_error option"
    let ?P = "\<lambda>w. P w \<and> (fst r = OutcomeAck \<longrightarrow> acknowledged w0 d w)"
    have P': "stable sys_evolves ?P"
      using Cons.prems stable_acknowledged unfolding stable_def by blast
    have pre: "on_watch w0 w \<and> ?P w" if "(on_watch w0 w \<and> P w) \<and> (fst r = OutcomeAck \<longrightarrow> ack_reason d w0 w)" for w
      using that sys.R_refl by (auto simp: acknowledged_def on_watch_def at_work_def)
    have rest: "triple sys_evolves (\<lambda>w. (on_watch w0 w \<and> P w) \<and> (fst r = OutcomeAck \<longrightarrow> ack_reason d w0 w))
        (State_Monad.bind (consume s ds) (\<lambda>rest. State_Monad.return ((d, fst r) # rest)))
        (\<lambda>served w. on_watch w0 w \<and> P w \<and> all_accounted w0 served w)"
      by (rule triple_bind [OF triple_conseq [OF Cons.IH [OF P'] pre]], assumption, assumption, rule triple_return)
        (auto simp: all_accounted_def)
    have stop: "triple sys_evolves (\<lambda>w. (on_watch w0 w \<and> P w) \<and> (fst r = OutcomeAck \<longrightarrow> ack_reason d w0 w))
        (State_Monad.return [(d, OutcomeFatal)]) (\<lambda>served w. on_watch w0 w \<and> P w \<and> all_accounted w0 served w)"
      by (rule triple_return) (auto simp: all_accounted_def)
    show "triple sys_evolves (\<lambda>w. (on_watch w0 w \<and> P w) \<and> (fst r = OutcomeAck \<longrightarrow> ack_reason d w0 w))
        (case fst r of
           OutcomeFatal \<Rightarrow> State_Monad.return [(d, OutcomeFatal)]
         | out \<Rightarrow> State_Monad.bind (consume s ds) (\<lambda>rest. State_Monad.return ((d, out) # rest)))
        (\<lambda>served w. on_watch w0 w \<and> P w \<and> all_accounted w0 served w)"
      using rest stop by (cases "fst r") (simp_all only: delivery_outcome.case)
  qed
qed

text \<open>Deliveries are served in order; only a fatal outcome leaves any unserved.\<close>

lemma consume_order:
  assumes "run_state (consume s ds) m = (served, m')"
  shows "\<exists>rest. map (snd \<circ> snd) ds = map fst served @ rest \<and> (rest \<noteq> [] \<longrightarrow> served \<noteq> [] \<and> snd (last served) = OutcomeFatal)"
  using assms
proof (induction ds arbitrary: m served)
  case Nil
  then show ?case by simp
next
  case (Cons x ds)
  obtain token lost d where x: "x = (token, lost, d)" by (metis prod_cases3)
  obtain out e m1 where h: "run_state (handle s token lost d) m = ((out, e), m1)" by (metis surj_pair)
  show ?case
  proof (cases "out = OutcomeFatal")
    case True
    then show ?thesis using Cons.prems h by (auto simp: x)
  next
    case False
    then obtain rest where "run_state (consume s ds) m1 = (rest, m')" "served = (d, out) # rest"
      using Cons.prems h by (cases out) (auto simp: x case_prod_beta prod_eq_iff)
    with Cons.IH [of m1 rest] show ?thesis by (auto simp: x)
  qed
qed

section \<open>Properties\<close>


text \<open>A worker on a direct exchange, and its environment.\<close>

definition sample_libs :: "unit worker_libs" where
  "sample_libs = \<lparr>wl_floats = \<lparr>fp_parse = (\<lambda>s. None), fp_fraction = (\<lambda>f u s. 0)\<rparr>, wl_resolver = nv_lookup sample_policy, wl_aead = plain_aead,
     wl_random = Inr (replicate 12 CHR ''n''), wl_collate = id, wl_upper = id,
     wl_driver = \<lparr>dr_sys_cas = None, dr_random = Inr ''12345678'', dr_connector = (\<lambda>c. None), dr_ping = (\<lambda>a c. None)\<rparr>,
     wl_dialers = [], wl_reader = (\<lambda>sql w. Inl (NewError ''no table'')), wl_query = (\<lambda>cfg a sql w. Inl (NewError ''no table'')),
     wl_route = direct_route, wl_parser = sample_parser, wl_guard_ctx = (\<lambda>w. None), wl_marshal = (\<lambda>r. Inr ''{}''),
     wl_static_schema = None, wl_opened_schema = (\<lambda>k. None), wl_no_schema = (), wl_is_deterministic = (\<lambda>e. False),
     wl_is_retryable = (\<lambda>e. True)\<rparr>"

definition worker_env :: environment where
  "worker_env key = (case map_of [(''MYSQL_DSN'', ''app@tcp(db)/askdb_app''), (''MYSQL_READER_DSN'', ''reader@tcp(db)/askdb_demo''),
     (''RABBITMQ_URL'', ''amqp://mq''), (''DATA_SOURCE_KEY'', concat (replicate 10 ''a2tr'') @ ''a2s=''),
     (''JWT_SECRET'', replicate 32 CHR ''j'')] key of
       None \<Rightarrow> [] | Some v \<Rightarrow> v)"

definition broken_delivery :: delivery where
  "broken_delivery = \<lparr>dl_headers = None, dl_body = MalformedBody ''{''\<rparr>"

definition worker_key :: string where
  "worker_key = replicate 32 CHR ''k''"

definition worker_config :: config where
  "worker_config = (read_config (wl_floats sample_libs) worker_env)\<lparr>cf_data_source_key := worker_key\<rparr>"

lemma worker_config_loads: "Load (wl_floats sample_libs) worker_env = Inr worker_config"
proof -
  have "base64_decode (worker_env ''DATA_SOURCE_KEY'') = Some worker_key" by code_simp
  moreover have "validate worker_config = None"
    by (simp add: validate_ok config_positive_def missing_variables_def worker_config_def read_config_def worker_env_def
        getDurationEnv_def getIntEnv_def getInt64Env_def read_or_def second_def millisecond_def minute_def hour_def)
  moreover have "worker_env ''DATA_SOURCE_KEY'' \<noteq> []" by (simp add: worker_env_def)
  ultimately show ?thesis by (simp add: Load_def Let_def worker_config_def)
qed

lemma worker_config_parts:
  "ValidateDataSourceKey worker_config = None"
  "NewCipher (cf_data_source_key worker_config) = Inr \<lparr>ci_key = worker_key\<rparr>"
  "ParseAllowedPorts (cf_allowed_db_ports worker_config) = Inr [3306]"
  "cf_private_host_allowlist worker_config = []"
  "milliseconds (cf_retry_delay worker_config) = 30000"
proof -
  have key: "cf_data_source_key worker_config = worker_key" by (simp add: worker_config_def)
  show "ValidateDataSourceKey worker_config = None" "NewCipher (cf_data_source_key worker_config) = Inr \<lparr>ci_key = worker_key\<rparr>"
    by (simp_all add: key ValidateDataSourceKey_def NewCipher_def keyLen_def) (simp_all add: worker_key_def)
  have "cf_allowed_db_ports worker_config = ''3306''"
    by (simp add: worker_config_def read_config_def getEnv_def worker_env_def)
  moreover have "solid ''3306''" by (simp add: solid_def byte_def is_space_def)
  then have "ParseAllowedPorts ''3306'' = Inr [3306]"
    by (simp add: ParseAllowedPorts_def parse_uint_def is_digit_def digits_value_def digit_val_def)
  ultimately show "ParseAllowedPorts (cf_allowed_db_ports worker_config) = Inr [3306]" by simp
  show "cf_private_host_allowlist worker_config = []" "milliseconds (cf_retry_delay worker_config) = 30000"
    by (simp_all add: worker_config_def read_config_def worker_env_def getDurationEnv_def read_or_def milliseconds_def
        second_def millisecond_def)
qed

lemma sample_guard: "NewValidator (wl_resolver sample_libs) (private_hosts worker_config [3306]) = Inr sample_policy"
  by (simp add: NewValidator_def private_hosts_def worker_config_parts ParsePrivateAllowlist_def sample_policy_def sample_libs_def)

lemma sample_topology:
  "fst (run_state (do { a \<leftarrow> newRabbitMQRetryPublisher 30000; b \<leftarrow> NewConsumer; u \<leftarrow> ext (\<lambda>w. (Inr (), w));
     r \<leftarrow> dlqDirect direct_route ''invalid-id'' 0 0; State_Monad.return (a, b, u :: go_error + unit, fst r) }) (quiet empty_world)) =
   (None, None, Inr (), OutcomeAck)"
  by code_simp

lemma open_clients_quiet: "run_state (open_clients n) (quiet w) = (Inr (), quiet w)"
  by (induction n) (simp_all add: quiet_def)

lemma sample_start:
  "\<exists>m. run_state (start_worker sample_libs worker_env) (quiet empty_world) =
     (Inr (worker_of sample_libs worker_config \<lparr>ci_key = worker_key\<rparr> sample_policy), m) \<and>
     fst (fst (run_state (dlqDirect direct_route ''invalid-id'' 0 0) m)) = OutcomeAck"
  using sample_topology
  by (simp add: start_worker_def or_exit_def failed_def worker_config_loads worker_config_parts sample_guard
      open_clients_quiet case_prod_beta)

lemma sample_run:
  "fst (run_state (run_worker sample_libs worker_env [(''lease'', False, broken_delivery)]) (quiet empty_world)) =
     Inr [(broken_delivery, OutcomeAck)]"
proof -
  have "handle (worker_of sample_libs worker_config c g) token lost broken_delivery = dlqDirect direct_route ''invalid-id'' 0 0"
    for c g token lost
    by (simp add: handle_def broken_delivery_def worker_of_def sample_libs_def)
  then show ?thesis
    using sample_start by (auto simp: run_worker_def case_prod_beta)
qed




end
