(* ===== verification/Api_Main.thy ===== *)
theory Api_Main
  imports Http_Auth Net_Guard Crypto Dispatcher Worker_Main
begin

text \<open>
  The API process (cmd/api/main.go): start-up from the environment to the routes of theory Http_Auth and the
  configuration of the outbox dispatcher. What the process gets from libraries is the record \<open>api_libs\<close>.
\<close>

record api_libs =
  al_floats :: float_ops
  al_resolver :: "string \<Rightarrow> go_error + string list"
  al_aead :: aead
  al_collate_labels :: "string \<Rightarrow> string"
  al_collate_emails :: "string \<Rightarrow> string"
  al_lower :: "nat \<Rightarrow> nat"
  al_hash :: "string \<Rightarrow> go_error + string"
  al_compare :: "string \<Rightarrow> string \<Rightarrow> go_error option"
  al_dummy_hash :: string
  al_jwt :: jwt_lib
  al_decode :: "string \<Rightarrow> go_error + cached_query_result \<times> decoded_cell list list"

text \<open>
  The running process: its routes, for the nonce the source of randomness yields to a request; the
  configuration of its dispatcher; and whether RabbitMQ was reached, without which it starts too.
\<close>

record api =
  api_app :: "go_error + string \<Rightarrow> app"
  api_dispatcher :: dispatcher_config
  api_rabbit :: bool
  api_address :: string

definition auth_of :: "api_libs \<Rightarrow> config \<Rightarrow> auth_service" where
  "auth_of A cfg = \<lparr>au_collate = al_collate_emails A, au_lower = al_lower A, au_hash = al_hash A, au_compare = al_compare A,
     au_dummy_hash = al_dummy_hash A, au_jwt = al_jwt A,
     au_tokens = \<lparr>jm_secret = cf_jwt_secret cfg, jm_issuer = cf_jwt_issuer cfg, jm_access_ttl = cf_jwt_access_ttl cfg\<rparr>\<rparr>"

definition api_sources :: "api_libs \<Rightarrow> cipher \<Rightarrow> net_validator \<Rightarrow> go_error + string \<Rightarrow> ds_service" where
  "api_sources A cipher guard random = \<lparr>sv_collate = al_collate_labels A, sv_encrypt = Encrypt (al_aead A) cipher random,
     sv_decrypt = Decrypt (al_aead A) cipher, sv_guard = guard\<rparr>"

text \<open>Of the dispatcher's fields, the poll interval and the confirm timeout belong to parts not modelled.\<close>

definition dispatcher_config_of :: "config \<Rightarrow> dispatcher_config" where
  "dispatcher_config_of cfg = \<lparr>dc_batch_size = nat (cf_outbox_batch_size cfg), dc_lease_ttl = cf_outbox_lease_ttl cfg,
     dc_base_backoff = cf_outbox_base_backoff cfg, dc_max_backoff = cf_outbox_max_backoff cfg,
     dc_published_retain = cf_outbox_published_retain cfg, dc_clean_batch = nat (cf_outbox_clean_batch cfg)\<rparr>"

definition api_of :: "api_libs \<Rightarrow> config \<Rightarrow> cipher \<Rightarrow> net_validator \<Rightarrow> bool \<Rightarrow> api" where
  "api_of A cfg cipher guard rabbit = \<lparr>
     api_app = (\<lambda>random. \<lparr>ap_auth = auth_of A cfg, ap_sources = api_sources A cipher guard random,
       ap_decode = decodeCachedResult (fp_parse (al_floats A)) (al_decode A)\<rparr>),
     api_dispatcher = dispatcher_config_of cfg, api_rabbit = rabbit, api_address = '':'' @ cf_api_port cfg\<rparr>"

text \<open>The clients that must open are MySQL, the reader and Redis.\<close>

definition start_api :: "api_libs \<Rightarrow> environment \<Rightarrow> (go_error + api) prog" where
  "start_api A env = or_exit (Load (al_floats A) env) (\<lambda>cfg.
     or_exit (failed (ValidateJWT cfg)) (\<lambda>u.
     or_exit (failed (ValidateDataSourceKey cfg)) (\<lambda>u. do {
       clients \<leftarrow> open_clients 3;
       or_exit clients (\<lambda>u. do {
         mq \<leftarrow> ext (\<lambda>w. (Inr (), w));
         let rabbit = (case mq of Inl e \<Rightarrow> False | Inr (u :: unit) \<Rightarrow> True);
         or_exit (NewCipher (cf_data_source_key cfg)) (\<lambda>cipher.
         or_exit (ParseAllowedPorts (cf_allowed_db_ports cfg)) (\<lambda>ports.
         or_exit (NewValidator (al_resolver A) (private_hosts cfg ports)) (\<lambda>guard.
           State_Monad.return (Inr (api_of A cfg cipher guard rabbit)))))
       })
     })))"

end
