(* ===== verification/Api_Main_Props.thy ===== *)
theory Api_Main_Props
  imports Api_Main Worker_Main_Props Datasource_Properties Accounts_Props
begin

text \<open>
  The two processes together: started from the same environment they share the key, the network policy and
  the limits, so that the worker opens what the API stored.
\<close>

lemma start_api_Inr:
  assumes "run_state (start_api A env) m = (Inr a, m')"
  shows "\<exists>cfg cipher ports guard rabbit. Load (al_floats A) env = Inr cfg \<and> ValidateJWT cfg = None \<and>
    ValidateDataSourceKey cfg = None \<and> NewCipher (cf_data_source_key cfg) = Inr cipher \<and>
    ParseAllowedPorts (cf_allowed_db_ports cfg) = Inr ports \<and>
    NewValidator (al_resolver A) (private_hosts cfg ports) = Inr guard \<and> a = api_of A cfg cipher guard rabbit"
  using assms unfolding start_api_def run_or_exit run_bind_iff Let_def
  by (auto simp: failed_def split: option.splits)

text \<open>What an opened source connects with.\<close>

lemma OpenForJob_Inr:
  assumes "OpenForJob L svc maxRows k w = Inr (db, exec)" and "source_at w k = Some row"
  shows "db = ds_database_name row \<and> (\<exists>cfg reg. sv_decrypt svc (ds_password_ciphertext row) (AAD (ds_id row)) = Inr (dc_passwd cfg) \<and>
    dc_user cfg = ds_username row \<and> dc_db_name cfg = ds_database_name row \<and>
    exec = Execute (NewExecutor (wl_upper L) (fp_parse (wl_floats L)) (wl_query L cfg (dialled reg cfg)) maxRows))"
proof -
  have "op_read (source_find_raw k) (fst (op_stmt (source_find_raw k) (w_clock w) w)) = Inr row"
    using assms(2) by (simp add: source_find_raw_def select_source_def not_found_or_def sql_first_def lookup_def)
  then obtain cfg reg where opened: "OpenDB (wl_driver L) svc row (wl_dialers L) = Some (Inr cfg, reg)"
      and parts: "db = ds_database_name row"
        "exec = Execute (NewExecutor (wl_upper L) (fp_parse (wl_floats L)) (wl_query L cfg (dialled reg cfg)) maxRows)"
    using assms(1) by (auto simp: OpenForJob_def Let_def split: option.splits sum.splits)
  have "sv_decrypt svc (ds_password_ciphertext row) (AAD (ds_id row)) = Inr (dc_passwd cfg) \<and>
      dc_user cfg = ds_username row \<and> dc_db_name cfg = ds_database_name row"
    using opened by (auto simp: OpenDB_def buildDB_def Let_def split: sum.splits if_splits list.splits option.splits)
  with parts show ?thesis by blast
qed

section \<open>Properties\<close>

text \<open>
  C11. What a user stored through the API is what the worker connects with: when both processes started from
  one environment and a data source was created - among any other processes - then an executor the worker
  opens for it asks the database of the source, as the submitted user with the submitted password, under
  the row limit both share.
\<close>

theorem worker_opens_what_the_api_stored:
  assumes "run_state (start_api A env) m1 = (Inr a, m1')" and "run_state (start_worker L env) m2 = (Inr s, m2')"
    and "wl_floats L = al_floats A" and "wl_aead L = al_aead A"
    and "\<And>key n d p. ae_open (al_aead A) key n d (ae_seal (al_aead A) key n d p) = Some p" and "length nonce = nonceSize"
    and "rely (sources_evolve (al_collate_labels A)) m" and "sources_wf (al_collate_labels A) (m_world m)" and "faults_ok fs"
    and "run_state (ds_create (ap_sources (api_app a (Inr nonce))) fs u i) m = (Inr ds, m')"
    and "wk_opener s = Some opener" and "opener (ds_id ds) (m_world m') = Inr (db, exec, reader)"
  shows "db = ci_database_name i \<and> (\<exists>cfg addr. dc_user cfg = ci_username i \<and> dc_passwd cfg = ci_password i \<and>
    dc_db_name cfg = ci_database_name i \<and>
    exec = Execute (NewExecutor (wl_upper L) (fp_parse (wl_floats L)) (wl_query L cfg addr) (wk_max_rows s)))"
proof -
  obtain cfg cipher guard rabbit where a: "Load (al_floats A) env = Inr cfg" "NewCipher (cf_data_source_key cfg) = Inr cipher"
      "a = api_of A cfg cipher guard rabbit"
    using start_api_Inr [OF assms(1)] by blast
  obtain guard' where s: "s = worker_of L cfg cipher guard'"
    using start_worker_Inr [OF assms(2)] a(1,2) by (auto simp: assms(3))
  let ?S = "api_sources A cipher guard (Inr nonce)"
  have svc: "ap_sources (api_app a (Inr nonce)) = ?S" "sv_collate ?S = al_collate_labels A"
    by (simp_all add: a(3) api_of_def api_sources_def)
  obtain c t where c: "sv_encrypt ?S (ci_password i) (AAD (ds_id ds)) = Inr c" "stored_as (new_source u i t) c (m_world m') ds"
    using ds_create_outcome [of ?S m fs u i] assms(7-10) by (auto simp: svc)
  then obtain row where row: "source_at (m_world m') (ds_id ds) = Some row" "ds_id row = ds_id ds" "ds_password_ciphertext row = c"
      "ds_username row = ci_username i" "ds_database_name row = ci_database_name i"
    by (auto simp: stored_as_def new_source_def)
  have "Encrypt (al_aead A) cipher (Inr nonce) (ci_password i) (AAD (ds_id ds)) = Inr c"
    using c(1) by (simp add: api_sources_def)
  then have "sv_decrypt (worker_sources L cipher guard') c (AAD (ds_id ds)) = Inr (ci_password i)"
    using Decrypt_Encrypt [OF _ assms(6)] assms(5) by (simp add: worker_sources_def assms(4))
  moreover have "OpenForJob L (worker_sources L cipher guard') (cf_max_query_rows cfg) (ds_id ds) (m_world m') = Inr (db, exec)"
    using assms(11,12) by (auto simp: s worker_of_def map_sum_def split: sum.splits)
  note OpenForJob_Inr [OF this row(1)]
  ultimately show ?thesis using row by (auto simp: s worker_of_def)
qed

text \<open>Both processes started from the sample environment, and a source created through the API.\<close>

definition sample_api_libs :: api_libs where
  "sample_api_libs = \<lparr>al_floats = wl_floats sample_libs, al_resolver = wl_resolver sample_libs, al_aead = plain_aead,
     al_collate_labels = (\<lambda>s. s), al_collate_emails = (\<lambda>s. s), al_lower = (\<lambda>r. r), al_hash = (\<lambda>p. Inr (CHR ''h'' # p)),
     al_compare = (\<lambda>h p. None), al_dummy_hash = ''d'', al_jwt = plain_jwt, al_decode = (\<lambda>s. Inl (NewError ''no JSON''))\<rparr>"

lemma sample_api_starts:
  "run_state (start_api sample_api_libs worker_env) (quiet empty_world) =
     (Inr (api_of sample_api_libs worker_config \<lparr>ci_key = worker_key\<rparr> sample_policy True), quiet empty_world)"
proof -
  have "ValidateJWT worker_config = None"
    by (simp add: ValidateJWT_def worker_config_def read_config_def worker_env_def)
  then show ?thesis
    by (simp add: start_api_def or_exit_def failed_def sample_api_libs_def worker_config_loads worker_config_parts sample_guard
        open_clients_quiet)
qed

lemma sample_source_opens:
  assumes "Encrypt plain_aead c (Inr nonce) ''secret'' (AAD 4) = Inr sealed" and "length nonce = nonceSize"
    and "source_at w 4 = Some ((new_source 9 sample_input t)\<lparr>ds_id := 4, ds_password_ciphertext := sealed, ds_updated_at := t'\<rparr>)"
  shows "\<exists>exec. OpenForJob sample_libs (worker_sources sample_libs c sample_policy) n 4 w = Inr (''shop'', exec)"
proof -
  let ?row = "(new_source 9 sample_input t)\<lparr>ds_id := 4, ds_password_ciphertext := sealed, ds_updated_at := t'\<rparr>"
  have "Decrypt plain_aead c sealed (AAD 4) = Inr ''secret''"
    using Decrypt_Encrypt [OF assms(1,2)] by (simp add: plain_aead_def plain_open_seal)
  moreover have "op_read (source_find_raw 4) (fst (op_stmt (source_find_raw 4) (w_clock w) w)) = Inr ?row"
    using assms(3) by (simp add: source_find_raw_def select_source_def not_found_or_def sql_first_def lookup_def)
  ultimately show ?thesis
    by (simp add: OpenForJob_def OpenDB_def worker_sources_def sample_libs_def new_source_def sample_input_def sample_validated
        buildDB_def tls_for_def TLSDisabled_def TLSVerifyFull_def Let_def)
qed

theorem worker_opens_what_the_api_stored_witness:
  "\<exists>exec cfg addr. OpenForJob sample_libs (worker_sources sample_libs \<lparr>ci_key = worker_key\<rparr> sample_policy) 100 4
       (m_world (snd (run_state (ds_create (api_sources sample_api_libs \<lparr>ci_key = worker_key\<rparr> sample_policy
          (Inr (replicate 12 CHR ''n''))) [] 9 sample_input) (quiet source_world)))) = Inr (''shop'', exec) \<and>
     exec = Execute (NewExecutor id (\<lambda>s. None) (wl_query sample_libs cfg addr) 100) \<and> dc_passwd cfg = ''secret''"
proof -
  let ?c = "\<lparr>ci_key = worker_key\<rparr>" and ?nonce = "replicate 12 CHR ''n''"
  let ?S = "api_sources sample_api_libs ?c sample_policy (Inr ?nonce)"
  let ?run = "run_state (ds_create ?S [] 9 sample_input) (quiet source_world)"
  obtain m where worker: "run_state (start_worker sample_libs worker_env) (quiet empty_world) =
      (Inr (worker_of sample_libs worker_config ?c sample_policy), m)"
    using sample_start by blast
  obtain sealed where sealed: "Encrypt plain_aead ?c (Inr ?nonce) ''secret'' (AAD 4) = Inr sealed"
    by (simp add: Encrypt_def aes_new_cipher_def worker_key_def)
  have svc: "sv_encrypt ?S ''secret'' (AAD 4) = Inr sealed" "sv_collate ?S = (\<lambda>s. s)"
    by (simp_all add: api_sources_def sample_api_libs_def sealed)
  have wf: "sources_wf ck (m_world (quiet source_world))" for ck by (simp add: quiet_def)
  have secret: "ci_password sample_input = ''secret''" by (simp add: sample_input_def)
  obtain ds m' where run: "?run = (Inr ds, m')" and id: "ds_id ds = 4"
    using svc secret by (auto simp: ds_create_def with_tx_quiet run_tx_def create_tx_def in_tx_def source_create_def
        insert_source_def source_world_def sample_source_def update_ciphertext_def update_sources_def Let_def new_source_def)
  obtain c t where c: "sv_encrypt ?S (ci_password sample_input) (AAD (ds_id ds)) = Inr c"
      "stored_as (new_source 9 sample_input t) c (m_world m') ds"
    using ds_create_outcome [OF rely_quiet wf _ run] by (auto simp: faults_ok_def)
  have "c = sealed" using c(1) svc(1) by (simp add: id sample_input_def)
  then obtain t' where row: "source_at (m_world m') 4 =
      Some ((new_source 9 sample_input t)\<lparr>ds_id := 4, ds_password_ciphertext := sealed, ds_updated_at := t'\<rparr>)"
    using c(2) id by (auto simp: stored_as_def)
  obtain exec where opened: "OpenForJob sample_libs (worker_sources sample_libs ?c sample_policy) 100 4 (m_world m') = Inr (''shop'', exec)"
    using sample_source_opens [OF sealed _ row] by (auto simp: nonceSize_def)
  have parts: "ap_sources (api_app (api_of sample_api_libs worker_config ?c sample_policy True) (Inr ?nonce)) = ?S"
      "wk_max_rows (worker_of sample_libs worker_config ?c sample_policy) = 100"
    by (simp_all add: api_of_def worker_of_def worker_config_def read_config_def getIntEnv_def read_or_def worker_env_def)
  have aead: "ae_open (al_aead sample_api_libs) key n d (ae_seal (al_aead sample_api_libs) key n d p) = Some p" for key n d p
    by (simp add: sample_api_libs_def plain_aead_def plain_open_seal)
  have opener: "wk_opener (worker_of sample_libs worker_config ?c sample_policy) =
      Some (\<lambda>k w. map_sum id (\<lambda>(db, exec). (db, exec, wl_opened_schema sample_libs k))
        (OpenForJob sample_libs (worker_sources sample_libs ?c sample_policy) 100 k w))"
    using parts(2) by (simp add: worker_of_def)
  have libs: "wl_floats sample_libs = al_floats sample_api_libs" "wl_aead sample_libs = al_aead sample_api_libs"
    by (simp_all add: sample_api_libs_def sample_libs_def)
  have "faults_ok []" "length ?nonce = nonceSize" by (simp_all add: faults_ok_def nonceSize_def)
  moreover have "map_sum id (\<lambda>(db, exec). (db, exec, wl_opened_schema sample_libs (ds_id ds)))
      (OpenForJob sample_libs (worker_sources sample_libs ?c sample_policy) 100 (ds_id ds) (m_world m')) = Inr (''shop'', exec, None)"
    by (simp add: id opened) (simp add: sample_libs_def)
  ultimately obtain cfg addr where "dc_passwd cfg = ci_password sample_input"
      "exec = Execute (NewExecutor (wl_upper sample_libs) (fp_parse (wl_floats sample_libs)) (wl_query sample_libs cfg addr) 100)"
    using worker_opens_what_the_api_stored [OF sample_api_starts worker libs aead _ rely_quiet wf _ _ opener, of ?nonce "[]" 9
        sample_input ds m' "''shop''" exec None] run
    unfolding parts by blast
  then show ?thesis
    using opened run secret by (intro exI [of _ exec] exI [of _ cfg] exI [of _ addr]) (simp add: sample_libs_def)
qed

end
