(* ===== verification/Datasource_Catalogue.thy ===== *)
theory Datasource_Catalogue
  imports Datasource_Properties
begin

text \<open>
  An abstract specification of the data source component, a catalogue of entries by id with their owner,
  whether they are live, and the password in clear, and the proof that undisturbed requests refine it.
\<close>

section \<open>The catalogue\<close>

record entry =
  en_owner :: nat
  en_live :: bool
  en_label :: string
  en_host :: string
  en_port :: nat
  en_database :: string
  en_username :: string
  en_password :: "string option"
  en_tls_mode :: string
  en_timeout :: nat

type_synonym catalogue = "nat \<rightharpoonup> entry"

definition owned :: "catalogue \<Rightarrow> nat \<Rightarrow> nat \<Rightarrow> entry option" where
  "owned c k u = (case c k of None \<Rightarrow> None | Some e \<Rightarrow> (if en_owner e = u \<and> en_live e then Some e else None))"

text \<open>A label is taken by another entry of the user, live or not.\<close>

definition taken :: "(string \<Rightarrow> string) \<Rightarrow> catalogue \<Rightarrow> nat \<Rightarrow> (nat \<Rightarrow> bool) \<Rightarrow> string \<Rightarrow> bool" where
  "taken ck c u others label = (\<exists>k e. c k = Some e \<and> others k \<and> en_owner e = u \<and> ck (en_label e) = ck label)"

definition new_entry :: "nat \<Rightarrow> create_input \<Rightarrow> entry" where
  "new_entry u i = \<lparr>en_owner = u, en_live = True, en_label = ci_label i, en_host = ci_host i, en_port = ci_port i,
     en_database = ci_database_name i, en_username = ci_username i, en_password = Some (ci_password i),
     en_tls_mode = ci_tls_mode i, en_timeout = (if ci_connect_timeout_sec i = 0 then 5 else ci_connect_timeout_sec i)\<rparr>"

definition changed_entry :: "update_input \<Rightarrow> entry \<Rightarrow> entry" where
  "changed_entry i e = e\<lparr>en_label := set_if (ui_label i) (en_label e), en_host := set_if (ui_host i) (en_host e),
     en_port := set_if (ui_port i) (en_port e), en_database := set_if (ui_database_name i) (en_database e),
     en_username := set_if (ui_username i) (en_username e),
     en_password := (case ui_password i of None \<Rightarrow> en_password e | Some p \<Rightarrow> Some p),
     en_tls_mode := set_if (ui_tls_mode i) (en_tls_mode e), en_timeout := set_if (ui_connect_timeout_sec i) (en_timeout e)\<rparr>"

text \<open>
  One request: its error, the next free id and the catalogue after it. \<open>busy\<close> are the sources that jobs
  protect from deletion.
\<close>

fun spec_step :: "(string \<Rightarrow> string) \<Rightarrow> nat set \<Rightarrow> ds_request \<Rightarrow> nat \<times> catalogue \<Rightarrow> go_error option \<times> nat \<times> catalogue" where
  "spec_step ck busy (ReqCreate u i) (n, c) = (case validateCreateInput i of
       Some e \<Rightarrow> (Some e, n, c)
     | None \<Rightarrow> (if taken ck c u (\<lambda>_. True) (ci_label i) then (Some errDuplicateLabel, n, c)
         else (None, Suc n, c(n \<mapsto> new_entry u i))))"
| "spec_step ck busy (ReqUpdate k u i) (n, c) = (case validateUpdateInput i of
       Some e \<Rightarrow> (Some e, n, c)
     | None \<Rightarrow> (case owned c k u of
           None \<Rightarrow> (Some errNotFound, n, c)
         | Some e \<Rightarrow> (if taken ck c u (\<lambda>k'. k' \<noteq> k) (set_if (ui_label i) (en_label e)) then (Some errDuplicateLabel, n, c)
             else (None, n, c(k \<mapsto> changed_entry i e)))))"
| "spec_step ck busy (ReqDelete k u) (n, c) = (case owned c k u of
       None \<Rightarrow> (Some errNotFound, n, c)
     | Some e \<Rightarrow> (if k \<in> busy then (Some errHasActiveJobs, n, c) else (None, n, c(k \<mapsto> e\<lparr>en_live := False\<rparr>))))"

fun spec_run :: "(string \<Rightarrow> string) \<Rightarrow> nat set \<Rightarrow> ds_request list \<Rightarrow> nat \<times> catalogue \<Rightarrow> go_error option list \<times> nat \<times> catalogue" where
  "spec_run ck busy [] st = ([], st)"
| "spec_run ck busy (q # qs) st = (let (r, st') = spec_step ck busy q st; (rs, st'') = spec_run ck busy qs st' in (r # rs, st''))"

section \<open>Undisturbed requests\<close>

fun answer :: "ds_service \<Rightarrow> ds_request \<Rightarrow> go_error option prog" where
  "answer s (ReqCreate u i) = do { r \<leftarrow> ds_create s [] u i; State_Monad.return (case r of Inl e \<Rightarrow> Some e | Inr x \<Rightarrow> None) }"
| "answer s (ReqUpdate k u i) = do { r \<leftarrow> ds_update s [] k u i; State_Monad.return (case r of Inl e \<Rightarrow> Some e | Inr x \<Rightarrow> None) }"
| "answer s (ReqDelete k u) = ds_delete [] k u"

text \<open>Requests one after the other, each some time after the one before.\<close>

fun answers :: "ds_service \<Rightarrow> (nat \<times> ds_request) list \<Rightarrow> world \<Rightarrow> go_error option list \<times> world" where
  "answers s [] w = ([], w)"
| "answers s ((d, q) # qs) w = (let (r, m) = run_state (answer s q) (quiet (tick (Suc d) w)); (rs, w') = answers s qs (m_world m)
     in (r # rs, w'))"

section \<open>The abstraction\<close>

definition entry_of :: "ds_service \<Rightarrow> data_source \<Rightarrow> entry" where
  "entry_of s r = \<lparr>en_owner = ds_user_id r, en_live = (ds_deleted_at r = None), en_label = ds_label r, en_host = ds_host r,
     en_port = ds_port r, en_database = ds_database_name r, en_username = ds_username r,
     en_password = (case sv_decrypt s (ds_password_ciphertext r) (AAD (ds_id r)) of Inl e \<Rightarrow> None | Inr p \<Rightarrow> Some p),
     en_tls_mode = ds_tls_mode r, en_timeout = ds_connect_timeout_sec r\<rparr>"

definition catalogue_of :: "ds_service \<Rightarrow> world \<Rightarrow> catalogue" where
  "catalogue_of s w k = map_option (entry_of s) (source_at w k)"

definition abstract :: "ds_service \<Rightarrow> world \<Rightarrow> nat \<times> catalogue" where
  "abstract s w = (w_next_source_id w, catalogue_of s w)"

definition busy_sources :: "world \<Rightarrow> nat set" where
  "busy_sources w = {k. \<exists>j \<in> set (w_jobs w). protects k j}"

text \<open>Encryption that works, and a table whose rows were written before now.\<close>

definition encrypts :: "ds_service \<Rightarrow> bool" where
  "encrypts s = (\<forall>p a. \<exists>c. sv_encrypt s p a = Inr c \<and> sv_decrypt s c a = Inr p)"

definition settled :: "(string \<Rightarrow> string) \<Rightarrow> world \<Rightarrow> bool" where
  "settled ck w = (sources_wf ck w \<and> (\<forall>r \<in> set (w_sources w). ds_updated_at r \<le> w_clock w))"

lemma entry_of_simps [simp]:
  "en_owner (entry_of s r) = ds_user_id r" "en_live (entry_of s r) = (ds_deleted_at r = None)" "en_label (entry_of s r) = ds_label r"
  by (simp_all add: entry_of_def)

lemma source_at_mem: "sources_wf ck w \<Longrightarrow> r \<in> set (w_sources w) \<Longrightarrow> source_at w (ds_id r) = Some r"
  by (simp add: sources_wf_def lookup_distinct)

lemma taken_catalogue:
  assumes "sources_wf ck w"
  shows "taken ck' (catalogue_of s w) u others label \<longleftrightarrow>
    (\<exists>r \<in> set (w_sources w). others (ds_id r) \<and> ds_user_id r = u \<and> ck' (ds_label r) = ck' label)"
proof
  assume "taken ck' (catalogue_of s w) u others label"
  then obtain k r where "source_at w k = Some r" "others k" "ds_user_id r = u" "ck' (ds_label r) = ck' label"
    by (auto simp: taken_def catalogue_of_def)
  with lookup_key [of ds_id k "w_sources w" r]
  show "\<exists>r \<in> set (w_sources w). others (ds_id r) \<and> ds_user_id r = u \<and> ck' (ds_label r) = ck' label" by auto
next
  assume "\<exists>r \<in> set (w_sources w). others (ds_id r) \<and> ds_user_id r = u \<and> ck' (ds_label r) = ck' label"
  then obtain r where "r \<in> set (w_sources w)" "others (ds_id r)" "ds_user_id r = u" "ck' (ds_label r) = ck' label" by blast
  with source_at_mem [OF assms, of r] show "taken ck' (catalogue_of s w) u others label"
    unfolding taken_def catalogue_of_def by (intro exI [of _ "ds_id r"] exI [of _ "entry_of s r"]) auto
qed

lemma first_live:
  assumes "sources_wf ck w"
  shows "sql_first (live_source k u) (w_sources w) = (case source_at w k of
     None \<Rightarrow> None | Some r \<Rightarrow> (if ds_user_id r = u \<and> ds_deleted_at r = None then Some r else None))"
proof -
  have "distinct (map ds_id rows) \<Longrightarrow> find (live_source k u) rows = (case lookup ds_id k rows of
     None \<Rightarrow> None | Some r \<Rightarrow> (if ds_user_id r = u \<and> ds_deleted_at r = None then Some r else None))" for rows
  proof (induction rows)
    case (Cons a rows)
    show ?case
    proof (cases "ds_id a = k")
      case True
      then have "lookup ds_id k rows = None" using Cons.prems by (auto simp: lookup_None_iff)
      then show ?thesis using Cons True by (auto simp: live_source_def)
    qed (use Cons in \<open>auto simp: live_source_def\<close>)
  qed simp
  then show ?thesis using assms by (simp add: sql_first_def sources_wf_def)
qed

lemma owned_catalogue:
  assumes "sources_wf ck w"
  shows "owned (catalogue_of s w) k u = map_option (entry_of s) (sql_first (live_source k u) (w_sources w))"
  by (auto simp: first_live [OF assms] owned_def catalogue_of_def split: option.split)

lemma catalogue_update:
  assumes "\<And>r. ds_id (f r) = ds_id r"
  shows "catalogue_of s (w\<lparr>w_sources := sql_update P f (w_sources w)\<rparr>) k =
    map_option (\<lambda>r. entry_of s (if P r then f r else r)) (source_at w k)"
  using assms by (simp add: catalogue_of_def lookup_update option.map_comp o_def)

text \<open>An update of one live row.\<close>

lemma catalogue_update_live:
  assumes "sources_wf ck w" and "sql_first (live_source k u) (w_sources w) = Some r" and "\<And>r. ds_id (f r) = ds_id r"
  shows "catalogue_of s (w\<lparr>w_sources := sql_update (live_source k u) f (w_sources w)\<rparr>) =
    (catalogue_of s w)(k \<mapsto> entry_of s (f r))"
proof
  fix k'
  have row: "source_at w k = Some r" "live_source k u r"
    using assms(2) first_live [OF assms(1), of k u] by (auto simp: live_source_def split: option.splits if_splits dest: lookup_key)
  show "catalogue_of s (w\<lparr>w_sources := sql_update (live_source k u) f (w_sources w)\<rparr>) k' =
      ((catalogue_of s w)(k \<mapsto> entry_of s (f r))) k'"
    using row unfolding catalogue_update [OF assms(3)] fun_upd_def
    by (cases "source_at w k'") (auto simp: catalogue_of_def live_source_def dest: lookup_key)
qed

declare quiet_inject [simp]

section \<open>Each request refines its specification\<close>

text \<open>What a run on an undisturbed machine must be: the answer and the abstraction of the state after it.\<close>

definition refines :: "ds_service \<Rightarrow> world \<Rightarrow> go_error option \<times> machine \<Rightarrow> go_error option \<times> nat \<times> catalogue \<Rightarrow> bool" where
  "refines s w run spec = (\<exists>w'. run = (fst spec, quiet w') \<and> abstract s w' = snd spec \<and> settled (sv_collate s) w' \<and>
     w_clock w' = w_clock w \<and> w_jobs w' = w_jobs w)"

definition clock_fresh :: "world \<Rightarrow> bool" where
  "clock_fresh w = (\<forall>r \<in> set (w_sources w). ds_updated_at r < w_clock w)"

lemma delete_refines:
  assumes "settled (sv_collate s) w"
  shows "refines s w (run_state (answer s (ReqDelete k u)) (quiet w))
    (spec_step (sv_collate s) (busy_sources w) (ReqDelete k u) (abstract s w))"
proof -
  have wf: "sources_wf (sv_collate s) w" using assms by (simp add: settled_def)
  show ?thesis
  proof (cases "sql_first (live_source k u) (w_sources w)")
    case None
    then show ?thesis
      using assms by (simp add: refines_def ds_delete_quiet owned_catalogue [OF wf] abstract_def)
  next
    case (Some r)
    let ?w = "w\<lparr>w_sources := sql_update (live_source k u) (deleted_at (w_clock w)) (w_sources w)\<rparr>"
    have busy: "k \<in> busy_sources w \<longleftrightarrow> (\<exists>j \<in> set (w_jobs w). protects k j)" by (simp add: busy_sources_def)
    have entry: "entry_of s (deleted_at (w_clock w) r) = entry_of s r\<lparr>en_live := False\<rparr>"
      by (simp add: entry_of_def deleted_at_def)
    have "catalogue_of s ?w = (catalogue_of s w)(k \<mapsto> entry_of s r\<lparr>en_live := False\<rparr>)"
      using catalogue_update_live [OF wf Some, of "deleted_at (w_clock w)" s] by (simp add: deleted_at_def entry [symmetric])
    moreover have "settled (sv_collate s) ?w"
      using assms by (auto simp: settled_def in_sql_update deleted_at_def sources_wf_def keys_update label_key_def
          split: if_splits)
    ultimately show ?thesis
      using assms busy by (auto simp: refines_def ds_delete_quiet Some owned_catalogue [OF wf] abstract_def)
  qed
qed

lemma update_last:
  assumes "\<forall>r \<in> set rows. ds_id r < n" and "ds_id row = n"
  shows "sql_update (\<lambda>r. ds_id r = n) g (rows @ [row]) = rows @ [g row]"
  using assms by (induction rows) (auto simp: sql_update_def)

lemma create_refines:
  assumes st: "settled (sv_collate s) w" and enc: "encrypts s"
  shows "refines s w (run_state (answer s (ReqCreate u i)) (quiet w))
    (spec_step (sv_collate s) (busy_sources w) (ReqCreate u i) (abstract s w))"
proof (cases "validateCreateInput i")
  case (Some e)
  then show ?thesis using st by (simp add: refines_def ds_create_def abstract_def)
next
  case None
  let ?ck = "sv_collate s" and ?n = "w_next_source_id w" and ?new = "new_source u i (w_clock w)"
  have wf: "sources_wf ?ck w" using st by (simp add: settled_def)
  have label: "taken ?ck (catalogue_of s w) u (\<lambda>_. True) (ci_label i) \<longleftrightarrow>
      list_ex (\<lambda>r. ds_user_id r = ds_user_id ?new \<and> ?ck (ds_label r) = ?ck (ds_label ?new)) (w_sources w)"
    by (auto simp: taken_catalogue [OF wf] list_ex_iff new_source_def)
  show ?thesis
  proof (cases "taken ?ck (catalogue_of s w) u (\<lambda>_. True) (ci_label i)")
    case True
    with label have "run_state (ds_create s [] u i) (quiet w) = (Inl errDuplicateLabel, quiet w)"
      by (simp add: ds_create_def None with_tx_quiet run_tx_def create_tx_def in_tx_def source_create_def insert_source_def
          duplicate_entry_def)
    then show ?thesis using st None True by (simp add: refines_def abstract_def)
  next
    case False
    obtain c where c: "sv_encrypt s (ci_password i) (AAD ?n) = Inr c" "sv_decrypt s c (AAD ?n) = Inr (ci_password i)"
      using enc by (auto simp: encrypts_def)
    let ?row = "?new\<lparr>ds_id := ?n, ds_password_ciphertext := c, ds_updated_at := w_clock w\<rparr>"
    let ?w = "w\<lparr>w_sources := w_sources w @ [?row], w_next_source_id := Suc ?n\<rparr>"
    have ids: "\<forall>r \<in> set (w_sources w). ds_id r < ?n" using wf by (simp add: sources_wf_def)
    have run: "run_state (ds_create s [] u i) (quiet w) = (Inr (?new\<lparr>ds_id := ?n, ds_password_ciphertext := c\<rparr>), quiet ?w)"
      using False label c(1) update_last [OF ids, of "?new\<lparr>ds_id := ?n\<rparr>"]
      by (simp add: ds_create_def None with_tx_quiet run_tx_def create_tx_def in_tx_def source_create_def insert_source_def
          update_ciphertext_def update_sources_def Let_def)
    have "source_at w ?n = None" using ids by (auto simp: lookup_None_iff)
    then have "catalogue_of s ?w = (catalogue_of s w)(?n \<mapsto> new_entry u i)"
      using c(2) by (auto simp: fun_eq_iff catalogue_of_def entry_of_def new_entry_def new_source_def defaultConnectTimeoutSec_def
          split: option.split)
    moreover have "settled ?ck ?w"
      using st ids False by (auto simp: settled_def sources_wf_def label_key_def taken_catalogue [OF wf] less_Suc_eq new_source_def)
    ultimately show ?thesis
      using run None False by (auto simp: refines_def abstract_def)
  qed
qed

text \<open>The statement both forms of an update end with.\<close>

definition update_row :: "ds_service \<Rightarrow> update_input \<Rightarrow> string option \<Rightarrow> instant \<Rightarrow> data_source \<Rightarrow> data_source" where
  "update_row s i c t = apply_patch t ((patch_of i)\<lparr>up_password_cipher := c\<rparr>)"

lemma update_row_id [simp]: "ds_id (update_row s i c t r) = ds_id r"
  by (simp add: update_row_def apply_patch_def)

lemma update_statement:
  assumes wf: "sources_wf ck w" and "clock_fresh w" and row: "sql_first (live_source k u) (w_sources w) = Some r"
  shows "op_stmt (source_update ck k u ((patch_of i)\<lparr>up_password_cipher := c\<rparr>)) (w_clock w) w =
    (if taken ck (catalogue_of s w) u (\<lambda>k'. k' \<noteq> k) (set_if (ui_label i) (ds_label r)) then (Inl duplicate_entry, w)
     else (Inr (sql_affected (live_source k u) (update_row s i c (w_clock w)) (w_sources w)),
       w\<lparr>w_sources := sql_update (live_source k u) (update_row s i c (w_clock w)) (w_sources w)\<rparr>)) \<and>
   sql_affected (live_source k u) (update_row s i c (w_clock w)) (w_sources w) \<noteq> 0"
proof -
  have r: "r \<in> set (w_sources w)" "live_source k u r"
    using row by (auto simp: sql_first_def find_Some_iff)
  have only: "r' = r" if "r' \<in> set (w_sources w)" "live_source k u r'" for r'
    using source_at_mem [OF wf r(1)] source_at_mem [OF wf that(1)] r(2) that(2) by (simp add: live_source_def)
  have user: "ds_id r = k" "ds_user_id r = u" using r(2) by (simp_all add: live_source_def)
  have label: "ds_label (update_row s i c (w_clock w) r) = set_if (ui_label i) (ds_label r)"
    by (simp add: update_row_def apply_patch_def patch_of_def)
  have "label_taken ck (live_source k u) f (w_sources w) \<longleftrightarrow>
      (\<exists>r' \<in> set (w_sources w). ds_id r' \<noteq> k \<and> ds_user_id r' = u \<and> ck (ds_label r') = ck (ds_label (f r)))" for f
  proof -
    have "label_taken ck (live_source k u) f (w_sources w) \<longleftrightarrow>
        (\<exists>r' \<in> set (w_sources w). ds_id r' \<noteq> ds_id r \<and> ds_user_id r' = ds_user_id r \<and> ck (ds_label r') = ck (ds_label (f r)))"
      unfolding label_taken_def list_ex_iff using r by (metis only)
    then show ?thesis by (simp add: user)
  qed
  then have "label_taken ck (live_source k u) (update_row s i c (w_clock w)) (w_sources w) \<longleftrightarrow>
      taken ck (catalogue_of s w) u (\<lambda>k'. k' \<noteq> k) (set_if (ui_label i) (ds_label r))"
    by (simp only: taken_catalogue [OF wf] label)
  moreover have "update_row s i c (w_clock w) r \<noteq> r"
  proof
    assume "update_row s i c (w_clock w) r = r"
    moreover have "ds_updated_at (update_row s i c (w_clock w) r) = w_clock w" by (simp add: update_row_def apply_patch_def)
    ultimately have "ds_updated_at r = w_clock w" by simp
    then show False using assms(2) r(1) by (auto simp: clock_fresh_def)
  qed
  then have "sql_affected (live_source k u) (update_row s i c (w_clock w)) (w_sources w) \<noteq> 0"
    using r by (auto simp: sql_affected_def filter_empty_conv)
  ultimately show ?thesis
    by (simp add: source_update_def update_unique_def update_sources_def update_row_def)
qed

text \<open>After it the row is found again, and is the changed entry.\<close>

lemma live_kept: "live_source k u r \<Longrightarrow> live_source k u (update_row s i c t r)"
  by (simp add: live_source_def update_row_def apply_patch_def)

lemma update_found:
  "sql_first (live_source k u) rows = Some r \<Longrightarrow>
     sql_first (live_source k u) (sql_update (live_source k u) (update_row s i c t) rows) = Some (update_row s i c t r)"
  by (induction rows) (auto simp: sql_first_def sql_update_def live_kept split: if_splits)

lemma changed_row:
  assumes "ui_password i = None \<and> c = None \<or>
    (\<exists>p c'. ui_password i = Some p \<and> c = Some c' \<and> sv_decrypt s c' (AAD (ds_id r)) = Inr p)"
  shows "entry_of s (update_row s i c t r) = changed_entry i (entry_of s r)"
  using assms by (auto simp: entry_of_def update_row_def apply_patch_def changed_entry_def patch_of_def set_if_def)

lemma update_settled:
  assumes "settled ck w" and "\<not> label_taken ck (live_source k u) (update_row s i c (w_clock w)) (w_sources w)"
  shows "settled ck (w\<lparr>w_sources := sql_update (live_source k u) (update_row s i c (w_clock w)) (w_sources w)\<rparr>)"
proof -
  have "keeps_identity (live_source k u) (update_row s i c (w_clock w))"
    by (auto simp: keeps_identity_def update_row_def apply_patch_def source_row_evolves_def live_source_def)
  from update_unique_evolves [OF this, of ck w] assms
  have "sources_wf ck (w\<lparr>w_sources := sql_update (live_source k u) (update_row s i c (w_clock w)) (w_sources w)\<rparr>)"
    by (simp add: sources_evolve_def update_unique_def update_sources_def settled_def)
  with assms(1) show ?thesis
    by (auto simp: settled_def in_sql_update update_row_def apply_patch_def)
qed

lemma answer_update:
  "run_state (answer s (ReqUpdate k u i)) (quiet w) =
     (case run_state (ds_update s [] k u i) (quiet w) of (r, m) \<Rightarrow> (case r of Inl e \<Rightarrow> Some e | Inr x \<Rightarrow> None, m))"
  by (simp add: case_prod_beta)

text \<open>An update of a live row, by its statement.\<close>

definition update_outcome :: "ds_service \<Rightarrow> world \<Rightarrow> nat \<Rightarrow> nat \<Rightarrow> update_input \<Rightarrow> data_source \<Rightarrow> string option \<Rightarrow> (go_error + data_source) \<times> machine" where
  "update_outcome s w k u i r c =
     (if taken (sv_collate s) (catalogue_of s w) u (\<lambda>k'. k' \<noteq> k) (set_if (ui_label i) (ds_label r)) then (Inl errDuplicateLabel, quiet w)
      else (Inr (update_row s i c (w_clock w) r),
        quiet (w\<lparr>w_sources := sql_update (live_source k u) (update_row s i c (w_clock w)) (w_sources w)\<rparr>)))"

lemma update_plain_quiet:
  assumes wf: "sources_wf (sv_collate s) w" and fresh: "clock_fresh w" and row: "sql_first (live_source k u) (w_sources w) = Some r"
    and "validateUpdateInput i = None" and "ui_password i = None"
  shows "run_state (ds_update s [] k u i) (quiet w) = update_outcome s w k u i r None"
proof -
  have patch: "(patch_of i)\<lparr>up_password_cipher := None\<rparr> = patch_of i" by (simp add: patch_of_def)
  note stmt = update_statement [OF wf fresh row, where i = i and c = None and s = s, unfolded patch]
  show ?thesis
    using stmt assms(4,5) update_found [OF row, of s i None "w_clock w"]
    by (auto simp: update_outcome_def ds_update_def on_pool_quiet source_update_def source_find_def select_source_def
        not_found_or_def duplicate_entry_def split: if_splits)
qed

lemma update_password_quiet:
  assumes wf: "sources_wf (sv_collate s) w" and fresh: "clock_fresh w" and row: "sql_first (live_source k u) (w_sources w) = Some r"
    and "validateUpdateInput i = None" and "ui_password i = Some p" and "sv_encrypt s p (AAD (ds_id r)) = Inr c"
  shows "run_state (ds_update s [] k u i) (quiet w) = update_outcome s w k u i r (Some c)"
  using update_statement [OF wf fresh row, where i = i and c = "Some c" and s = s] assms(4-6) row update_found [OF row, of s i "Some c" "w_clock w"]
  by (auto simp: update_outcome_def ds_update_def with_tx_quiet run_tx_def replace_password_tx_def in_tx_def on_pool_quiet
      source_update_def source_find_def select_source_def not_found_or_def duplicate_entry_def split: if_splits)

lemma update_missing_quiet:
  assumes "sql_first (live_source k u) (w_sources w) = None" and "validateUpdateInput i = None"
  shows "run_state (ds_update s [] k u i) (quiet w) = (Inl errNotFound, quiet w)"
proof -
  have "\<not> live_source k u r" if "r \<in> set (w_sources w)" for r
    using assms(1) that by (simp add: sql_first_def find_None_iff)
  then have "sql_affected (live_source k u) f (w_sources w) = 0" "\<not> label_taken ck (live_source k u) f (w_sources w)" for f ck
    by (auto simp: sql_affected_def filter_empty_conv label_taken_def list_ex_iff)
  then show ?thesis
    using assms
    by (cases "ui_password i") (simp_all add: ds_update_def with_tx_quiet run_tx_def replace_password_tx_def in_tx_def on_pool_quiet
        source_update_def source_find_def select_source_def not_found_or_def update_unique_def update_sources_def update_not_affected)
qed

lemma update_outcome_refines:
  assumes st: "settled (sv_collate s) w" and fresh: "clock_fresh w" and row: "sql_first (live_source k u) (w_sources w) = Some r"
    and valid: "validateUpdateInput i = None"
    and run: "run_state (ds_update s [] k u i) (quiet w) = update_outcome s w k u i r c"
    and c: "ui_password i = None \<and> c = None \<or>
      (\<exists>p c'. ui_password i = Some p \<and> c = Some c' \<and> sv_decrypt s c' (AAD (ds_id r)) = Inr p)"
  shows "refines s w (run_state (answer s (ReqUpdate k u i)) (quiet w))
    (spec_step (sv_collate s) (busy_sources w) (ReqUpdate k u i) (abstract s w))"
proof -
  let ?ck = "sv_collate s" and ?row = "update_row s i c (w_clock w)"
  let ?w = "w\<lparr>w_sources := sql_update (live_source k u) ?row (w_sources w)\<rparr>"
  have wf: "sources_wf ?ck w" using st by (simp add: settled_def)
  show ?thesis
  proof (cases "taken ?ck (catalogue_of s w) u (\<lambda>k'. k' \<noteq> k) (set_if (ui_label i) (ds_label r))")
    case True
    then show ?thesis
      using st by (simp add: answer_update run update_outcome_def refines_def owned_catalogue [OF wf] row valid abstract_def del: answer.simps)
  next
    case False
    have free: "\<not> label_taken ?ck (live_source k u) ?row (w_sources w)"
      using update_statement [OF wf fresh row, where i = i and c = c and s = s] False
      by (auto simp: source_update_def update_unique_def update_row_def update_sources_def split: if_splits)
    have "catalogue_of s ?w = (catalogue_of s w)(k \<mapsto> changed_entry i (entry_of s r))"
      using catalogue_update_live [OF wf row, of ?row s] changed_row [OF c] by simp
    then show ?thesis
      using False update_settled [OF st free]
      by (simp add: answer_update run update_outcome_def refines_def owned_catalogue [OF wf] row valid abstract_def del: answer.simps)
  qed
qed

lemma update_refines:
  assumes st: "settled (sv_collate s) w" and fresh: "clock_fresh w" and enc: "encrypts s"
  shows "refines s w (run_state (answer s (ReqUpdate k u i)) (quiet w))
    (spec_step (sv_collate s) (busy_sources w) (ReqUpdate k u i) (abstract s w))"
proof (cases "validateUpdateInput i")
  case (Some e)
  then show ?thesis using st by (simp add: refines_def ds_update_def abstract_def)
next
  case valid: None
  have wf: "sources_wf (sv_collate s) w" using st by (simp add: settled_def)
  show ?thesis
  proof (cases "sql_first (live_source k u) (w_sources w)")
    case None
    then show ?thesis
      using st by (simp add: answer_update update_missing_quiet [OF None valid] refines_def owned_catalogue [OF wf] valid abstract_def
          del: answer.simps)
  next
    case (Some r)
    show ?thesis
    proof (cases "ui_password i")
      case None
      then show ?thesis
        by (intro update_outcome_refines [OF st fresh Some valid update_plain_quiet [OF wf fresh Some valid None]]) simp
    next
      case (Some p)
      obtain c where c: "sv_encrypt s p (AAD (ds_id r)) = Inr c" "sv_decrypt s c (AAD (ds_id r)) = Inr p"
        using enc by (auto simp: encrypts_def)
      note row = \<open>sql_first (live_source k u) (w_sources w) = Some r\<close>
      show ?thesis
        using Some c(2)
        by (intro update_outcome_refines [OF st fresh row valid update_password_quiet [OF wf fresh row valid Some c(1)]]) simp
    qed
  qed
qed

lemma answer_refines:
  assumes "settled (sv_collate s) w" and "clock_fresh w" and "encrypts s"
  shows "refines s w (run_state (answer s q) (quiet w)) (spec_step (sv_collate s) (busy_sources w) q (abstract s w))"
  using create_refines update_refines delete_refines assms by (cases q) blast+

lemma later_fresh: "settled ck w \<Longrightarrow> settled ck (tick (Suc d) w) \<and> clock_fresh (tick (Suc d) w)"
  by (force simp: settled_def clock_fresh_def tick_def sources_wf_def)

section \<open>Properties\<close>

text \<open>
  C10. The data source component refines the catalogue: requests that are not disturbed, each some time
  after the one before, answer exactly as the specification does - which user owns which entry, which
  labels are taken, which sources are busy - and the table they leave abstracts to the specification's
  catalogue, in which every stored password decrypts to the one submitted; and a read afterwards gives the
  entry the specification has.
\<close>

theorem sources_refine_the_catalogue:
  assumes "settled (sv_collate s) w" and "encrypts s" and "answers s qs w = (rs, w')"
  shows "spec_run (sv_collate s) (busy_sources w) (map snd qs) (abstract s w) = (rs, abstract s w') \<and>
    (\<forall>k u. (case fst (run_state (ds_get k u) (quiet w')) of
       Inl e \<Rightarrow> e = errNotFound \<and> owned (catalogue_of s w') k u = None
     | Inr r \<Rightarrow> owned (catalogue_of s w') k u = Some (entry_of s r)))"
proof -
  have "spec_run (sv_collate s) (busy_sources w) (map snd qs) (abstract s w) = (rs, abstract s w') \<and> settled (sv_collate s) w'"
    using assms(1,3)
  proof (induction qs arbitrary: w rs)
    case Nil
    then show ?case by simp
  next
    case (Cons dq qs)
    obtain d q where dq: "dq = (d, q)" by fastforce
    let ?w = "tick (Suc d) w"
    have same: "abstract s ?w = abstract s w" "busy_sources ?w = busy_sources w"
      by (simp_all add: abstract_def fun_eq_iff catalogue_of_def tick_def busy_sources_def)
    obtain w1 where step: "run_state (answer s q) (quiet ?w) =
          (fst (spec_step (sv_collate s) (busy_sources w) q (abstract s w)), quiet w1)"
        "abstract s w1 = snd (spec_step (sv_collate s) (busy_sources w) q (abstract s w))" "settled (sv_collate s) w1"
        "w_jobs w1 = w_jobs w"
      using answer_refines [of s ?w q] later_fresh [OF Cons.prems(1), of d] assms(2)
      unfolding refines_def same by (auto simp: tick_def)
    obtain rs' where rest: "answers s qs w1 = (rs', w')" "rs = fst (spec_step (sv_collate s) (busy_sources w) q (abstract s w)) # rs'"
      using Cons.prems(2) step(1) by (auto simp: dq quiet_def split: prod.splits)
    have "busy_sources w1 = busy_sources w" using step(4) by (simp add: busy_sources_def)
    with Cons.IH [OF step(3) rest(1)] step(2) rest(2) show ?case
      by (simp add: dq case_prod_beta)
  qed
  then show ?thesis
    by (auto simp: ds_get_def on_pool_quiet source_find_def select_source_def not_found_or_def owned_catalogue settled_def
        split: option.splits sum.splits)
qed

text \<open>User 9 creates a source, user 8 fails to delete the one of user 7, who then deletes it.\<close>

definition later_world :: world where
  "later_world = source_world\<lparr>w_clock := 5\<rparr>"

definition sample_requests :: "(nat \<times> ds_request) list" where
  "sample_requests = [(0, ReqCreate 9 sample_input), (3, ReqDelete 3 8), (1, ReqDelete 3 7)]"

theorem sources_refine_the_catalogue_witness:
  "fst (answers plain_service sample_requests later_world) = [None, Some errNotFound, None] \<and>
   owned (catalogue_of plain_service (snd (answers plain_service sample_requests later_world))) 4 9 = Some (new_entry 9 sample_input)"
proof -
  obtain rs w' where run: "answers plain_service sample_requests later_world = (rs, w')" by (metis surj_pair)
  have plain: "sv_collate plain_service = (\<lambda>s. s)" "encrypts plain_service"
    by (simp_all add: plain_service_def encrypts_def plain_open_seal)
  have start: "settled (sv_collate plain_service) later_world" "busy_sources later_world = {}"
      "abstract plain_service later_world = (4, [3 \<mapsto> entry_of plain_service sample_source])"
    by (auto simp: settled_def sources_wf_def later_world_def source_world_def sample_source_def new_source_def busy_sources_def
        empty_world_def abstract_def catalogue_of_def fun_eq_iff)
  have "\<not> taken (\<lambda>s. s) [3 \<mapsto> entry_of plain_service sample_source] 9 (\<lambda>_. True) (ci_label sample_input)"
    by (auto simp: taken_def sample_source_def new_source_def split: if_splits)
  then have "spec_run (\<lambda>s. s) {} (map snd sample_requests) (4, [3 \<mapsto> entry_of plain_service sample_source]) =
      ([None, Some errNotFound, None], 5, [3 \<mapsto> entry_of plain_service sample_source\<lparr>en_live := False\<rparr>, 4 \<mapsto> new_entry 9 sample_input])"
    by (simp add: sample_requests_def owned_def sample_source_def new_source_def fun_upd_twist)
  with sources_refine_the_catalogue [OF start(1) plain(2) run] start
  have "rs = [None, Some errNotFound, None] \<and>
      catalogue_of plain_service w' = [3 \<mapsto> entry_of plain_service sample_source\<lparr>en_live := False\<rparr>, 4 \<mapsto> new_entry 9 sample_input]"
    by (simp add: plain abstract_def)
  then show ?thesis by (simp add: run owned_def) (simp add: new_entry_def)
qed

end
