(* ===== verification/Retry_Loop.thy ===== *)
theory Retry_Loop
  imports Consumer
begin

text \<open>
  The retry loop: a job that is retried is processed again when the retry queue hands its message back, with
  the attempt its header carries, until \<open>Process\<close> no longer asks for a retry or the consumer refuses the
  header. The recursion ends for every worker, and after as many rounds as the configured retries allow.
\<close>

definition retried :: "go_error option \<Rightarrow> bool" where
  "retried r = (case r of Some e \<Rightarrow> errors_is e ErrRetryScheduled | None \<Rightarrow> False)"

text \<open>The attempt the consumer reads from the message of a retry.\<close>

definition next_attempt :: "process_request \<Rightarrow> go_error + int" where
  "next_attempt req = extractAttempt (pb_headers
     (buildWorkerPublishing (rq_job_id req) (rq_message_id req) (int (uint8_of (rq_attempt req + 1))) 0))"

lemma next_attempt_range: "next_attempt req = Inr a \<Longrightarrow> 0 \<le> a \<and> a \<le> 100"
  unfolding next_attempt_def by (rule extract_range)

lemma next_attempt_succ: "0 \<le> rq_attempt req \<Longrightarrow> rq_attempt req < 100 \<Longrightarrow> next_attempt req = Inr (rq_attempt req + 1)"
  using extract_build [of "rq_attempt req + 1"] by (simp add: next_attempt_def)

text \<open>
  Each round has a greater attempt than the one before, up to the limit of the consumer - the first may
  come from a request with any attempt, as eight bits wrap.
\<close>

definition rounds_left :: "process_request \<Rightarrow> nat" where
  "rounds_left req = (if 0 \<le> rq_attempt req \<and> rq_attempt req \<le> 100 then Suc (nat (100 - rq_attempt req)) else 102)"

lemma rounds_decrease: "next_attempt req = Inr a \<Longrightarrow> rounds_left (req\<lparr>rq_attempt := a\<rparr>) < rounds_left req"
proof -
  assume nxt: "next_attempt req = Inr a"
  show ?thesis
  proof (cases "0 \<le> rq_attempt req \<and> rq_attempt req \<le> 100")
    case True
    moreover have "rq_attempt req \<noteq> 100"
      using nxt by (auto simp: next_attempt_def extractAttempt_def buildWorkerPublishing_def envelope_publishing_def maxSaneAttempt_def)
    ultimately show ?thesis using nxt next_attempt_succ [of req] by (auto simp: rounds_left_def)
  next
    case False
    then show ?thesis using next_attempt_range [OF nxt] by (auto simp: rounds_left_def)
  qed
qed

lemma bind_loop_cong [fundef_cong]:
  "p = p' \<Longrightarrow> (\<And>x. k x = k' x) \<Longrightarrow> State_Monad.bind p k = State_Monad.bind p' k'"
  by presburger

function retry_loop :: "'s worker \<Rightarrow> process_request \<Rightarrow> go_error option list prog" where
  "retry_loop s req = do {
     r \<leftarrow> Process s req;
     (if retried r then
        (case next_attempt req of
           Inl e \<Rightarrow> State_Monad.return [r]
         | Inr a \<Rightarrow> do { rs \<leftarrow> retry_loop s (req\<lparr>rq_attempt := a\<rparr>); State_Monad.return (r # rs) })
      else State_Monad.return [r])
   }"
  by pat_completeness auto

termination
  by (relation "measure (rounds_left \<circ> snd)") (simp_all add: rounds_decrease)

declare retry_loop.simps [simp del]

section \<open>How many rounds\<close>

text \<open>What the loop answers: all but the last round ask for a retry, within the bounds.\<close>

definition rounds_ok :: "'s worker \<Rightarrow> process_request \<Rightarrow> go_error option list \<Rightarrow> bool" where
  "rounds_ok s req rs = (rs \<noteq> [] \<and> list_all retried (butlast rs) \<and>
     length rs \<le> Suc (nat (min 100 (wk_max_retries s) - rq_attempt req)) \<and>
     (wk_max_retries s \<le> 100 \<longrightarrow> \<not> retried (last rs)))"

lemma triple_retry_loop:
  assumes ok: "worker_ok s"
  shows "0 \<le> rq_attempt req \<Longrightarrow> rq_attempt req \<le> 100 \<Longrightarrow>
    triple sys_evolves (at_work w0) (retry_loop s req) (\<lambda>rs w. at_work w0 w \<and> rounds_ok s req rs)"
proof (induction "rounds_left req" arbitrary: req rule: less_induct)
  case less
  note range = less.prems
  show ?case
    unfolding retry_loop.simps [of s req]
  proof (rule triple_bind [OF ends_Process [OF ok, unfolded ends_def]])
    fix r :: "go_error option"
    let ?pre = "\<lambda>w. at_work w0 w \<and> promise s req w0 r w"
    have one: "triple sys_evolves ?pre (State_Monad.return [r]) (\<lambda>rs w. at_work w0 w \<and> rounds_ok s req rs)"
      if "wk_max_retries s \<le> 100 \<Longrightarrow> \<not> retried r"
      by (rule triple_return) (use that in \<open>auto simp: rounds_ok_def\<close>)
    have more: "rq_attempt req + 1 \<le> wk_max_retries s" if "retried r" "?pre w" for w
      using that by (auto simp: promise_def retried_def split: option.splits)
    show "triple sys_evolves ?pre
        (if retried r then (case next_attempt req of
             Inl e \<Rightarrow> State_Monad.return [r]
           | Inr a \<Rightarrow> State_Monad.bind (retry_loop s (req\<lparr>rq_attempt := a\<rparr>)) (\<lambda>rs. State_Monad.return (r # rs)))
         else State_Monad.return [r])
        (\<lambda>rs w. at_work w0 w \<and> rounds_ok s req rs)"
    proof (cases "retried r")
      case True
      show ?thesis
      proof (cases "next_attempt req")
        case (Inl e)
        then have "rq_attempt req = 100" using next_attempt_succ [of req] range by force
        have "triple sys_evolves ?pre (State_Monad.return [r]) (\<lambda>rs w. at_work w0 w \<and> rounds_ok s req rs)"
          by (rule triple_return)
            (use more [OF True] \<open>rq_attempt req = 100\<close> in \<open>fastforce simp: rounds_ok_def\<close>)
        then show ?thesis using True Inl by simp
      next
        case (Inr a)
        have a: "a = rq_attempt req + 1" "rq_attempt req < 100"
          using Inr range next_attempt_succ [of req] next_attempt_range [OF Inr] rounds_decrease [OF Inr]
          by (auto simp: rounds_left_def split: if_splits)
        have rest: "triple sys_evolves ?pre (retry_loop s (req\<lparr>rq_attempt := a\<rparr>))
            (\<lambda>rs w. at_work w0 w \<and> rounds_ok s (req\<lparr>rq_attempt := a\<rparr>) rs \<and> rq_attempt req + 1 \<le> wk_max_retries s)"
        proof (cases "rq_attempt req + 1 \<le> wk_max_retries s")
          case bound: True
          show ?thesis
            by (rule triple_conseq [OF less.hyps [OF rounds_decrease [OF Inr]]]) (use range a bound in auto)
        next
          case False
          then have "\<not> ?pre w" for w using more [OF True] by blast
          then show ?thesis by (intro tripleI) blast
        qed
        have "triple sys_evolves ?pre (State_Monad.bind (retry_loop s (req\<lparr>rq_attempt := a\<rparr>)) (\<lambda>rs. State_Monad.return (r # rs)))
            (\<lambda>rs w. at_work w0 w \<and> rounds_ok s req rs)"
          by (rule triple_bind [OF rest], rule triple_return)
            (use True a in \<open>auto simp: rounds_ok_def nat_le_iff nat_diff_distrib le_diff_conv\<close>)
        then show ?thesis using True Inr by simp
      qed
    next
      case False
      then show ?thesis using one by simp
    qed
  qed
qed

section \<open>Properties\<close>


text \<open>A worker whose language model never answers.\<close>

definition mute_worker :: "unit worker" where
  "mute_worker = sample_worker\<lparr>wk_generate := (\<lambda>q s w. Inl (NewError ''no answer''))\<rparr>"


end
