(* ===== verification/Answering.thy ===== *)
theory Answering
  imports Http_Auth_Props Dispatcher Worker_Success Consumer
begin

text \<open>
  All parts together on the undisturbed path: a question posted to the API is enqueued with its job, carried
  to the queue by a cycle of the dispatcher, answered by a worker that handles the delivery, and its result is
  what the API then shows to the user who asked.
\<close>

section \<open>A cycle of the dispatcher\<close>

text \<open>What a dispatcher leaves alone.\<close>

definition kept :: "world \<Rightarrow> world \<Rightarrow> bool" where
  "kept w w' = (w_jobs w' = w_jobs w \<and> w_pm w' = w_pm w \<and> w_redis w' = w_redis w \<and>
     w_sources w' = w_sources w \<and> w_users w' = w_users w \<and> w_clock w' = w_clock w)"

lemma kept_refl [simp]: "kept w w"
  by (simp add: kept_def)

lemma kept_trans: "kept a b \<Longrightarrow> kept b c \<Longrightarrow> kept a c"
  by (simp add: kept_def)

definition hands_off :: "'a prog \<Rightarrow> bool" where
  "hands_off p = (\<forall>w. \<exists>r w'. run_state p (quiet w) = (r, quiet w') \<and> kept w w')"

declare quiet_inject [simp]

lemma hands_off_return [simp]: "hands_off (State_Monad.return x)"
  unfolding hands_off_def by (metis State_Monad.run_state_return kept_refl)

lemma hands_off_now [simp]: "hands_off now"
  unfolding hands_off_def by (metis run_now kept_refl)

lemma hands_off_ext: "(\<And>w. kept w (snd (f w))) \<Longrightarrow> hands_off (ext f)"
  by (auto simp: hands_off_def)

lemma hands_off_bind:
  assumes "hands_off p" and "\<And>x. hands_off (k x)"
  shows "hands_off (State_Monad.bind p k)"
  unfolding hands_off_def
proof
  fix w
  obtain x w1 where 1: "run_state p (quiet w) = (x, quiet w1)" "kept w w1"
    using assms(1) unfolding hands_off_def by blast
  obtain r w2 where 2: "run_state (k x) (quiet w1) = (r, quiet w2)" "kept w1 w2"
    using assms(2) [of x] unfolding hands_off_def by blast
  show "\<exists>r w'. run_state (State_Monad.bind p k) (quiet w) = (r, quiet w') \<and> kept w w'"
    using 1 2 kept_trans by auto
qed

lemma hands_off_run:
  assumes "hands_off p" and "run_state p (quiet w) = (r, m)"
  shows "m = quiet (m_world m) \<and> kept w (m_world m)"
  using assms unfolding hands_off_def by (metis Pair_inject quiet_simps(1))

lemma kept_statements:
  "kept w (snd (mark_published_stmt k token t w))" "kept w (snd (release_stmt k token a n err w))"
  "kept w (snd (delete_old_stmt before l w))" "kept w (snd (claim_batch_tx pick token l ttl t w))"
  by (simp_all add: kept_def mark_published_stmt_def release_stmt_def delete_old_stmt_def claim_batch_tx_def
      Let_def case_prod_beta)

lemma kept_route: "amqp_route route \<Longrightarrow> kept w (snd (route x key pub w))"
proof -
  assume "amqp_route route"
  then obtain qs where "snd (route x key pub w) = w\<lparr>w_queues := qs\<rparr>"
    using route_only_queues [OF _ surjective_pairing] by metis
  then show ?thesis by (simp add: kept_def)
qed

lemma hands_off_release: "hands_off (releaseEvent d e reason)"
  unfolding releaseEvent_def release_with_retry_def
  by (intro hands_off_bind hands_off_now hands_off_return hands_off_ext kept_statements)

lemma hands_off_publish: "amqp_route (de_route d) \<Longrightarrow> hands_off (publish_on d alive e)"
  unfolding publish_on_def publish_outbox_def confirm_publish_def
  by (auto intro!: hands_off_bind hands_off_ext kept_route simp: case_prod_beta)

lemma hands_off_mark: "hands_off (mark_published k token t)"
  unfolding mark_published_def Let_def
  by (intro hands_off_bind hands_off_now hands_off_return hands_off_ext kept_statements)

lemma hands_off_publish_events: "amqp_route (de_route d) \<Longrightarrow> hands_off (publish_events d i alive st es)"
  by (induction es arbitrary: i alive st)
    (auto intro!: hands_off_bind hands_off_release hands_off_publish hands_off_mark split: option.split)

lemma claim_all:
  assumes "length pick \<le> n" and "k \<in> set pick" and "event_at w k = Some e" and "claimable t e"
  shows "e \<in> set (claim_select pick n t w)"
proof -
  let ?es = "filter (claimable t) (List.map_filter (event_at w) (remdups pick))"
  have "length ?es \<le> length (List.map_filter (event_at w) (remdups pick))" by simp
  also have "\<dots> \<le> length (remdups pick)" by (simp add: List.map_filter_def)
  finally have "length ?es \<le> n" using assms(1) length_remdups_leq [of pick] by linarith
  moreover have "e \<in> set ?es" using assms(2-4) by (force simp: List.map_filter_def)
  ultimately show ?thesis by (simp add: claim_select_def)
qed

text \<open>An undisturbed cycle with a connected publisher sends every event it sees, and keeps the rest.\<close>

lemma run_cycle:
  assumes route: "amqp_route (de_route d)" "confirming (de_route d)" and go: "\<And>i. \<not> de_stop d i"
    and con: "connected w" and st: "dp_pub st" "dp_conn st"
    and e: "e \<in> set (claim_select (de_pick d) (dc_batch_size (de_config d)) (w_clock w) w)"
  shows "\<exists>w'. run_state (runOnce d st) (quiet w) = (st, quiet w') \<and> kept w w' \<and> event_sent e w'"
proof -
  let ?cfg = "de_config d"
  let ?claim = "claim_batch_tx (de_pick d) (de_token d) (dc_batch_size ?cfg) (dc_lease_ttl ?cfg) (w_clock w) w"
  have "claim_select (de_pick d) (dc_batch_size ?cfg) (w_clock w) w \<noteq> []" using e by force
  then obtain w1 where claim: "?claim = (Inr (map (lease_event (de_token d) (w_clock w + dc_lease_ttl ?cfg))
      (claim_select (de_pick d) (dc_batch_size ?cfg) (w_clock w) w)), w1)" (is "_ = (Inr ?es, _)")
    by (simp add: claim_batch_tx_def Let_def)
  obtain es where es: "es = ?es" by simp
  note claim = claim [folded es]
  have es: "es \<noteq> []" "lease_event (de_token d) (w_clock w + dc_lease_ttl ?cfg) e \<in> set es" using e es by auto
  have kept1: "kept w w1" using kept_statements(4) claim by (metis snd_conv)
  have con1: "connected w1"
    using con claim by (auto simp: connected_def bound_def claim_batch_tx_def Let_def split: if_splits)
  have "distinct (map ob_id es)"
    using claim_select_distinct [of "de_pick d" "dc_batch_size ?cfg" "w_clock w" w] claim
    by (auto simp: claim_batch_tx_def Let_def lease_event_def o_def split: if_splits)
  moreover have "\<forall>e \<in> set es. event_at w1 (ob_id e) = Some e \<and> ob_status e = OutboxPublishing \<and> ob_lease_token e \<noteq> None"
    using claim_hands_out(1,2) [OF claim] by auto
  ultimately obtain w2 where w2: "run_state (publish_events d 0 True st es) (quiet w1) = (st, quiet w2)"
      "\<forall>e \<in> set es. event_sent e w2"
    using run_publish_events [where d = d, OF route go con1] by blast
  let ?w3 = "snd (delete_old_stmt (w_clock w2 - dc_published_retain ?cfg) (dc_clean_batch ?cfg) w2)"
  have "run_state (cleanOld d) (quiet w2) = ((), quiet ?w3)"
    by (simp add: cleanOld_def delete_old_published_def)
  moreover have "run_state (ensurePublisher st) (quiet w1) = ((None, st), quiet w1)"
    using st by (simp add: ensurePublisher_def ask_def)
  moreover have "run_state (claim_batch (de_pick d) (de_token d) (dc_batch_size ?cfg) (dc_lease_ttl ?cfg) (w_clock w)) (quiet w) =
      (Inr es, quiet w1)"
    using claim by (simp add: claim_batch_def)
  ultimately have "run_state (runOnce d st) (quiet w) = (st, quiet ?w3)"
    using es(1) w2(1) by (simp add: runOnce_def)
  moreover have "kept w ?w3"
    using kept1 hands_off_run [OF hands_off_publish_events [OF route(1)] w2(1)] kept_statements(3) kept_trans
    by (metis quiet_simps(1))
  moreover have "event_sent e ?w3"
  proof -
    have "event_sent (lease_event (de_token d) (w_clock w + dc_lease_ttl ?cfg) e) w2" using es(2) w2(2) by blast
    then have "event_sent e w2" by (simp add: event_sent_def outbox_message_def lease_event_def)
    moreover have "broker_grows w2 ?w3"
      by (rule broker_grows_same) (simp_all add: delete_old_stmt_def case_prod_beta)
    ultimately show ?thesis by (rule event_sent_grows)
  qed
  ultimately show ?thesis by blast
qed


section \<open>The submission\<close>

text \<open>The message id was never used, and the job of the next id never named.\<close>

definition unused :: "string \<Rightarrow> world \<Rightarrow> bool" where
  "unused m w = ((\<forall>e \<in> set (w_outbox w). ob_message_id e \<noteq> m \<and> ob_job_id e \<noteq> w_next_job_id w) \<and>
     (\<forall>r \<in> set (w_pm w). pm_message_id r \<noteq> m \<and> pm_job_id r \<noteq> w_next_job_id w))"

definition askable :: "string \<Rightarrow> nat \<Rightarrow> nat \<Rightarrow> world \<Rightarrow> bool" where
  "askable q d u w = (trim_space q \<noteq> [] \<and> rune_count (trim_space q) \<le> maxQuestionLen \<and> d \<noteq> 0 \<and>
     (\<exists>r \<in> set (w_sources w). live_source d u r))"

definition asked_job :: "nat \<Rightarrow> string \<Rightarrow> nat \<Rightarrow> world \<Rightarrow> query_job" where
  "asked_job u q d w = (submitted_job u (trim_space q) d (w_clock w))
     \<lparr>jb_id := w_next_job_id w, jb_status := StatusQueued, jb_updated_at := w_clock w\<rparr>"

definition asked_event :: "string \<Rightarrow> world \<Rightarrow> outbox_event" where
  "asked_event m w = enqueued_event (newOutboxEvent 0 m (w_clock w)) w"

lemma enqueue_run:
  assumes "jobs_wf w" and "outbox_wf w" and "jb_status job = StatusPending" and "unused m w"
  shows "\<exists>w'. create_and_enqueue_tx t job (newOutboxEvent 0 m t) w = (Inr (job\<lparr>jb_id := w_next_job_id w, jb_status := StatusQueued\<rparr>), w') \<and>
    job_at w' (w_next_job_id w) = Some (job\<lparr>jb_id := w_next_job_id w, jb_status := StatusQueued, jb_updated_at := t\<rparr>) \<and>
    event_at w' (w_next_outbox_id w) = Some (enqueued_event (newOutboxEvent 0 m t) w) \<and>
    w_pm w' = w_pm w \<and> w_sources w' = w_sources w \<and> w_clock w' = w_clock w \<and> w_bindings w' = w_bindings w"
proof -
  let ?e = "newOutboxEvent 0 m t" and ?k = "w_next_job_id w"
  have "ob_message_id e \<noteq> ob_message_id ?e \<and> ob_job_id e \<noteq> ?k" if "e \<in> set (w_outbox w)" for e
    using assms(4) that by (simp add: unused_def newOutboxEvent_def)
  from enqueue_succeeds [OF assms(1,3) this] obtain j w' where tx: "create_and_enqueue_tx t job ?e w = (Inr j, w')"
    by blast
  note s = enqueue_success [OF tx]
  have "event_at w (w_next_outbox_id w) = None" using assms(2) by (force simp: outbox_wf_def lookup_None_iff)
  then have "event_at w' (w_next_outbox_id w) = Some (enqueued_event ?e w)"
    by (simp add: s(3)) (simp add: enqueued_event_def)
  moreover have "w_jobs w' = sql_update (\<lambda>r. jb_id r = ?k \<and> jb_status r = StatusPending)
      (\<lambda>r. r\<lparr>jb_status := StatusQueued, jb_updated_at := t\<rparr>) (w_jobs w @ [job\<lparr>jb_id := ?k\<rparr>])"
    using s(5) by (simp add: cas_job_def insert_job_def Let_def)
  then have "job_at w' ?k = Some (job\<lparr>jb_id := ?k, jb_status := StatusQueued, jb_updated_at := t\<rparr>)"
    by (simp add: transition_cas.lookup_self jobs_wf_fresh [OF assms(1)] assms(3))
  moreover have "j = job\<lparr>jb_id := ?k, jb_status := StatusQueued\<rparr>"
    using tx by (auto simp: create_and_enqueue_tx_def insert_job_def cas_job_def Let_def split: if_splits prod.splits)
  moreover have "w_pm w' = w_pm w" "w_sources w' = w_sources w" "w_clock w' = w_clock w" "w_bindings w' = w_bindings w"
    using s(5) by (simp_all add: cas_job_def insert_job_def Let_def)
  ultimately show ?thesis using tx by blast
qed

lemma run_submission:
  assumes "jobs_wf w" and "outbox_wf w" and "unused m w" and "askable q d u w"
  shows "\<exists>j w'. run_state (Submit (\<lambda>k u. on_pool (exists_for_user k u)) m u q d) (quiet w) = (Inr j, quiet w') \<and>
    jb_id j = w_next_job_id w \<and> jb_status j = StatusQueued \<and> jb_created_at j = w_clock w \<and>
    job_at w' (w_next_job_id w) = Some (asked_job u q d w) \<and> event_at w' (w_next_outbox_id w) = Some (asked_event m w) \<and>
    w_pm w' = w_pm w \<and> w_sources w' = w_sources w \<and> w_clock w' = w_clock w \<and> w_bindings w' = w_bindings w"
proof -
  let ?job = "submitted_job u (trim_space q) d (w_clock w)"
  obtain w' where tx: "create_and_enqueue_tx (w_clock w) ?job (newOutboxEvent 0 m (w_clock w)) w =
      (Inr (?job\<lparr>jb_id := w_next_job_id w, jb_status := StatusQueued\<rparr>), w')" and
      rest: "job_at w' (w_next_job_id w) = Some (asked_job u q d w)"
        "event_at w' (w_next_outbox_id w) = Some (asked_event m w)" "w_pm w' = w_pm w" "w_sources w' = w_sources w"
        "w_clock w' = w_clock w" "w_bindings w' = w_bindings w"
    using enqueue_run [OF assms(1,2) submitted_fresh assms(3), of "w_clock w" u "trim_space q" d "w_clock w"]
    unfolding asked_job_def asked_event_def by blast
  have "0 < sql_count (live_source d u) (w_sources w)"
    using assms(4) by (auto simp: askable_def sql_count_def filter_empty_conv)
  with assms(4) tx have "run_state (Submit (\<lambda>k u. on_pool (exists_for_user k u)) m u q d) (quiet w) =
      (Inr (?job\<lparr>jb_id := w_next_job_id w, jb_status := StatusQueued\<rparr>), quiet w')"
    by (simp add: askable_def Submit_def Let_def on_pool_quiet exists_for_user_def create_and_enqueue_def not_less)
  with rest show ?thesis by (fastforce simp: submitted_job_def)
qed

lemma asked_message:
  "outbox_message (asked_event m w) = \<lparr>mg_message_id = m, mg_type = MessageTypeQueryExecutionRequested,
     mg_version = messageVersion, mg_occurred_at = w_clock w, mg_job_id = w_next_job_id w\<rparr>"
  by (simp add: outbox_message_def asked_event_def enqueued_event_def newOutboxEvent_def)

lemma asked_claimable: "claimable (w_clock w) (asked_event m w)"
  by (simp add: claimable_def asked_event_def enqueued_event_def newOutboxEvent_def)


section \<open>The answer\<close>

text \<open>
  The worker's collaborators answer for a job: its data source opens, the schema, SQL, validation and rows
  arrive, and the encoded result is small enough to keep.
\<close>

definition answerable ::
  "'s worker \<Rightarrow> world \<Rightarrow> query_job \<Rightarrow> string \<Rightarrow> string list \<Rightarrow> go_value list list \<Rightarrow> string \<Rightarrow> bool" where
  "answerable s w j normalized columns rows payload =
     (\<exists>db exec reader schema sql v.
        answers_target s w j (db, exec, reader) \<and> answers_schema s reader schema \<and>
        (\<forall>w. wk_generate s (jb_question j) schema w = Inr sql) \<and>
        (\<forall>w. wk_validate s \<lparr>vi_sql = sql, vi_allowed_database = db, vi_allowed_tables = wk_allowed_tables s,
           vi_max_rows = wk_max_rows s\<rparr> w = Inr v) \<and>
        vr_normalized_sql v = normalized \<and> (\<forall>w. exec normalized w = Inr (columns, rows)) \<and>
        wk_marshal s \<lparr>cr_job_id = jb_id j, cr_columns = columns, cr_rows = rows, cr_row_count = int (length rows),
           cr_cached_at = w_clock w, cr_expires_at = w_clock w + wk_result_ttl s\<rparr> = Inr payload \<and>
        int (length payload) \<le> wk_max_result_bytes s \<and> 0 < wk_result_ttl s)"

text \<open>The delivery of a message as the broker hands it out.\<close>

definition delivery_of :: "publishing \<Rightarrow> delivery" where
  "delivery_of p = \<lparr>dl_headers = pb_headers p, dl_body = pb_body p\<rparr>"

lemma answerable_cong:
  "w_sources w' = w_sources w \<Longrightarrow> w_clock w' = w_clock w \<Longrightarrow>
     answerable s w' j normalized columns rows payload = answerable s w j normalized columns rows payload"
  unfolding answerable_def answers_target_def by (simp only:)

lemma claim_new_quiet:
  assumes "\<forall>r \<in> set (w_pm w). pm_message_id r \<noteq> m \<and> pm_job_id r \<noteq> k"
  shows "claim_tx token m ty k a t w = (Inr (token, ClaimGranted), w\<lparr>w_pm := w_pm w @ [\<lparr>pm_message_id = m,
    pm_message_type = ty, pm_job_id = k, pm_attempt = a, pm_status = PmProcessing, pm_lease_token = token,
    pm_lease_expires_at = t + leaseTTL, pm_completed_at = None\<rparr>]\<rparr>)"
proof -
  have "sql_first (\<lambda>r. pm_message_id r = m) (w_pm w) = None"
    "sql_first (\<lambda>r. pm_message_type r = ty \<and> pm_job_id r = k) (w_pm w) = None"
    using assms by (auto simp: sql_first_def find_None_iff)
  then show ?thesis by (simp add: claim_tx_def Let_def)
qed

lemma redis_get_pm [simp]: "redis_get key (w\<lparr>w_pm := rows\<rparr>) = redis_get key w"
  by (simp add: redis_get_def split: option.split)

lemma process_claimed_quiet:
  assumes job: "job_at w (mg_job_id msg) = Some j" "jb_status j = StatusQueued" "jb_id j = mg_job_id msg"
    and ans: "answerable s w j normalized columns rows payload"
    and pm: "pm_at w (mg_message_id msg) = Some row" "pm_lease_token row = token" "pm_status row \<noteq> PmCompleted"
  shows "\<exists>w'. run_state (process_claimed s False msg a token) (quiet w) = ((OutcomeAck, None), quiet w') \<and>
    job_at w' (mg_job_id msg) = Some (success_row s normalized (length rows) w j) \<and>
    redis_get (QueryResultKey (mg_job_id msg)) w' = Some payload \<and> w_clock w' = w_clock w"
proof -
  let ?req = "request_of msg a"
  obtain db exec reader schema sql v where c: "answers_target s w j (db, exec, reader)" "answers_schema s reader schema"
      "\<forall>w. wk_generate s (jb_question j) schema w = Inr sql"
      "\<forall>w. wk_validate s \<lparr>vi_sql = sql, vi_allowed_database = db, vi_allowed_tables = wk_allowed_tables s,
         vi_max_rows = wk_max_rows s\<rparr> w = Inr v" "vr_normalized_sql v = normalized"
      "\<forall>w. exec normalized w = Inr (columns, rows)" "int (length payload) \<le> wk_max_result_bytes s" "0 < wk_result_ttl s"
      "wk_marshal s \<lparr>cr_job_id = jb_id j, cr_columns = columns, cr_rows = rows, cr_row_count = int (length rows),
         cr_cached_at = w_clock w, cr_expires_at = w_clock w + wk_result_ttl s\<rparr> = Inr payload"
    using ans unfolding answerable_def by blast
  have "\<exists>w'. run_state (Process s ?req) (quiet w) = (None, quiet w') \<and>
    job_at w' (rq_job_id ?req) = Some (success_row s (vr_normalized_sql v) (length rows) w j) \<and>
    redis_get (QueryResultKey (rq_job_id ?req)) w' = Some payload \<and> w_pm w' = w_pm w \<and> w_clock w' = w_clock w"
    by (rule Process_succeeds_quiet [OF _ _ c(1,2) c(3,4) [rule_format]])
      (use job c(5-9) in \<open>simp_all add: request_of_def\<close>)
  then obtain w1 where w1: "run_state (Process s ?req) (quiet w) = (None, quiet w1)"
      "job_at w1 (mg_job_id msg) = Some (success_row s normalized (length rows) w j)"
      "redis_get (QueryResultKey (mg_job_id msg)) w1 = Some payload" "w_pm w1 = w_pm w" "w_clock w1 = w_clock w"
    unfolding c(5) by (auto simp: request_of_def)
  have row: "pm_at (m_world (quiet w1)) (mg_message_id msg) = Some row" using pm(1) w1(4) by simp
  note completed = mark_completed_quiet [OF row pm(2) quiet_simps(2) pm(3)]
  have "run_state (process_claimed s False msg a token) (quiet w) = ((OutcomeAck, None),
      quiet (w1\<lparr>w_pm := sql_update (\<lambda>r. pm_message_id r = mg_message_id msg \<and> holds_pm token r)
        (\<lambda>r. r\<lparr>pm_status := PmCompleted, pm_completed_at := Some (w_clock w1)\<rparr>) (w_pm w1)\<rparr>))"
    using w1(1) completed by (simp add: process_claimed_def request_of_def finish_def complete_and_ack_def)
  then show ?thesis using w1(2-5) by simp
qed

lemma handle_quiet:
  assumes job: "job_at w (mg_job_id msg) = Some j" "jb_status j = StatusQueued" "jb_id j = mg_job_id msg"
    and msg: "mg_job_id msg \<noteq> 0" "mg_type msg = MessageTypeQueryExecutionRequested" "mg_version msg = messageVersion"
    and new: "\<forall>r \<in> set (w_pm w). pm_message_id r \<noteq> mg_message_id msg \<and> pm_job_id r \<noteq> mg_job_id msg"
    and ans: "answerable s w j normalized columns rows payload"
  shows "\<exists>w'. run_state (handle s token False (delivery_of (envelope_publishing msg None))) (quiet w) =
      ((OutcomeAck, None), quiet w') \<and>
    job_at w' (mg_job_id msg) = Some (success_row s normalized (length rows) w j) \<and>
    redis_get (QueryResultKey (mg_job_id msg)) w' = Some payload \<and> w_clock w' = w_clock w"
proof -
  let ?row = "\<lparr>pm_message_id = mg_message_id msg, pm_message_type = mg_type msg, pm_job_id = mg_job_id msg,
     pm_attempt = uint8_of 0, pm_status = PmProcessing, pm_lease_token = token,
     pm_lease_expires_at = w_clock w + leaseTTL, pm_completed_at = None\<rparr>"
  let ?w = "w\<lparr>w_pm := w_pm w @ [?row]\<rparr>"
  have claim: "claim_tx token (mg_message_id msg) (mg_type msg) (mg_job_id msg) (uint8_of 0) (w_clock w) w =
      (Inr (token, ClaimGranted), ?w)"
    by (rule claim_new_quiet [OF new])
  have "pm_at w (mg_message_id msg) = None" using new by (auto simp: lookup_None_iff)
  then have "pm_at ?w (mg_message_id msg) = Some ?row" by simp
  moreover have "answerable s ?w j normalized columns rows payload"
    by (subst answerable_cong [of ?w w]) (simp_all add: ans)
  moreover have "job_at ?w (mg_job_id msg) = Some j" using job(1) by simp
  ultimately obtain w' where w': "run_state (process_claimed s False msg 0 token) (quiet ?w) = ((OutcomeAck, None), quiet w')"
      "job_at w' (mg_job_id msg) = Some (success_row s normalized (length rows) ?w j)"
      "redis_get (QueryResultKey (mg_job_id msg)) w' = Some payload" "w_clock w' = w_clock ?w"
    using process_claimed_quiet [OF _ job(2,3), where w = ?w and row = ?row and token = token and a = 0] by fastforce
  have "run_state (handle s token False (delivery_of (envelope_publishing msg None))) (quiet w) =
      run_state (handle_valid s token False msg 0) (quiet w)"
    using msg by (simp add: handle_def delivery_of_def envelope_publishing_def extractAttempt_def)
  also have "\<dots> = ((OutcomeAck, None), quiet w')"
    using claim w'(1) by (simp add: handle_valid_def claim_def)
  finally show ?thesis using w'(2-4) by (auto simp: success_row_def)
qed

section \<open>The result\<close>

lemma get_result_quiet:
  assumes "job_at w k = Some j" and "ownsJob j u" and "jb_status j = StatusSucceeded"
    and "jb_result_expires_at j = Some x" and "redis_get (QueryResultKey k) w = Some payload" and "decode payload = Inr res"
  shows "run_state (GetResult (store_get decode) u k) (quiet w) = (Inr res, quiet w)"
  using assms by (simp add: GetResult_def job_find_by_id_def store_get_def)

lemma asked_job_simps [simp]:
  "jb_status (asked_job u q d w) = StatusQueued" "jb_id (asked_job u q d w) = w_next_job_id w"
  "u < 2 ^ 64 \<Longrightarrow> ownsJob (asked_job u q d w) u"
  by (simp_all add: asked_job_def submitted_job_def ownsJob_def)

lemma success_row_simps [simp]:
  "ownsJob (success_row s sql n w j) u = ownsJob j u" "jb_status (success_row s sql n w j) = StatusSucceeded"
  "jb_result_expires_at (success_row s sql n w j) = Some (w_clock w + wk_result_ttl s)"
  by (simp_all add: success_row_def succeeded_def moved_def ownsJob_def)


section \<open>Property\<close>

text \<open>The request of a client with a token, for an endpoint.\<close>

definition authorized :: "string \<Rightarrow> endpoint \<Rightarrow> http_request" where
  "authorized token e = \<lparr>hr_endpoint = e, hr_authorization = ''Bearer '' @ token\<rparr>"

lemma respond_authorized:
  assumes "protected a e = Some handler" and "verify_token a (w_clock w) token = Inr u"
  shows "run_state (respond a (authorized token e)) (quiet w) = run_state (handler u) (quiet w)"
  using assms by (simp add: respond_def authorized_def Bearer_def has_prefix_def)

text \<open>The two requests of the user.\<close>

lemma post_accepted:
  assumes "jobs_wf w" and "outbox_wf w" and "unused m w" and "askable q d u w" and "verify_token a (w_clock w) token = Inr u"
  shows "\<exists>w1. run_state (respond a (authorized token (PostQueryJob m (Some (q, d))))) (quiet w) =
      ((202, SubmitBody (w_next_job_id w) ''queued'' (w_clock w)), quiet w1) \<and>
    job_at w1 (w_next_job_id w) = Some (asked_job u q d w) \<and> event_at w1 (w_next_outbox_id w) = Some (asked_event m w) \<and>
    w_pm w1 = w_pm w \<and> w_sources w1 = w_sources w \<and> w_clock w1 = w_clock w \<and> w_bindings w1 = w_bindings w"
proof -
  obtain j w1 where submit: "run_state (Submit (\<lambda>k u. on_pool (exists_for_user k u)) m u q d) (quiet w) = (Inr j, quiet w1)"
      "jb_id j = w_next_job_id w" "jb_status j = StatusQueued" "jb_created_at j = w_clock w"
      and rest: "job_at w1 (w_next_job_id w) = Some (asked_job u q d w) \<and> event_at w1 (w_next_outbox_id w) = Some (asked_event m w) \<and>
        w_pm w1 = w_pm w \<and> w_sources w1 = w_sources w \<and> w_clock w1 = w_clock w \<and> w_bindings w1 = w_bindings w"
    using run_submission [OF assms(1-4)] by blast
  then show ?thesis
    using respond_authorized [OF protected.simps(1) assms(5)] by (simp add: handle_submit_def)
qed

lemma result_shown:
  assumes "job_at w k = Some j" and "ownsJob j u" and "jb_status j = StatusSucceeded" and "jb_result_expires_at j = Some x"
    and "redis_get (QueryResultKey k) w = Some payload" and "ap_decode a payload = Inr res"
    and "verify_token a (w_clock w) token = Inr u" and "0 < k" and "k < 2 ^ 64"
  shows "run_state (respond a (authorized token (GetQueryJobResult (format_uint k)))) (quiet w) =
    ((200, ResultBody (cr_job_id res) (cr_columns res) (cr_rows res) (cr_row_count res) (cr_cached_at res)
      (cr_expires_at res)), quiet w)"
proof -
  have "parse_id (format_uint k) = Some k" using assms(8,9) by (simp add: parse_id_def parse_format_uint)
  then show ?thesis
    using respond_authorized [OF protected.simps(3) assms(7)] get_result_quiet [where decode = "ap_decode a", OF assms(1-6)]
    by (simp add: handle_get_result_def)
qed

text \<open>
  C8. A question is answered: posted by a user to a data source of his, undisturbed, it is accepted; the next
  cycle of a connected dispatcher puts its message into the execution queue; a worker whose collaborators
  answer acknowledges the delivery of that message; and the user then reads the decoded result.
\<close>

theorem question_is_answered:
  assumes "jobs_wf w" and "outbox_wf w" and "unused m w" and "0 < w_next_job_id w" and "w_next_job_id w < 2 ^ 64"
    and "u < 2 ^ 64" and "askable q d u w" and "verify_token a (w_clock w) token = Inr u"
    and "amqp_route (de_route e)" and "confirming (de_route e)" and "\<forall>i. \<not> de_stop e i" and "connected w"
    and "dp_pub st" and "dp_conn st"
    and "length (de_pick e) \<le> dc_batch_size (de_config e)" and "w_next_outbox_id w \<in> set (de_pick e)"
    and "answerable s w (asked_job u q d w) sql columns rows payload" and "ap_decode a payload = Inr res"
  shows "\<exists>w1 w2 p w3.
    run_state (respond a (authorized token (PostQueryJob m (Some (q, d))))) (quiet w) =
      ((202, SubmitBody (w_next_job_id w) ''queued'' (w_clock w)), quiet w1) \<and>
    run_state (runOnce e st) (quiet w1) = (st, quiet w2) \<and> p \<in> set (queue_at w2 mqQueue) \<and>
    run_state (handle s lease False (delivery_of p)) (quiet w2) = ((OutcomeAck, None), quiet w3) \<and>
    run_state (respond a (authorized token (GetQueryJobResult (format_uint (w_next_job_id w))))) (quiet w3) =
      ((200, ResultBody (cr_job_id res) (cr_columns res) (cr_rows res) (cr_row_count res) (cr_cached_at res)
        (cr_expires_at res)), quiet w3)"
proof -
  let ?k = "w_next_job_id w" and ?j = "asked_job u q d w" and ?msg = "outbox_message (asked_event m w)"
  obtain w1 where post: "run_state (respond a (authorized token (PostQueryJob m (Some (q, d))))) (quiet w) =
      ((202, SubmitBody ?k ''queued'' (w_clock w)), quiet w1)"
      and w1: "job_at w1 ?k = Some ?j" "event_at w1 (w_next_outbox_id w) = Some (asked_event m w)"
        "w_pm w1 = w_pm w" "w_sources w1 = w_sources w" "w_clock w1 = w_clock w" "w_bindings w1 = w_bindings w"
    using post_accepted [OF assms(1,2,3,7,8)] by blast
  have "connected w1" using assms(12) w1(6) by (simp add: connected_def bound_def)
  moreover have "asked_event m w \<in> set (claim_select (de_pick e) (dc_batch_size (de_config e)) (w_clock w1) w1)"
    using claim_all [OF assms(15,16) w1(2)] asked_claimable w1(5) by simp
  ultimately obtain w2 where cycle: "run_state (runOnce e st) (quiet w1) = (st, quiet w2)" "kept w1 w2"
      "event_sent (asked_event m w) w2"
    using run_cycle [OF assms(9,10) _ _ assms(13,14)] assms(11) by blast
  have msg: "mg_job_id ?msg = ?k" "mg_message_id ?msg = m" "mg_type ?msg = MessageTypeQueryExecutionRequested"
      "mg_version ?msg = messageVersion"
    by (simp_all add: asked_message)
  have w2: "job_at w2 ?k = Some ?j" "w_pm w2 = w_pm w" "w_sources w2 = w_sources w" "w_clock w2 = w_clock w"
    using cycle(2) w1 by (simp_all add: kept_def)
  have new: "\<forall>r \<in> set (w_pm w2). pm_message_id r \<noteq> m \<and> pm_job_id r \<noteq> ?k"
    using assms(3) w2(2) unfolding unused_def by simp
  have ans: "answerable s w2 ?j sql columns rows payload"
    by (subst answerable_cong [OF w2(3,4)]) (rule assms(17))
  have "?k \<noteq> 0" using assms(4) by simp
  from handle_quiet [where msg = ?msg and s = s and token = lease, unfolded msg(1,2), OF w2(1) asked_job_simps(1,2) this msg(3,4) new ans]
  obtain w3 where answer: "run_state (handle s lease False (delivery_of (envelope_publishing ?msg None))) (quiet w2) =
      ((OutcomeAck, None), quiet w3)" "job_at w3 ?k = Some (success_row s sql (length rows) w2 ?j)"
      "redis_get (QueryResultKey ?k) w3 = Some payload" "w_clock w3 = w_clock w2"
    by blast
  have get: "run_state (respond a (authorized token (GetQueryJobResult (format_uint ?k)))) (quiet w3) =
      ((200, ResultBody (cr_job_id res) (cr_columns res) (cr_rows res) (cr_row_count res) (cr_cached_at res)
        (cr_expires_at res)), quiet w3)"
    by (rule result_shown [OF answer(2) _ _ _ answer(3) assms(18) _ assms(4,5)]) (use assms(6,8) answer(4) w2(4) in simp_all)
  show ?thesis
    using post cycle(1) answer(1) get cycle(3) unfolding event_sent_def sent_def by blast
qed


section \<open>A sample\<close>

definition user_7_token :: string where
  "user_7_token = plain_token ''secret'' \<lparr>cl_subject = ''7'', cl_issuer = ''askdb-api'', cl_issued_at = Some 0,
     cl_not_before = Some 0, cl_expires_at = Some 1000\<rparr>"

definition sample_result :: cached_query_result where
  "sample_result = \<lparr>cr_job_id = 2, cr_columns = [''id''], cr_rows = [[GoInt64 1]], cr_row_count = 1, cr_cached_at = 6,
     cr_expires_at = 66\<rparr>"

definition reading_app :: app where
  "reading_app = plain_app\<lparr>ap_decode := (\<lambda>s. Inr sample_result)\<rparr>"

lemma user_7_token: "verify_token reading_app 6 user_7_token = Inr 7"
proof -
  let ?c = "\<lparr>cl_subject = ''7'', cl_issuer = ''askdb-api'', cl_issued_at = Some 0, cl_not_before = Some 0, cl_expires_at = Some 1000\<rparr>"
  have "current ?c 6" by (simp add: current_def)
  from plain_parse_token [OF this, of "''secret''"] show ?thesis
    by (simp add: verify_token_def reading_app_def plain_app_def plain_accounts_def plain_jwt_def Verify_def user_7_token_def
        parse_uint_def digits_value_def is_digit_def digit_val_def)
qed

lemma shop_world_fields:
  "w_next_job_id shop_world = 2" "w_next_outbox_id shop_world = 2" "w_clock shop_world = 6" "w_pm shop_world = []"
  "w_sources shop_world = [sample_source]" "map ob_message_id (w_outbox shop_world) = [''m1'']" "map ob_job_id (w_outbox shop_world) = [1]"
  by code_simp+

lemma shop_world_connected: "connected shop_world"
  using ready_world_connected by (simp add: connected_def bound_def shop_world_def)

lemma shop_world_outbox: "outbox_wf shop_world"
  using ready_world_wf(1) by (simp add: shop_world_def outbox_wf_def)

theorem question_is_answered_witness:
  "\<exists>w1 w2 p w3.
    run_state (respond reading_app (authorized user_7_token (PostQueryJob ''m2'' (Some (''top products'', 3))))) (quiet shop_world) =
      ((202, SubmitBody 2 ''queued'' 6), quiet w1) \<and>
    run_state (runOnce (sample_env\<lparr>de_pick := [2]\<rparr>) \<lparr>dp_pub = True, dp_conn = True\<rparr>) (quiet w1) =
      (\<lparr>dp_pub = True, dp_conn = True\<rparr>, quiet w2) \<and> p \<in> set (queue_at w2 mqQueue) \<and>
    run_state (handle sample_worker ''lease'' False (delivery_of p)) (quiet w2) = ((OutcomeAck, None), quiet w3) \<and>
    run_state (respond reading_app (authorized user_7_token (GetQueryJobResult (format_uint 2)))) (quiet w3) =
      ((200, ResultBody 2 [''id''] [[GoInt64 1]] 1 6 66), quiet w3)"
proof -
  let ?e = "sample_env\<lparr>de_pick := [2]\<rparr>" and ?j = "asked_job 7 ''top products'' 3 shop_world"
  have unused: "unused ''m2'' shop_world"
    using shop_world_fields by (auto simp: unused_def map_eq_Cons_conv)
  have askable: "askable ''top products'' 3 7 shop_world"
    by (simp add: askable_def maxQuestionLen_def shop_world_fields sample_source_def new_source_def live_source_def)
  have "answers_target sample_worker shop_world ?j (''askdb_demo'', \<lambda>sql w. Inr ([''id''], [[GoInt64 1]]), None)"
    by (simp add: answers_target_def asked_job_def submitted_job_def sample_worker_def)
  then have ans: "answerable sample_worker shop_world ?j ''SELECT id FROM products LIMIT 100'' [''id''] [[GoInt64 1]] ''{}''"
    unfolding answerable_def
    by (intro exI [of _ "''SELECT id FROM products''"] exI [of _ "\<lparr>vr_normalized_sql = ''SELECT id FROM products LIMIT 100'',
        vr_statement_type = ''SELECT'', vr_tables = [''products''], vr_limit = 100\<rparr>"] exI conjI)
      (assumption, simp_all add: answers_schema_def sample_worker_def)
  have env: "amqp_route (de_route ?e)" "confirming (de_route ?e)" "\<forall>i. \<not> de_stop ?e i"
      "length (de_pick ?e) \<le> dc_batch_size (de_config ?e)" "w_next_outbox_id shop_world \<in> set (de_pick ?e)"
    by (simp_all add: sample_env_def shop_world_fields)
  have ids: "0 < w_next_job_id shop_world" "w_next_job_id shop_world < 2 ^ 64" "(7::nat) < 2 ^ 64"
    by (simp_all add: shop_world_fields)
  have ver: "verify_token reading_app (w_clock shop_world) user_7_token = Inr 7"
    by (simp add: shop_world_fields user_7_token)
  have dec: "ap_decode reading_app ''{}'' = Inr sample_result" by (simp add: reading_app_def)
  have st: "dp_pub \<lparr>dp_pub = True, dp_conn = True\<rparr>" "dp_conn \<lparr>dp_pub = True, dp_conn = True\<rparr>" by simp_all
  from question_is_answered [OF shop_world_wf(1) shop_world_outbox unused ids askable ver env(1-3) shop_world_connected
      st env(4,5) ans dec, where lease = "''lease''"]
  show ?thesis
    unfolding shop_world_fields sample_result_def cached_query_result.select_convs .
qed

end
