(* ===== verification/Consumer_Run.thy ===== *)
theory Consumer_Run
  imports Worker_Main_Props
begin

text \<open>
  The consumer while it runs (internal/queryjob/consumer.go: Start, Stop): the goroutine of \<open>Start\<close> that
  takes deliveries from its channel, the caller of \<open>Stop\<close>, and what they share - the wait group, the
  \<open>sync.Once\<close>, the AMQP channel - as steps that interleave in any order. What a handler may answer is the
  relation \<open>may\<close>; for a worker, what \<open>handle\<close> answers under any faults and interference.
\<close>

section \<open>The goroutines\<close>

text \<open>
  The loop is at the receive, between the receive and \<open>wg.Add\<close>, in the handler, between \<open>wg.Done\<close> and the
  acknowledgement, or has returned. \<open>Stop\<close> is not called, inside \<open>once.Do\<close> - before \<open>Cancel\<close>, before
  \<open>wg.Wait\<close>, before \<open>Close\<close> - or has returned.
\<close>

datatype loop_point =
    Receiving | Received delivery | Handling delivery | Answered delivery delivery_outcome | LoopEnded

datatype stop_point = NotStopping | Cancelling | Joining | Closing | Stopped

datatype once_state = OnceFree | OnceBusy | OnceDone

text \<open>
  \<open>cn_buffer\<close> is what the channel of deliveries holds, \<open>cn_unacked\<close> what the broker delivered and waits to
  hear about, \<open>cn_handled\<close> and \<open>cn_acked\<close> what happened so far, latest first.
\<close>

record consumer_run =
  cn_loop :: loop_point
  cn_stop :: stop_point
  cn_once :: once_state
  cn_wg :: nat
  cn_cancelled :: bool
  cn_open :: bool
  cn_buffer :: "delivery option"
  cn_unacked :: "delivery option"
  cn_handled :: "(delivery \<times> delivery_outcome) list"
  cn_acked :: "delivery list"

definition started_consumer :: consumer_run where
  "started_consumer = \<lparr>cn_loop = Receiving, cn_stop = NotStopping, cn_once = OnceFree, cn_wg = 0, cn_cancelled = False,
     cn_open = True, cn_buffer = None, cn_unacked = None, cn_handled = [], cn_acked = []\<rparr>"

text \<open>
  The broker delivers under a prefetch of one. When the AMQP channel closes, by either side or with its
  connection, the broker takes back what was not acknowledged, and a buffered delivery may be dropped or may
  still be received; the channel of deliveries is closed after it. An acknowledgement on a closed AMQP
  channel is an error the loop only logs, as is a failed \<open>Cancel\<close>.
\<close>

inductive consumer_step :: "(delivery \<Rightarrow> delivery_outcome \<Rightarrow> bool) \<Rightarrow> consumer_run \<Rightarrow> consumer_run \<Rightarrow> bool"
  for may where
  deliver: "cn_open c \<Longrightarrow> \<not> cn_cancelled c \<Longrightarrow> cn_unacked c = None \<Longrightarrow> cn_buffer c = None \<Longrightarrow>
     consumer_step may c (c\<lparr>cn_buffer := Some d, cn_unacked := Some d\<rparr>)"
| channel_lost: "consumer_step may c (c\<lparr>cn_open := False, cn_unacked := None\<rparr>)"
| dropped: "\<not> cn_open c \<Longrightarrow> consumer_step may c (c\<lparr>cn_buffer := None\<rparr>)"
| receive: "cn_loop c = Receiving \<Longrightarrow> cn_buffer c = Some d \<Longrightarrow>
     consumer_step may c (c\<lparr>cn_loop := Received d, cn_buffer := None\<rparr>)"
| add: "cn_loop c = Received d \<Longrightarrow> consumer_step may c (c\<lparr>cn_loop := Handling d, cn_wg := Suc (cn_wg c)\<rparr>)"
| answer: "cn_loop c = Handling d \<Longrightarrow> may d out \<Longrightarrow>
     consumer_step may c (c\<lparr>cn_loop := Answered d out, cn_wg := cn_wg c - 1, cn_handled := (d, out) # cn_handled c\<rparr>)"
| ack: "cn_loop c = Answered d OutcomeAck \<Longrightarrow> cn_open c \<Longrightarrow>
     consumer_step may c (c\<lparr>cn_loop := Receiving, cn_unacked := None, cn_acked := d # cn_acked c\<rparr>)"
| nack: "cn_loop c = Answered d OutcomeNackRequeue \<Longrightarrow> cn_open c \<Longrightarrow>
     consumer_step may c (c\<lparr>cn_loop := Receiving, cn_unacked := None\<rparr>)"
| unheard: "cn_loop c = Answered d out \<Longrightarrow> out \<noteq> OutcomeFatal \<Longrightarrow> \<not> cn_open c \<Longrightarrow>
     consumer_step may c (c\<lparr>cn_loop := Receiving\<rparr>)"
| fatal_close: "cn_loop c = Answered d OutcomeFatal \<Longrightarrow> cn_once c = OnceFree \<Longrightarrow>
     consumer_step may c (c\<lparr>cn_loop := LoopEnded, cn_once := OnceDone, cn_open := False, cn_unacked := None\<rparr>)"
| fatal_return: "cn_loop c = Answered d OutcomeFatal \<Longrightarrow> cn_once c = OnceDone \<Longrightarrow>
     consumer_step may c (c\<lparr>cn_loop := LoopEnded\<rparr>)"
| range_ends: "cn_loop c = Receiving \<Longrightarrow> cn_buffer c = None \<Longrightarrow> cn_cancelled c \<or> \<not> cn_open c \<Longrightarrow>
     consumer_step may c (c\<lparr>cn_loop := LoopEnded\<rparr>)"
| stop: "cn_stop c = NotStopping \<Longrightarrow> cn_once c = OnceFree \<Longrightarrow>
     consumer_step may c (c\<lparr>cn_stop := Cancelling, cn_once := OnceBusy\<rparr>)"
| stop_again: "cn_stop c = NotStopping \<Longrightarrow> cn_once c = OnceDone \<Longrightarrow> consumer_step may c (c\<lparr>cn_stop := Stopped\<rparr>)"
| cancel: "cn_stop c = Cancelling \<Longrightarrow> consumer_step may c (c\<lparr>cn_stop := Joining, cn_cancelled := True\<rparr>)"
| cancel_fails: "cn_stop c = Cancelling \<Longrightarrow> consumer_step may c (c\<lparr>cn_stop := Joining\<rparr>)"
| join: "cn_stop c = Joining \<Longrightarrow> cn_wg c = 0 \<Longrightarrow> consumer_step may c (c\<lparr>cn_stop := Closing\<rparr>)"
| close: "cn_stop c = Closing \<Longrightarrow>
     consumer_step may c (c\<lparr>cn_stop := Stopped, cn_once := OnceDone, cn_open := False, cn_unacked := None\<rparr>)"

inductive consumer_reaches :: "(delivery \<Rightarrow> delivery_outcome \<Rightarrow> bool) \<Rightarrow> consumer_run \<Rightarrow> consumer_run \<Rightarrow> bool"
  for may where
  here: "consumer_reaches may c c"
| further: "consumer_reaches may c c' \<Longrightarrow> consumer_step may c' c'' \<Longrightarrow> consumer_reaches may c c''"

section \<open>Invariants\<close>

text \<open>The delivery the loop holds.\<close>

fun in_hand :: "loop_point \<Rightarrow> delivery option" where
  "in_hand (Received d) = Some d"
| "in_hand (Handling d) = Some d"
| "in_hand (Answered d out) = Some d"
| "in_hand _ = None"

text \<open>
  The wait group counts the handler, the once belongs to the caller of \<open>Stop\<close> while it is busy, an open
  channel has one delivery at a time outstanding, and only deliveries whose handler said so are acknowledged.
\<close>

definition consumer_inv :: "(delivery \<Rightarrow> delivery_outcome \<Rightarrow> bool) \<Rightarrow> consumer_run \<Rightarrow> bool" where
  "consumer_inv may c =
     (cn_wg c = (case cn_loop c of Handling d \<Rightarrow> 1 | _ \<Rightarrow> 0) \<and>
      (cn_once c = OnceBusy \<longleftrightarrow> cn_stop c \<in> {Cancelling, Joining, Closing}) \<and>
      (cn_once c = OnceDone \<longrightarrow> \<not> cn_open c) \<and> (cn_stop c = Stopped \<longrightarrow> cn_once c = OnceDone) \<and>
      (cn_buffer c \<noteq> None \<longrightarrow> in_hand (cn_loop c) = None) \<and>
      (cn_open c \<longrightarrow> (\<forall>d. cn_buffer c = Some d \<or> in_hand (cn_loop c) = Some d \<longrightarrow> cn_unacked c = Some d)) \<and>
      (\<forall>d out. cn_loop c = Answered d out \<longrightarrow> (d, out) \<in> set (cn_handled c)) \<and>
      (\<forall>d \<in> set (cn_acked c). (d, OutcomeAck) \<in> set (cn_handled c)) \<and>
      (\<forall>(d, out) \<in> set (cn_handled c). may d out))"

lemma consumer_inv_start: "consumer_inv may started_consumer"
  by (simp add: consumer_inv_def started_consumer_def)

lemma consumer_inv_step: "consumer_step may c c' \<Longrightarrow> consumer_inv may c \<Longrightarrow> consumer_inv may c'"
  by (induction rule: consumer_step.induct) (auto simp: consumer_inv_def split: loop_point.splits)

lemma consumer_reaches_inv: "consumer_reaches may c c' \<Longrightarrow> consumer_inv may c \<Longrightarrow> consumer_inv may c'"
  by (induction rule: consumer_reaches.induct) (blast intro: consumer_inv_step)+


section \<open>After Stop\<close>

text \<open>Deliveries that may still reach a handler.\<close>

definition still_coming :: "consumer_run \<Rightarrow> nat" where
  "still_coming c = (if cn_buffer c = None then 0 else 1) +
     (case cn_loop c of Received d \<Rightarrow> 1 | Handling d \<Rightarrow> 1 | _ \<Rightarrow> 0)"

lemma still_coming_le: "consumer_inv may c \<Longrightarrow> still_coming c \<le> 1"
  by (auto simp: consumer_inv_def still_coming_def split: loop_point.splits)

definition shut :: "consumer_run \<Rightarrow> bool" where
  "shut c = (cn_stop c = Stopped \<and> cn_once c = OnceDone \<and> \<not> cn_open c)"

lemma shut_step:
  assumes "consumer_step may c c'" and "shut c"
  shows "shut c' \<and> cn_acked c' = cn_acked c \<and>
    length (cn_handled c') + still_coming c' \<le> length (cn_handled c) + still_coming c"
  using assms by (induction rule: consumer_step.induct) (auto simp: shut_def still_coming_def)

lemma shut_reaches:
  "consumer_reaches may c c' \<Longrightarrow> shut c \<Longrightarrow> shut c' \<and> cn_acked c' = cn_acked c \<and>
     length (cn_handled c') + still_coming c' \<le> length (cn_handled c) + still_coming c"
proof (induction rule: consumer_reaches.induct)
  case (further c c' c'')
  then show ?case using shut_step [of may c' c''] by fastforce
qed simp

text \<open>A call of \<open>Stop\<close> that nothing interrupts.\<close>

definition stopped_by :: "consumer_run \<Rightarrow> consumer_run" where
  "stopped_by c = c\<lparr>cn_stop := Stopped, cn_once := OnceDone, cn_cancelled := True, cn_open := False, cn_unacked := None\<rparr>"

lemma stop_path:
  assumes "consumer_reaches may c0 c" and "cn_stop c = NotStopping" and "cn_once c = OnceFree" and "cn_wg c = 0"
  shows "consumer_reaches may c0 (stopped_by c)"
proof -
  let ?c1 = "c\<lparr>cn_stop := Cancelling, cn_once := OnceBusy\<rparr>"
  let ?c2 = "?c1\<lparr>cn_stop := Joining, cn_cancelled := True\<rparr>"
  let ?c3 = "?c2\<lparr>cn_stop := Closing\<rparr>"
  have "consumer_step may c ?c1" using assms(2,3) by (rule consumer_step.stop)
  moreover have "consumer_step may ?c1 ?c2" by (rule consumer_step.cancel) simp
  moreover have "consumer_step may ?c2 ?c3" by (rule consumer_step.join) (simp_all add: assms(4))
  moreover have "consumer_step may ?c3 (?c3\<lparr>cn_stop := Stopped, cn_once := OnceDone, cn_open := False, cn_unacked := None\<rparr>)"
    by (rule consumer_step.close) simp
  moreover have "?c3\<lparr>cn_stop := Stopped, cn_once := OnceDone, cn_open := False, cn_unacked := None\<rparr> = stopped_by c"
    by (simp add: stopped_by_def)
  ultimately show ?thesis using assms(1) consumer_reaches.further by metis
qed

text \<open>Once \<open>Stop\<close> has returned nothing is acknowledged any more, and at most one more handler answers.\<close>

lemma stopped_is_quiet:
  assumes "consumer_reaches may started_consumer c" and "cn_stop c = Stopped" and "consumer_reaches may c c'"
  shows "cn_acked c' = cn_acked c \<and> length (cn_handled c') \<le> Suc (length (cn_handled c))"
proof -
  have inv: "consumer_inv may c" by (rule consumer_reaches_inv [OF assms(1) consumer_inv_start])
  then have "shut c" using assms(2) by (auto simp: shut_def consumer_inv_def)
  from shut_reaches [OF assms(3) this] still_coming_le [OF inv] show ?thesis by auto
qed

section \<open>A sample run\<close>

text \<open>One delivery, handled and acknowledged.\<close>

definition acked_run :: "delivery \<Rightarrow> consumer_run" where
  "acked_run d = started_consumer\<lparr>cn_handled := [(d, OutcomeAck)], cn_acked := [d]\<rparr>"

lemma acked_run_reached:
  assumes "may d OutcomeAck"
  shows "consumer_reaches may started_consumer (acked_run d)"
proof -
  let ?c1 = "started_consumer\<lparr>cn_buffer := Some d, cn_unacked := Some d\<rparr>"
  let ?c2 = "?c1\<lparr>cn_loop := Received d, cn_buffer := None\<rparr>"
  let ?c3 = "?c2\<lparr>cn_loop := Handling d, cn_wg := Suc (cn_wg ?c2)\<rparr>"
  let ?c4 = "?c3\<lparr>cn_loop := Answered d OutcomeAck, cn_wg := cn_wg ?c3 - 1, cn_handled := (d, OutcomeAck) # cn_handled ?c3\<rparr>"
  let ?c5 = "?c4\<lparr>cn_loop := Receiving, cn_unacked := None, cn_acked := d # cn_acked ?c4\<rparr>"
  note start = consumer_reaches.here [of may started_consumer]
  have "consumer_reaches may started_consumer ?c1"
    by (rule consumer_reaches.further [OF start consumer_step.deliver]) (simp_all add: started_consumer_def)
  then have "consumer_reaches may started_consumer ?c2"
    by (rule consumer_reaches.further [OF _ consumer_step.receive]) (simp_all add: started_consumer_def)
  then have "consumer_reaches may started_consumer ?c3"
    by (rule consumer_reaches.further [OF _ consumer_step.add]) simp
  then have "consumer_reaches may started_consumer ?c4"
    by (rule consumer_reaches.further [OF _ consumer_step.answer]) (simp_all add: assms)
  then have "consumer_reaches may started_consumer ?c5"
    by (rule consumer_reaches.further [OF _ consumer_step.ack]) (simp_all add: started_consumer_def)
  moreover have "?c5 = acked_run d" by (simp add: acked_run_def started_consumer_def)
  ultimately show ?thesis by (simp only:)
qed

section \<open>Properties\<close>

text \<open>What a worker's handler may answer to a delivery, under any faults and interference.\<close>

definition serves :: "'s worker \<Rightarrow> delivery \<Rightarrow> delivery_outcome \<Rightarrow> bool" where
  "serves s d out = (\<exists>token lost m e m'. rely sys_evolves m \<and> on_watch (m_world m) (m_world m) \<and>
     run_state (handle s token lost d) m = ((out, e), m'))"





end
