(* ===== verification/Dispatcher_Run.thy ===== *)
theory Dispatcher_Run
  imports Dispatcher "HOL-Library.Multiset"
begin

text \<open>
  The dispatcher while it runs (internal/queryjob/dispatcher.go: Start, Stop, loop and the control flow of
  \<open>runOnce\<close>): the polling goroutine and the caller of \<open>Stop\<close> as steps that interleave in any order, over the
  stop channel, the cached publisher and its connection. The effects of a cycle on the outbox and the broker
  are those of \<open>runOnce\<close> in theory Dispatcher; here only what becomes of the events it claimed is kept.
\<close>

section \<open>The goroutines\<close>

text \<open>
  The loop is at its select, about to claim, about to get a publisher for the events it claimed, between two
  events with the publisher it got, inside a publish, or has returned. The mutex makes each of getting,
  dropping and closing the publisher one step. Connections are numbered as they are dialled; a publisher has
  the number of its connection.
\<close>

datatype poll_point =
    Selecting | Claiming | Ensuring "outbox_event list" | Publishing nat "outbox_event list"
  | Sending nat outbox_event "outbox_event list" | PollEnded

datatype halt_point = NotHalting | AwaitingLoop | ClosingClients bool | Halted bool

text \<open>
  \<open>dr_open\<close> and \<open>dr_live\<close> are the connections and publisher channels that are open at the broker,
  \<open>dr_dialled\<close> how many connections were dialled. The argument of the last two points of \<open>Stop\<close> says whether
  its context ended first. \<open>dr_late\<close> counts the publishes that ended after the stop channel was closed.
\<close>

record dispatcher_run =
  dr_poll :: poll_point
  dr_halt :: halt_point
  dr_stop :: bool
  dr_pub :: "nat option"
  dr_conn :: "nat option"
  dr_open :: "nat set"
  dr_live :: "nat set"
  dr_dialled :: nat
  dr_claimed :: "outbox_event multiset"
  dr_confirmed :: "outbox_event multiset"
  dr_released :: "outbox_event multiset"
  dr_late :: nat

definition started_dispatcher :: dispatcher_run where
  "started_dispatcher = \<lparr>dr_poll = Selecting, dr_halt = NotHalting, dr_stop = False, dr_pub = None, dr_conn = None,
     dr_open = {}, dr_live = {}, dr_dialled = 0, dr_claimed = {#}, dr_confirmed = {#}, dr_released = {#}, dr_late = 0\<rparr>"

definition usable :: "dispatcher_run \<Rightarrow> bool" where
  "usable d = (dr_pub d \<noteq> None \<and> (\<exists>k. dr_conn d = Some k \<and> k \<in> dr_open d))"

text \<open>Closing what \<open>d.pub\<close> and \<open>d.conn\<close> hold.\<close>

definition drop_pub :: "dispatcher_run \<Rightarrow> dispatcher_run" where
  "drop_pub d = d\<lparr>dr_live := dr_live d - set_option (dr_pub d), dr_pub := None\<rparr>"

definition drop_stale :: "dispatcher_run \<Rightarrow> dispatcher_run" where
  "drop_stale d = (drop_pub d)\<lparr>dr_open := dr_open d - set_option (dr_conn d), dr_conn := None\<rparr>"

definition close_clients :: "dispatcher_run \<Rightarrow> dispatcher_run" where
  "close_clients d = (let d' = drop_pub d in
     case dr_conn d of
       None \<Rightarrow> d'
     | Some k \<Rightarrow> (if k \<in> dr_open d then d'\<lparr>dr_open := dr_open d - {k}, dr_conn := None\<rparr> else d'))"

definition late_by :: "dispatcher_run \<Rightarrow> nat" where
  "late_by d = dr_late d + (if dr_stop d then 1 else 0)"

text \<open>
  A select with both channels ready takes either branch; a closed stop channel is always ready. A connection
  may be lost at any time, and its channel with it.
\<close>

inductive dispatcher_step :: "dispatcher_run \<Rightarrow> dispatcher_run \<Rightarrow> bool" where
  ticks: "dr_poll d = Selecting \<Longrightarrow> dispatcher_step d (d\<lparr>dr_poll := Claiming\<rparr>)"
| ends: "dr_poll d = Selecting \<Longrightarrow> dr_stop d \<Longrightarrow> dispatcher_step d (d\<lparr>dr_poll := PollEnded\<rparr>)"
| claims_none: "dr_poll d = Claiming \<Longrightarrow> dispatcher_step d (d\<lparr>dr_poll := Selecting\<rparr>)"
| claims: "dr_poll d = Claiming \<Longrightarrow> es \<noteq> [] \<Longrightarrow>
     dispatcher_step d (d\<lparr>dr_poll := Ensuring es, dr_claimed := dr_claimed d + mset es\<rparr>)"
| cached: "dr_poll d = Ensuring es \<Longrightarrow> usable d \<Longrightarrow> dr_pub d = Some k \<Longrightarrow>
     dispatcher_step d (d\<lparr>dr_poll := Publishing k es\<rparr>)"
| reconnects: "dr_poll d = Ensuring es \<Longrightarrow> \<not> usable d \<Longrightarrow> k = dr_dialled d \<Longrightarrow>
     dispatcher_step d ((drop_stale d)\<lparr>dr_poll := Publishing k es, dr_pub := Some k, dr_conn := Some k,
       dr_open := insert k (dr_open (drop_stale d)), dr_live := insert k (dr_live (drop_stale d)), dr_dialled := Suc k\<rparr>)"
| unreachable: "dr_poll d = Ensuring es \<Longrightarrow> \<not> usable d \<Longrightarrow>
     dispatcher_step d ((drop_stale d)\<lparr>dr_poll := Selecting, dr_released := dr_released d + mset es\<rparr>)"
| withholds: "dr_poll d = Publishing k (e # es) \<Longrightarrow> dr_stop d \<Longrightarrow>
     dispatcher_step d (d\<lparr>dr_poll := Publishing k es, dr_released := add_mset e (dr_released d)\<rparr>)"
| sends: "dr_poll d = Publishing k (e # es) \<Longrightarrow> \<not> dr_stop d \<Longrightarrow> dispatcher_step d (d\<lparr>dr_poll := Sending k e es\<rparr>)"
| confirmed: "dr_poll d = Sending k e es \<Longrightarrow> k \<in> dr_live d \<Longrightarrow>
     dispatcher_step d (d\<lparr>dr_poll := Publishing k es, dr_confirmed := add_mset e (dr_confirmed d), dr_late := late_by d\<rparr>)"
| send_fails: "dr_poll d = Sending k e es \<Longrightarrow>
     dispatcher_step d ((drop_pub d)\<lparr>dr_poll := Publishing k es, dr_released := add_mset e (dr_released d), dr_late := late_by d\<rparr>)"
| cycle_ends: "dr_poll d = Publishing k [] \<Longrightarrow> dispatcher_step d (d\<lparr>dr_poll := Selecting\<rparr>)"
| connection_lost: "dispatcher_step d (d\<lparr>dr_open := dr_open d - {k}, dr_live := dr_live d - {k}\<rparr>)"
| halts: "dr_halt d = NotHalting \<Longrightarrow> dispatcher_step d (d\<lparr>dr_halt := AwaitingLoop, dr_stop := True\<rparr>)"
| joins: "dr_halt d = AwaitingLoop \<Longrightarrow> dr_poll d = PollEnded \<Longrightarrow> dispatcher_step d (d\<lparr>dr_halt := ClosingClients False\<rparr>)"
| times_out: "dr_halt d = AwaitingLoop \<Longrightarrow> dispatcher_step d (d\<lparr>dr_halt := ClosingClients True\<rparr>)"
| closes: "dr_halt d = ClosingClients b \<Longrightarrow> dispatcher_step d ((close_clients d)\<lparr>dr_halt := Halted b\<rparr>)"

inductive dispatcher_reaches :: "dispatcher_run \<Rightarrow> dispatcher_run \<Rightarrow> bool" where
  here: "dispatcher_reaches d d"
| further: "dispatcher_reaches d d' \<Longrightarrow> dispatcher_step d' d'' \<Longrightarrow> dispatcher_reaches d d''"

section \<open>Invariants\<close>

fun events_in_hand :: "poll_point \<Rightarrow> outbox_event multiset" where
  "events_in_hand (Ensuring es) = mset es"
| "events_in_hand (Publishing k es) = mset es"
| "events_in_hand (Sending k e es) = add_mset e (mset es)"
| "events_in_hand _ = {#}"

fun is_sending :: "poll_point \<Rightarrow> bool" where
  "is_sending (Sending k e es) = True"
| "is_sending _ = False"

definition dispatcher_inv :: "dispatcher_run \<Rightarrow> bool" where
  "dispatcher_inv d =
     (dr_open d \<subseteq> set_option (dr_conn d) \<and> dr_live d \<subseteq> set_option (dr_pub d) \<and>
      dr_claimed d = dr_confirmed d + dr_released d + events_in_hand (dr_poll d) \<and>
      dr_late d \<le> 1 \<and> (dr_late d = 1 \<longrightarrow> dr_stop d \<and> \<not> is_sending (dr_poll d)) \<and>
      (dr_halt d \<noteq> NotHalting \<longrightarrow> dr_stop d) \<and>
      (dr_halt d = ClosingClients False \<or> dr_halt d = Halted False \<longrightarrow> dr_poll d = PollEnded) \<and>
      (dr_halt d = Halted False \<longrightarrow> dr_open d = {} \<and> dr_pub d = None))"

lemmas drops = drop_pub_def drop_stale_def close_clients_def late_by_def Let_def

lemma dispatcher_inv_start: "dispatcher_inv started_dispatcher"
  by (simp add: dispatcher_inv_def started_dispatcher_def)

lemma dispatcher_inv_step: "dispatcher_step d d' \<Longrightarrow> dispatcher_inv d \<Longrightarrow> dispatcher_inv d'"
  by (induction rule: dispatcher_step.induct) (auto simp: dispatcher_inv_def drops split: option.splits)

lemma dispatcher_reaches_inv: "dispatcher_reaches d d' \<Longrightarrow> dispatcher_inv d \<Longrightarrow> dispatcher_inv d'"
  by (induction rule: dispatcher_reaches.induct) (blast intro: dispatcher_inv_step)+


section \<open>Properties\<close>

text \<open>
  C16. However the polling loop and Stop interleave and connections come and go, every event a cycle claims is
  confirmed, released, or still in the hands of the cycle; at most one publish ends after the stop channel was
  closed; the dispatcher has at most the one connection it holds; and when Stop returns with the loop joined
  no connection is open and every claimed event was confirmed or released.
\<close>

theorem stopped_dispatcher_is_clean:
  assumes "dispatcher_reaches started_dispatcher d"
  shows "dr_claimed d = dr_confirmed d + dr_released d + events_in_hand (dr_poll d) \<and> dr_late d \<le> 1 \<and>
    dr_open d \<subseteq> set_option (dr_conn d) \<and>
    (dr_halt d = Halted False \<longrightarrow> dr_poll d = PollEnded \<and> dr_open d = {} \<and> dr_claimed d = dr_confirmed d + dr_released d)"
proof -
  have "dispatcher_inv d" by (rule dispatcher_reaches_inv [OF assms dispatcher_inv_start])
  then show ?thesis by (auto simp: dispatcher_inv_def)
qed

text \<open>A cycle that sends one event, and a stop that finds the loop at its select.\<close>

definition one_sent :: "outbox_event \<Rightarrow> dispatcher_run" where
  "one_sent e = started_dispatcher\<lparr>dr_poll := PollEnded, dr_halt := Halted False, dr_stop := True, dr_dialled := 1,
     dr_claimed := {#e#}, dr_confirmed := {#e#}\<rparr>"

lemma connected_reached:
  assumes "dispatcher_reaches started_dispatcher d" and "dr_poll d = Ensuring es" and "dr_pub d = None" and "dr_conn d = None"
    and "dr_open d = {}" and "dr_live d = {}"
  shows "dispatcher_reaches started_dispatcher (d\<lparr>dr_poll := Publishing (dr_dialled d) es, dr_pub := Some (dr_dialled d),
    dr_conn := Some (dr_dialled d), dr_open := {dr_dialled d}, dr_live := {dr_dialled d}, dr_dialled := Suc (dr_dialled d)\<rparr>)"
proof -
  have "drop_stale d = d" using assms(3-6) by (simp add: drops)
  moreover have "\<not> usable d" using assms(3) by (simp add: usable_def)
  ultimately show ?thesis
    using dispatcher_reaches.further [OF assms(1) dispatcher_step.reconnects [OF assms(2) _ refl]] assms(5,6) by simp
qed

lemma claimed_reached:
  "dispatcher_reaches started_dispatcher (started_dispatcher\<lparr>dr_poll := Ensuring [e], dr_claimed := {#e#}\<rparr>)"
proof -
  have "dispatcher_reaches started_dispatcher (started_dispatcher\<lparr>dr_poll := Claiming\<rparr>)"
    by (rule dispatcher_reaches.further [OF dispatcher_reaches.here dispatcher_step.ticks]) (simp add: started_dispatcher_def)
  from dispatcher_reaches.further [OF this dispatcher_step.claims [where es = "[e]"]]
  show ?thesis by (simp add: started_dispatcher_def)
qed

lemma one_sent_reached: "dispatcher_reaches started_dispatcher (one_sent e)"
proof -
  let ?c = "started_dispatcher\<lparr>dr_poll := Ensuring [e], dr_claimed := {#e#}\<rparr>"
  let ?d1 = "?c\<lparr>dr_poll := Publishing 0 [e], dr_pub := Some 0, dr_conn := Some 0, dr_open := {0}, dr_live := {0}, dr_dialled := 1\<rparr>"
  let ?d2 = "?d1\<lparr>dr_poll := Sending 0 e []\<rparr>"
  let ?d3 = "?d2\<lparr>dr_poll := Publishing 0 [], dr_confirmed := add_mset e (dr_confirmed ?d2), dr_late := late_by ?d2\<rparr>"
  let ?d4 = "?d3\<lparr>dr_poll := Selecting\<rparr>"
  let ?d5 = "?d4\<lparr>dr_halt := AwaitingLoop, dr_stop := True\<rparr>"
  let ?d6 = "?d5\<lparr>dr_poll := PollEnded\<rparr>"
  let ?d7 = "?d6\<lparr>dr_halt := ClosingClients False\<rparr>"
  have "dispatcher_reaches started_dispatcher ?d1"
    using connected_reached [OF claimed_reached] by (simp add: started_dispatcher_def)
  then have "dispatcher_reaches started_dispatcher ?d2"
    by (rule dispatcher_reaches.further [OF _ dispatcher_step.sends]) (simp_all add: started_dispatcher_def)
  then have "dispatcher_reaches started_dispatcher ?d3"
    by (rule dispatcher_reaches.further [OF _ dispatcher_step.confirmed]) simp_all
  then have "dispatcher_reaches started_dispatcher ?d4"
    by (rule dispatcher_reaches.further [OF _ dispatcher_step.cycle_ends]) simp
  then have "dispatcher_reaches started_dispatcher ?d5"
    by (rule dispatcher_reaches.further [OF _ dispatcher_step.halts]) (simp add: started_dispatcher_def)
  then have "dispatcher_reaches started_dispatcher ?d6"
    by (rule dispatcher_reaches.further [OF _ dispatcher_step.ends]) simp_all
  then have "dispatcher_reaches started_dispatcher ?d7"
    by (rule dispatcher_reaches.further [OF _ dispatcher_step.joins]) simp_all
  then have "dispatcher_reaches started_dispatcher ((close_clients ?d7)\<lparr>dr_halt := Halted False\<rparr>)"
    by (rule dispatcher_reaches.further [OF _ dispatcher_step.closes]) simp
  moreover have "(close_clients ?d7)\<lparr>dr_halt := Halted False\<rparr> = one_sent e"
    by (simp add: drops one_sent_def started_dispatcher_def)
  ultimately show ?thesis by (simp only:)
qed

theorem stopped_dispatcher_is_clean_witness:
  "\<exists>d. dispatcher_reaches started_dispatcher d \<and> dr_halt d = Halted False \<and> dr_confirmed d = {#sample_event#} \<and>
     dr_claimed d = dr_confirmed d + dr_released d \<and> dr_open d = {}"
proof -
  have "dr_halt (one_sent sample_event) = Halted False" "dr_confirmed (one_sent sample_event) = {#sample_event#}"
    by (simp_all add: one_sent_def)
  with stopped_dispatcher_is_clean [OF one_sent_reached [of sample_event]] one_sent_reached [of sample_event]
  show ?thesis by blast
qed


end
