(* ===== verification/Infra.thy ===== *)
theory Infra
  imports Go_Base
begin

text \<open>
  The clients of servers (internal/infra): their constructors, which open, configure and check a client, and
  \<open>dbNameFromDSN\<close>, which picks what a constructor logs of its data source name. What the drivers answer to
  each call is an argument; the result comes with the calls made on the driver, in order, from which it can be
  read whether a client that is not handed out was closed.
\<close>

section \<open>The database name of a DSN\<close>

text \<open>\<open>strings.Index\<close> and \<open>strings.LastIndex\<close> of one byte.\<close>

definition Index :: "string \<Rightarrow> char \<Rightarrow> int" where
  "Index s c = (if c \<in> set s then int (length (takeWhile (\<lambda>x. x \<noteq> c) s)) else -1)"

definition LastIndex :: "string \<Rightarrow> char \<Rightarrow> int" where
  "LastIndex s c = (if c \<in> set s then int (length s) - 1 - int (length (takeWhile (\<lambda>x. x \<noteq> c) (rev s))) else -1)"

definition dbNameFromDSN :: "string \<Rightarrow> string" where
  "dbNameFromDSN dsn =
     (let queryStart = Index dsn (CHR ''?'');
          relevant = (if queryStart \<noteq> -1 then take (nat queryStart) dsn else dsn);
          lastSlash = LastIndex relevant (CHR ''/'')
      in if lastSlash = -1 \<or> lastSlash = int (length relevant) - 1 then ''<unknown>''
         else drop (nat (lastSlash + 1)) relevant)"

section \<open>Constructors\<close>

datatype driver_call =
    OpenPool string | MaxOpenConns nat | MaxIdleConns nat | ConnMaxLifetime duration | PingPool | ClosePool
  | DialBroker string | OpenChannel | CloseChannel | CloseBroker

text \<open>A client, by the text its constructor logs; or the error. With the calls.\<close>

type_synonym opened = "(go_error + string) \<times> driver_call list"

text \<open>\<open>NewMySQL\<close>: the errors of \<open>gorm.Open\<close>, of \<open>gormDB.DB\<close> and of \<open>Ping\<close>.\<close>

definition NewMySQL :: "go_error option \<Rightarrow> go_error option \<Rightarrow> go_error option \<Rightarrow> string \<Rightarrow> opened" where
  "NewMySQL openErr dbErr pingErr dsn = (case openErr of
       Some e \<Rightarrow> (Inl (Wrap ''mysql: open: '' e ''''), [OpenPool dsn])
     | None \<Rightarrow> (case dbErr of
         Some e \<Rightarrow> (Inl (Wrap ''mysql: get sql.DB: '' e ''''), [OpenPool dsn])
       | None \<Rightarrow> (case pingErr of
           Some e \<Rightarrow> Inl (Wrap ''mysql: ping: '' e '''') | None \<Rightarrow> Inr (dbNameFromDSN dsn),
           [OpenPool dsn, MaxOpenConns 25, MaxIdleConns 5, PingPool])))"

definition NewReaderDB :: "go_error option \<Rightarrow> go_error option \<Rightarrow> string \<Rightarrow> opened" where
  "NewReaderDB openErr pingErr dsn = (case openErr of
       Some e \<Rightarrow> (Inl (Wrap ''readerdb: open: '' e ''''), [OpenPool dsn])
     | None \<Rightarrow> (let calls = [OpenPool dsn, MaxOpenConns 10, MaxIdleConns 2, ConnMaxLifetime (30 * 60 * second), PingPool] in
         case pingErr of
           Some e \<Rightarrow> (Inl (Wrap ''readerdb: ping: '' e ''''), calls @ [ClosePool])
         | None \<Rightarrow> (Inr (dbNameFromDSN dsn), calls)))"

definition NewRedis :: "go_error option \<Rightarrow> string \<Rightarrow> opened" where
  "NewRedis pingErr addr = (case pingErr of
       Some e \<Rightarrow> Inl (Wrap (''redis: ping '' @ addr @ '': '') e '''') | None \<Rightarrow> Inr addr, [OpenPool addr, PingPool])"

definition NewRabbitMQ :: "go_error option \<Rightarrow> go_error option \<Rightarrow> string \<Rightarrow> opened" where
  "NewRabbitMQ dialErr channelErr url = (case dialErr of
       Some e \<Rightarrow> (Inl (Wrap ''rabbitmq: dial: '' e ''''), [DialBroker url])
     | None \<Rightarrow> (case channelErr of
         Some e \<Rightarrow> (Inl (Wrap ''rabbitmq: open channel: '' e ''''), [DialBroker url, OpenChannel, CloseBroker])
       | None \<Rightarrow> (Inr '''', [DialBroker url, OpenChannel])))"

text \<open>\<open>RabbitMQ.Close\<close>: when the channel does not close, the connection is not closed either.\<close>

definition CloseRabbitMQ :: "go_error option \<Rightarrow> go_error option \<Rightarrow> go_error option \<times> driver_call list" where
  "CloseRabbitMQ channelErr connErr = (case channelErr of
       Some e \<Rightarrow> (Some (Wrap ''rabbitmq: close channel: '' e ''''), [CloseChannel])
     | None \<Rightarrow> (map_option (\<lambda>e. Wrap ''rabbitmq: close connection: '' e '''') connErr, [CloseChannel, CloseBroker]))"

definition NewChannel :: "go_error option \<Rightarrow> go_error option \<times> driver_call list" where
  "NewChannel channelErr = (map_option (\<lambda>e. Wrap ''rabbitmq: new channel: '' e '''') channelErr, [OpenChannel])"

section \<open>Lemmas\<close>

text \<open>Reader and broker are closed when their check fails; the pools of MySQL and Redis are left.\<close>

lemma failed_clients:
  "ClosePool \<in> set (snd (NewReaderDB None (Some e) dsn))"
  "CloseBroker \<in> set (snd (NewRabbitMQ None (Some e) dsn))"
  "ClosePool \<notin> set (snd (NewMySQL openErr dbErr pingErr dsn))"
  "ClosePool \<notin> set (snd (NewRedis pingErr dsn))"
  by (auto simp: NewReaderDB_def NewRabbitMQ_def NewMySQL_def NewRedis_def Let_def split: option.splits)

lemma before_index: "(if Index s c \<noteq> -1 then take (nat (Index s c)) s else s) = takeWhile (\<lambda>x. x \<noteq> c) s"
proof (cases "c \<in> set s")
  case True
  then show ?thesis using takeWhile_eq_take [of "\<lambda>x. x \<noteq> c" s] by (simp add: Index_def)
next
  case False
  then have "takeWhile (\<lambda>x. x \<noteq> c) s = s" by (auto simp: takeWhile_eq_all_conv)
  then show ?thesis by (simp only: Index_def False if_False simp_thms)
qed

lemma last_slash: "CHR ''/'' \<notin> set s \<Longrightarrow> LastIndex (a @ CHR ''/'' # s) (CHR ''/'') = int (length a)"
  by (simp add: LastIndex_def takeWhile_append)

lemma relevant_name:
  assumes "CHR ''?'' \<notin> set (a @ s)" and "CHR ''/'' \<notin> set s" and "q = [] \<or> hd q = CHR ''?''"
  shows "dbNameFromDSN (a @ CHR ''/'' # s @ q) = (if s = [] then ''<unknown>'' else s)"
proof -
  have "takeWhile (\<lambda>x. x \<noteq> CHR ''?'') (a @ CHR ''/'' # s @ q) = a @ CHR ''/'' # s"
    using assms(1,3) by (cases q) (auto simp: takeWhile_append)
  then show ?thesis
    using last_slash [OF assms(2), of a] by (simp add: dbNameFromDSN_def before_index nat_add_distrib)
qed

section \<open>Property\<close>

text \<open>
  C40. What a constructor logs of a DSN \<open>credentials@address/database?parameters\<close>: when the credentials have no
  question mark it is the database name; but a password with a slash and after it a question mark - which
  the driver accepts - has what is between them logged in its place.
\<close>

theorem logged_database_name:
  assumes "CHR ''?'' \<notin> set address" and "CHR ''?'' \<notin> set database" and "CHR ''/'' \<notin> set database"
    and "parameters = [] \<or> hd parameters = CHR ''?''"
    and "dsn = credentials @ ''@'' @ address @ ''/'' @ database @ parameters"
  shows "(CHR ''?'' \<notin> set credentials \<longrightarrow> dbNameFromDSN dsn = (if database = [] then ''<unknown>'' else database)) \<and>
    (\<forall>before part after. credentials = before @ ''/'' @ part @ ''?'' @ after \<and> part \<noteq> [] \<and>
       CHR ''?'' \<notin> set (before @ part) \<and> CHR ''/'' \<notin> set part \<longrightarrow> dbNameFromDSN dsn = part)"
proof (intro conjI allI impI)
  assume "CHR ''?'' \<notin> set credentials"
  with relevant_name [where a = "credentials @ ''@'' @ address" and s = database and q = parameters] assms
  show "dbNameFromDSN dsn = (if database = [] then ''<unknown>'' else database)" by simp
next
  fix before part after
  assume "credentials = before @ ''/'' @ part @ ''?'' @ after \<and> part \<noteq> [] \<and>
       CHR ''?'' \<notin> set (before @ part) \<and> CHR ''/'' \<notin> set part"
  with relevant_name [where a = before and s = part and q = "CHR ''?'' # after @ ''@'' @ address @ ''/'' @ database @ parameters"] assms(5)
  show "dbNameFromDSN dsn = part" by simp
qed

theorem logged_database_name_witness:
  "dbNameFromDSN ''app:secret@tcp(db:3306)/askdb_app?parseTime=true'' = ''askdb_app'' \<and>
   dbNameFromDSN ''app:top/secret?1@tcp(db:3306)/askdb_app'' = ''secret''"
proof -
  have "dbNameFromDSN ''app:secret@tcp(db:3306)/askdb_app?parseTime=true'' = ''askdb_app''"
    using logged_database_name [where credentials = "''app:secret''" and address = "''tcp(db:3306)''"
        and database = "''askdb_app''" and parameters = "''?parseTime=true''", OF _ _ _ _ refl] by simp
  moreover have "dbNameFromDSN (''app:top/secret?1'' @ ''@'' @ ''tcp(db:3306)'' @ ''/'' @ ''askdb_app'' @ []) = ''secret''"
    using logged_database_name [where credentials = "''app:top/secret?1''" and address = "''tcp(db:3306)''"
        and database = "''askdb_app''" and parameters = "[]", OF _ _ _ _ refl, THEN conjunct2, THEN spec [of _ "''app:top''"],
        THEN spec [of _ "''secret''"], THEN spec [of _ "''1''"]] by simp
  ultimately show ?thesis by simp
qed

end
