(* ===== verification/Spec2Isabelle.thy ===== *)
theory Spec2Isabelle
  imports Dispatcher Worker_Success Consumer Guard_Properties Net_Properties Http_Props Http_Auth_Props Config_Props
    Query_Exec_Props Worker_Main_Props Api_Main_Props Datasource_Catalogue Retry_Loop Answering
    Consumer_Run Dispatcher_Run Infra Random_Ids
begin

text \<open>
  AskDB-Go answers questions in natural language about a user's database. This library models the Go program
  under src/cmd and src/internal in HOL and proves what makes it correct.

  \<^bold>\<open>The program.\<close> Two processes share a MySQL database (askdb_app), a RabbitMQ broker and a Redis cache. The
  API process (cmd/api) registers users, keeps their data sources with encrypted passwords, accepts questions
  and hands out results. A question becomes a row of query_jobs and, in the same transaction, an event in
  outbox_events; the dispatcher, a goroutine of the API, claims events under a lease and publishes them to the
  execution queue. The worker process (cmd/worker) consumes the queue: it claims the message in
  processed_messages, takes the job through its states - the language model writes SQL, the guard checks and
  rewrites it, the executor runs it on the user's database through an address-checked connection - and
  stores the result in Redis. Failures lead to a retry queue, whose messages come back after a delay, or to the
  dead-letter queue.

  \<^bold>\<open>State and programs.\<close> Theory App_State has the shared state, the record \<open>world\<close>: the tables as lists of
  rows in the columns of the Go models, the Redis entries, and for every queue the messages the broker ever
  routed to it. Code that reaches it is a state monad program over a \<open>machine\<close>, a world and a script. Each
  call to the outside (\<open>ext\<close>) consumes one entry of the script: what other processes do before it, how long it
  takes, and whether it succeeds, fails, or takes effect and loses its reply. A statement about all scripts
  covers every fault and every interleaving at the granularity of a statement or transaction, a publish, a
  cache access. \<open>quiet w\<close> is the machine without script, the undisturbed run. \<open>triple R P p Q\<close> is the
  rely-guarantee contract of a program: with interference within the relation \<open>R\<close> and any driver errors, from
  \<open>P\<close> it ends in \<open>Q\<close>. The locale \<open>evolution\<close> states what a relation must satisfy to be relied upon; the clients
  of a table are locales above it (\<open>job_client\<close>, \<open>pm_client\<close>, \<open>broker_client\<close>, \<open>source_client\<close>,
  \<open>writing_client\<close>), interpreted first on the evolution of their own table and then on \<open>sys_evolves\<close>
  (theory System), the evolution of the whole system with the accounting of jobs and messages.

  \<^bold>\<open>Theories and code.\<close> In the order of their imports:
  \<^item> Go_Base, Go_Strings, Go_Numbers, Net_Addr, Base64: the Go vocabulary - errors and \<open>errors.Is\<close>, machine
    integers with their wrap-around, durations, UTF-8 and package strings, strconv, package net, base64.
  \<^item> Sql_Table: SELECT, UPDATE and DELETE on tables as lists; the locales \<open>guarded_update\<close>, \<open>one_shot_update\<close>
    and \<open>leased_rows\<close> for compare-and-set statements.
  \<^item> Job_Status, Job_Repo, Outbox, Idempotency, Publisher, System: queryjob/status.go, model.go, message.go,
    repository.go, outbox.go, idempotency.go, publisher.go. Random_Ids: the identifiers they draw.
  \<^item> Dispatcher, Dispatcher_Run: queryjob/dispatcher.go, a poll cycle as a program, and the polling goroutine
    and Stop as a step relation.
  \<^item> Result_Store, Worker, Worker_Success, Consumer, Consumer_Run, Retry_Loop: queryresult,
    queryjob/worker_service.go, error_class.go, consumer.go; the handler of a delivery as a program, the goroutines of
    Start and Stop as a step relation, and the loop a retried message runs through.
  \<^item> Sql_Ast, Sql_Guard, Sql_Guard_Sound, Guard_Properties: sqlguard, over the tree of the TiDB parser.
  \<^item> Net_Guard, Net_Properties: netguard. Crypto: crypto/aes_gcm.go.
  \<^item> Datasource_Repo, Datasource_Service, Datasource_Conn, Datasource_Props, Datasource_Properties,
    Datasource_Catalogue: datasource, and the abstract catalogue it refines.
  \<^item> Job_Service, Job_Service_Props, Http_Api, Http_Props: queryjob/service.go and handler.
  \<^item> Accounts, Accounts_Props, Http_Auth, Http_Auth_Props: user, auth, middleware, handler/health.go and the
    routes of cmd/api/main.go.
  \<^item> Config, Config_Props: config. Query_Exec, Query_Exec_Props: queryexec and the decoding of cached results.
    Fake_Llm: llm/fake.go. Infra: infra.
  \<^item> Worker_Main, Worker_Main_Props, Api_Main, Api_Main_Props: the start-up and wiring of the two processes.
  \<^item> Answering: all parts together on the path of one question.

  Definitions keep the names of the code where HOL allows; rows and structs are records with a prefix per
  type, errors are values of \<open>go_error\<close>, results that may fail are sums, nil pointers and NULL are \<open>None\<close>.

  \<^bold>\<open>What the lemmas show.\<close>
  \<^item> No job is lost on the way: submission writes job and event together, a published event has its message in
    the queue, an acknowledged delivery has a lasting reason (dead letter, retry, completed, terminal) however the
    goroutines of the consumer interleave and whenever it is stopped - with the exception of a stale duplicate,
    which can strand a retrying job, as is proved too.
  \<^item> Leases: claims of events are exclusive, one worker holds a message, a holder whose lease was taken over
    changes nothing.
  \<^item> The status column only moves along the graph of status.go and terminal rows are frozen; retries end.
  \<^item> Only SQL the guard returned is executed; it is a single SELECT confined to the allowed database, tables
    and functions with a bounded literal LIMIT; the exact extent, including a name a WITH clause smuggles, is stated.
  \<^item> Connections go to checked addresses only; the blocklist is the list of reserved networks.
  \<^item> Passwords are bound to their row; the worker opens what the API stored.
  \<^item> Users are isolated; results are private; errors and logins tell a client nothing more than fixed texts.
  \<^item> A configuration that loads is within its bounds; a result is within the row cap and comes back from the
    cache as it was, up to floats written as integers.
  \<^item> Refinement: undisturbed data source requests are those of a catalogue with clear passwords.
  \<^item> Shutdown: what Stop of dispatcher and consumer guarantees, and what it misses.
  \<^item> Liveness: an undisturbed question is answered, from the POST to the GET of its result.

  \<^bold>\<open>Termination and bounds.\<close> No definition runs on fuel. The loops of the code are structural recursions over
  the rows, events, deliveries or bytes they walk, or functions with a termination proof (UTF-8 decoding, IPv6
  groups, durations); the retry loop ends by the measure of the attempts the consumer's header check admits
  (100, plus one round for a first attempt out of range), as attempts are eight bits and could wrap.

  \<^bold>\<open>Parameters.\<close> Code outside src/ is an argument: AES-GCM (\<open>aead\<close>), JWT (\<open>jwt_lib\<close>), bcrypt, JSON encoding and
  decoding, the SQL parser and printer (\<open>parser\<close>), the MySQL driver (\<open>driver\<close>, result sets), name resolution,
  the broker's routing (\<open>route\<close>, with \<open>amqp_route\<close> for the documented behaviour of a direct exchange), Unicode
  case mapping, rounding to float64, the collation of unique columns, and every choice the code leaves to
  them, such as which rows SKIP LOCKED shows. Hypotheses about them are named, and the witnesses of the theorems
  instantiate them. A transaction is atomic; each of its statements may fail, and so may the commit.

  \<^bold>\<open>Not modelled.\<close> Gin's routing and JSON binding (a request arrives as an endpoint with its bound body or none),
  signals and the HTTP server's own shutdown, the order in which main closes clients, logging other than what
  Infra shows, contexts except where an error says they ended, column widths (only as statement faults), fields
  of syntax trees the guard does not look at and which hold no expressions, one-line constructors and
  accessors, the Vue client, the SQL migrations. The lease renewal of the consumer is an operation
  (\<open>renew_tick\<close>) whose verdict is an argument of the handler. At this commit cmd/worker/main.go leaves out the
  schema readers \<open>NewWorkerService\<close> asks for; they are fields of \<open>worker_libs\<close>.
\<close>

end
